(* ===== verification/Prelude.thy ===== *)
theory Prelude
  imports Main
begin

text \<open>
  Shared vocabulary of the development: the identifier types of the signalling
  system (socket ids issued by the relay, media track and stream ids issued by the
  browser, e-mail addresses and room names typed in the lobby), the loop combinator
  that models the source's \<open>for (...) { try { ... } catch { } }\<close> loops, and the
  generic list lemmas that the component proofs share.
\<close>

type_synonym sid = string
type_synonym track_id = nat
type_synonym stream_id = nat
type_synonym email = string
type_synonym room_id = string

named_theorems handler_defs \<open>unfolding rules of the client's event handlers\<close>

subsection \<open>A loop whose body may throw, each exception caught and ignored\<close>

text \<open>
  \<open>try_each f s xs\<close> runs \<open>f\<close> on every element of \<open>xs\<close> in order; a body that
  raises (\<open>Inl\<close>) leaves the state as it was, as a \<open>catch\<close> that only logs does.
\<close>

fun try_each :: "('s \<Rightarrow> 'a \<Rightarrow> 'e + 's) \<Rightarrow> 's \<Rightarrow> 'a list \<Rightarrow> 's" where
  "try_each f s [] = s"
| "try_each f s (x # xs) = try_each f (case f s x of Inl _ \<Rightarrow> s | Inr s' \<Rightarrow> s') xs"

lemma try_each_append [simp]:
  "try_each f s (xs @ ys) = try_each f (try_each f s xs) ys"
  by (induction xs arbitrary: s) auto

lemma try_each_invariant:
  assumes "P s"
    and "\<And>s x s'. P s \<Longrightarrow> f s x = Inr s' \<Longrightarrow> P s'"
  shows "P (try_each f s xs)"
  using assms(1)
proof (induction xs arbitrary: s)
  case Nil
  then show ?case by simp
next
  case (Cons x xs)
  have "P (case f s x of Inl _ \<Rightarrow> s | Inr s' \<Rightarrow> s')"
    using Cons.prems assms(2) by (auto split: sum.split)
  then show ?case by (simp add: Cons.IH)
qed

lemma try_each_cong:
  assumes "\<And>s x. x \<in> set xs \<Longrightarrow> P s \<Longrightarrow> (case f s x of Inl _ \<Rightarrow> s | Inr s' \<Rightarrow> s') = (case g s x of Inl _ \<Rightarrow> s | Inr s' \<Rightarrow> s')"
    and "\<And>s x s'. P s \<Longrightarrow> g s x = Inr s' \<Longrightarrow> P s'"
    and "P s"
  shows "try_each f s xs = try_each g s xs"
  using assms
proof (induction xs arbitrary: s)
  case Nil
  then show ?case by simp
next
  case (Cons x xs)
  let ?s' = "case g s x of Inl _ \<Rightarrow> s | Inr s' \<Rightarrow> s'"
  have eq: "(case f s x of Inl _ \<Rightarrow> s | Inr s' \<Rightarrow> s') = ?s'"
    using Cons.prems(1,3) by simp
  have "P ?s'" using Cons.prems(2,3) by (auto split: sum.split)
  then have "try_each f ?s' xs = try_each g ?s' xs"
    using Cons.IH Cons.prems(1,2) by simp
  then show ?case using eq by simp
qed

subsection \<open>Lists\<close>

lemma distinct_append_new:
  "distinct xs \<Longrightarrow> x \<notin> set xs \<Longrightarrow> distinct (xs @ [x])"
  by simp

lemma mem_map_filter:
  "y \<in> set (List.map_filter f xs) \<longleftrightarrow> (\<exists>x\<in>set xs. f x = Some y)"
  by (induction xs) (auto simp: map_filter_simps split: option.splits)

lemma map_filter_append [simp]:
  "List.map_filter f (xs @ ys) = List.map_filter f xs @ List.map_filter f ys"
  by (simp add: map_filter_def)

lemma list_all_take_drop: "list_all P xs \<Longrightarrow> list_all P (take n xs @ drop m xs)"
  by (auto simp: list_all_iff dest: in_set_takeD in_set_dropD)

lemma filter_notin_set [simp]:
  "set (filter (\<lambda>x. x \<notin> set ys) xs) = set xs - set ys"
  by auto

end
