(* ===== verification/PeerConnection.thy ===== *)
theory PeerConnection
  imports Prelude
begin

text \<open>
  The browser's \<open>RTCPeerConnection\<close>, the media-transport engine that
  \<open>src/client/src/service/peer.js\<close> wraps. It is not code of the repository: it is
  modelled from the capability boundary of the specification (section 6) and the
  signalling-state table of JSEP. Only what the repository's code can observe is kept:
  the signalling state, the current local and remote descriptions, the senders created
  by \<open>addTrack\<close>, the remote tracks already surfaced, the negotiation-needed flag and
  the queue of tasks the engine has scheduled for the page (track events and the
  negotiation-needed check). A session description carries its type, the serial of the
  offer it belongs to and the tracks its author sends.
\<close>

datatype signaling_state = Stable | HaveLocalOffer | HaveRemoteOffer

datatype sdp_type = Offer | Answer

record sdesc =
  sd_type :: sdp_type
  sd_serial :: nat
  sd_tracks :: "(track_id \<times> stream_id option) list"

record sender =
  snd_track :: "track_id option"
  snd_stream :: "stream_id option"

record mstream =
  ms_id :: stream_id
  ms_tracks :: "track_id list"

record track_event =
  ev_track :: track_id
  ev_streams :: "mstream list"

datatype pc_event = TrackEvent track_event | NegotiationCheck

datatype pc_error = InvalidStateError | InvalidAccessError | TypeError

record pc =
  ice_servers :: "string list"
  signaling :: signaling_state
  local_desc :: "sdesc option"
  current_local :: "sdesc option"
  remote_desc :: "sdesc option"
  senders :: "sender list"
  receivers :: "(track_id \<times> stream_id option) list"
  offer_count :: nat
  nego_flag :: bool
  events :: "pc_event list"

definition pc_init :: "string list \<Rightarrow> pc" where
  "pc_init servers = \<lparr>ice_servers = servers, signaling = Stable, local_desc = None,
     current_local = None, remote_desc = None, senders = [], receivers = [], offer_count = 0,
     nego_flag = False, events = []\<rparr>"

definition sender_tracks :: "pc \<Rightarrow> track_id list" where
  "sender_tracks p = List.map_filter snd_track (senders p)"

definition media_of :: "pc \<Rightarrow> (track_id \<times> stream_id option) list" where
  "media_of p = List.map_filter (\<lambda>s. map_option (\<lambda>t. (t, snd_stream s)) (snd_track s)) (senders p)"

definition desc_tracks :: "sdesc option \<Rightarrow> (track_id \<times> stream_id option) list" where
  "desc_tracks d = (case d of None \<Rightarrow> [] | Some x \<Rightarrow> sd_tracks x)"

text \<open>
  "Check if negotiation is needed": some sender's track is not yet in the current
  (last negotiated) local description.
\<close>

definition needs_negotiation :: "pc \<Rightarrow> bool" where
  "needs_negotiation p \<longleftrightarrow> \<not> list_all (\<lambda>m. m \<in> set (desc_tracks (current_local p))) (media_of p)"

text \<open>"Update the negotiation-needed flag": the engine queues the check as a task.\<close>

definition pc_update_nego :: "pc \<Rightarrow> pc" where
  "pc_update_nego p = p\<lparr>events := events p @ [NegotiationCheck]\<rparr>"

text \<open>
  The queued check itself: it aborts unless the state is stable, clears the flag when
  nothing is to negotiate, and otherwise raises the flag and fires
  \<open>negotiationneeded\<close> (the boolean) unless the flag was already up.
\<close>

definition nego_task :: "pc \<Rightarrow> pc \<times> bool" where
  "nego_task p =
     (if signaling p \<noteq> Stable then (p, False)
      else if \<not> needs_negotiation p then (p\<lparr>nego_flag := False\<rparr>, False)
      else if nego_flag p then (p, False)
      else (p\<lparr>nego_flag := True\<rparr>, True))"

definition pc_addTrack :: "pc \<Rightarrow> track_id \<Rightarrow> stream_id \<Rightarrow> pc_error + pc" where
  "pc_addTrack p t s =
     (if Some t \<in> set (map snd_track (senders p)) then Inl InvalidAccessError
      else Inr (pc_update_nego
             (p\<lparr>senders := senders p @ [\<lparr>snd_track = Some t, snd_stream = Some s\<rparr>]\<rparr>)))"

definition pc_createOffer :: "pc \<Rightarrow> pc \<times> sdesc" where
  "pc_createOffer p =
     (p\<lparr>offer_count := Suc (offer_count p)\<rparr>,
      \<lparr>sd_type = Offer, sd_serial = Suc (offer_count p), sd_tracks = media_of p\<rparr>)"

definition pc_createAnswer :: "pc \<Rightarrow> pc_error + sdesc" where
  "pc_createAnswer p =
     (if signaling p \<noteq> HaveRemoteOffer then Inl InvalidStateError
      else case remote_desc p of
        None \<Rightarrow> Inl InvalidStateError
      | Some r \<Rightarrow> Inr \<lparr>sd_type = Answer, sd_serial = sd_serial r, sd_tracks = media_of p\<rparr>)"

definition pc_setLocalDescription :: "pc \<Rightarrow> sdesc \<Rightarrow> pc_error + pc" where
  "pc_setLocalDescription p d =
     (case sd_type d of
       Offer \<Rightarrow>
         (if signaling p = Stable \<or> signaling p = HaveLocalOffer
          then Inr (p\<lparr>signaling := HaveLocalOffer, local_desc := Some d\<rparr>)
          else Inl InvalidStateError)
     | Answer \<Rightarrow>
         (if signaling p = HaveRemoteOffer
          then Inr (pc_update_nego (p\<lparr>signaling := Stable, local_desc := Some d, current_local := Some d\<rparr>))
          else Inl InvalidStateError))"

text \<open>
  Applying a remote description surfaces each remote track not seen before as a
  \<open>track\<close> event; the event's stream is the remote \<open>MediaStream\<close> of the track's
  stream id with every track of that stream received so far.
\<close>

definition remote_stream :: "pc \<Rightarrow> stream_id \<Rightarrow> mstream" where
  "remote_stream p s = \<lparr>ms_id = s, ms_tracks = map fst (filter (\<lambda>r. snd r = Some s) (receivers p))\<rparr>"

definition track_event_for :: "pc \<Rightarrow> track_id \<Rightarrow> stream_id option \<Rightarrow> track_event" where
  "track_event_for p t so =
     \<lparr>ev_track = t, ev_streams = (case so of None \<Rightarrow> [] | Some s \<Rightarrow> [remote_stream p s])\<rparr>"

fun deliver_tracks :: "pc \<Rightarrow> (track_id \<times> stream_id option) list \<Rightarrow> pc" where
  "deliver_tracks p [] = p"
| "deliver_tracks p ((t, so) # ms) =
     (if t \<in> set (map fst (receivers p)) then deliver_tracks p ms
      else (let p' = p\<lparr>receivers := receivers p @ [(t, so)]\<rparr>
            in deliver_tracks (p'\<lparr>events := events p' @ [TrackEvent (track_event_for p' t so)]\<rparr>) ms))"

text \<open>
  Applying a remote offer while an own offer is outstanding first rolls the own offer
  back (the implicit rollback of the current WebRTC specification): the pending local
  description is dropped and the state is stable again.
\<close>

definition pc_rollback :: "pc \<Rightarrow> pc" where
  "pc_rollback p = p\<lparr>signaling := Stable, local_desc := current_local p\<rparr>"

definition pc_setRemoteDescription :: "pc \<Rightarrow> sdesc \<Rightarrow> pc_error + pc" where
  "pc_setRemoteDescription p d =
     (case sd_type d of
       Offer \<Rightarrow>
         (let q = (if signaling p = HaveLocalOffer then pc_rollback p else p)
          in Inr (deliver_tracks (q\<lparr>signaling := HaveRemoteOffer, remote_desc := Some d\<rparr>) (sd_tracks d)))
     | Answer \<Rightarrow>
         (if signaling p = HaveLocalOffer
          then Inr (pc_update_nego
                 (deliver_tracks (p\<lparr>signaling := Stable, remote_desc := Some d,
                    current_local := local_desc p\<rparr>) (sd_tracks d)))
          else Inl InvalidStateError))"

text \<open>The page's event loop takes the engine's tasks one at a time, oldest first.\<close>

definition pc_take_event :: "pc \<Rightarrow> (pc_event \<times> pc) option" where
  "pc_take_event p = (case events p of [] \<Rightarrow> None | e # es \<Rightarrow> Some (e, p\<lparr>events := es\<rparr>))"

subsection \<open>Well-formedness of the engine state\<close>

text \<open>
  A sender per track (the engine refuses a second \<open>addTrack\<close> of the same track),
  a remote description exactly when one was applied in \<open>have-remote-offer\<close>, and
  remote tracks surfaced at most once.
\<close>

definition pc_wf :: "pc \<Rightarrow> bool" where
  "pc_wf p \<longleftrightarrow> distinct (map snd_track (senders p))
     \<and> distinct (map fst (receivers p))
     \<and> (signaling p = HaveRemoteOffer \<longrightarrow> remote_desc p \<noteq> None)"

subsection \<open>Lemmas on the engine operations\<close>

named_theorems pc_ops \<open>unfolding rules of the engine operations\<close>

declare pc_addTrack_def [pc_ops] pc_createOffer_def [pc_ops] pc_createAnswer_def [pc_ops]
  pc_setLocalDescription_def [pc_ops] pc_setRemoteDescription_def [pc_ops]
  pc_update_nego_def [pc_ops] pc_take_event_def [pc_ops] nego_task_def [pc_ops]

lemma deliver_tracks_fields [simp]:
  "signaling (deliver_tracks p ms) = signaling p"
  "senders (deliver_tracks p ms) = senders p"
  "local_desc (deliver_tracks p ms) = local_desc p"
  "current_local (deliver_tracks p ms) = current_local p"
  "remote_desc (deliver_tracks p ms) = remote_desc p"
  "offer_count (deliver_tracks p ms) = offer_count p"
  "nego_flag (deliver_tracks p ms) = nego_flag p"
  "ice_servers (deliver_tracks p ms) = ice_servers p"
  by (induction p ms rule: deliver_tracks.induct) (simp_all add: Let_def)

lemma deliver_tracks_receivers_set:
  "set (map fst (receivers (deliver_tracks p ms))) = set (map fst (receivers p)) \<union> fst ` set ms"
  by (induction p ms rule: deliver_tracks.induct) (auto simp: Let_def)

lemma deliver_tracks_distinct:
  "distinct (map fst (receivers p)) \<Longrightarrow> distinct (map fst (receivers (deliver_tracks p ms)))"
  by (induction p ms rule: deliver_tracks.induct) (auto simp: Let_def)

lemma deliver_tracks_events_prefix:
  "\<exists>new. events (deliver_tracks p ms) = events p @ new"
proof (induction p ms rule: deliver_tracks.induct)
  case (1 p)
  then show ?case by simp
next
  case (2 p t so ms)
  then show ?case by (fastforce simp: Let_def)
qed

lemma pc_update_nego_fields [simp]:
  "signaling (pc_update_nego p) = signaling p"
  "senders (pc_update_nego p) = senders p"
  "receivers (pc_update_nego p) = receivers p"
  "local_desc (pc_update_nego p) = local_desc p"
  "current_local (pc_update_nego p) = current_local p"
  "remote_desc (pc_update_nego p) = remote_desc p"
  "offer_count (pc_update_nego p) = offer_count p"
  "nego_flag (pc_update_nego p) = nego_flag p"
  "ice_servers (pc_update_nego p) = ice_servers p"
  by (simp_all add: pc_update_nego_def)

lemma pc_wf_init: "pc_wf (pc_init servers)"
  by (simp add: pc_wf_def pc_init_def)

lemma pc_addTrack_wf: "pc_wf p \<Longrightarrow> pc_addTrack p t s = Inr p' \<Longrightarrow> pc_wf p'"
  by (auto simp: pc_addTrack_def pc_wf_def split: if_splits)

lemma pc_createOffer_wf: "pc_wf p \<Longrightarrow> pc_wf (fst (pc_createOffer p))"
  by (simp add: pc_createOffer_def pc_wf_def)

lemma pc_setLocalDescription_wf:
  "pc_wf p \<Longrightarrow> pc_setLocalDescription p d = Inr p' \<Longrightarrow> pc_wf p'"
  by (auto simp: pc_setLocalDescription_def pc_wf_def split: sdp_type.splits if_splits)

lemma pc_setRemoteDescription_wf:
  "pc_wf p \<Longrightarrow> pc_setRemoteDescription p d = Inr p' \<Longrightarrow> pc_wf p'"
  by (auto simp: pc_setRemoteDescription_def pc_rollback_def pc_wf_def deliver_tracks_distinct
      Let_def split: sdp_type.splits if_splits)

lemma nego_task_wf: "pc_wf p \<Longrightarrow> pc_wf (fst (nego_task p))"
  by (simp add: nego_task_def pc_wf_def)

lemma pc_take_event_wf: "pc_wf p \<Longrightarrow> pc_take_event p = Some (e, p') \<Longrightarrow> pc_wf p'"
  by (auto simp: pc_take_event_def pc_wf_def split: list.splits)

lemma pc_createAnswer_Inr:
  "pc_createAnswer p = Inr a \<Longrightarrow>
     signaling p = HaveRemoteOffer \<and> sd_type a = Answer \<and> sd_tracks a = media_of p
     \<and> (\<exists>r. remote_desc p = Some r \<and> sd_serial a = sd_serial r)"
  by (auto simp: pc_createAnswer_def split: if_splits option.splits)

lemma pc_createAnswer_wf:
  "pc_wf p \<Longrightarrow> signaling p = HaveRemoteOffer \<Longrightarrow> \<exists>a. pc_createAnswer p = Inr a"
  by (auto simp: pc_createAnswer_def pc_wf_def)

lemma pc_addTrack_Inl:
  "pc_addTrack p t s = Inl e \<longleftrightarrow> e = InvalidAccessError \<and> Some t \<in> set (map snd_track (senders p))"
  by (auto simp: pc_addTrack_def)

lemma sender_tracks_addTrack:
  "pc_addTrack p t s = Inr p' \<Longrightarrow> sender_tracks p' = sender_tracks p @ [t]"
  by (auto simp: pc_addTrack_def sender_tracks_def map_filter_def split: if_splits)

lemma sender_tracks_set: "set (sender_tracks p) = {t. Some t \<in> set (map snd_track (senders p))}"
  by (force simp: sender_tracks_def mem_map_filter)

end
