(* ===== verification/PeerService.thy ===== *)
theory PeerService
  imports PeerConnection
begin

text \<open>
  \<open>src/client/src/service/peer.js\<close>: the class \<open>PeerService\<close>, whose one field
  \<open>peer\<close> holds the \<open>RTCPeerConnection\<close> (modelled as \<open>pc option\<close>: the methods
  guard on \<open>if(this.peer)\<close>), and the module's single instance. Every asynchronous
  method returns the service after it ran and the outcome of its promise: \<open>Inl\<close> a
  rejection (the awaited engine call that threw; the engine calls before it keep their
  effect, as in the source) or \<open>Inr\<close> the resolved value, \<open>None\<close> for \<open>undefined\<close>.
  \<open>new RTCSessionDescription(x)\<close> is the identity on a description and throws
  \<open>TypeError\<close> on \<open>undefined\<close>; the \<open>instanceof\<close> test that skips it changes nothing.
\<close>

record peer_service =
  peer :: "pc option"

type_synonym 'a ps_result = "peer_service \<times> (pc_error + 'a)"

definition stun_servers :: "string list" where
  "stun_servers = [''stun:stun.l.google.com:19302'', ''stun:global.stun.twilio.com:3478'']"

text \<open>The constructor: \<open>this.peer\<close> is unset on a fresh object, so a connection is made.\<close>

definition PeerService_ctor :: "pc option \<Rightarrow> peer_service" where
  "PeerService_ctor p0 =
     (case p0 of None \<Rightarrow> \<lparr>peer = Some (pc_init stun_servers)\<rparr> | Some p \<Rightarrow> \<lparr>peer = Some p\<rparr>)"

definition peer_module :: peer_service where
  "peer_module = PeerService_ctor None"

definition to_session_description :: "sdesc option \<Rightarrow> pc_error + sdesc" where
  "to_session_description d = (case d of None \<Rightarrow> Inl TypeError | Some x \<Rightarrow> Inr x)"

text \<open>
  \<open>addLocalTracks\<close>: the ids of the tracks already sent are read once, before the
  loop; each track of the stream not among them is added, an exception of
  \<open>addTrack\<close> being caught and logged.
\<close>

definition add_local_track_step :: "track_id list \<Rightarrow> stream_id \<Rightarrow> pc \<Rightarrow> track_id \<Rightarrow> pc_error + pc" where
  "add_local_track_step existing s p t =
     (if t \<notin> set existing then pc_addTrack p t s else Inr p)"

definition addLocalTracks :: "peer_service \<Rightarrow> mstream option \<Rightarrow> peer_service" where
  "addLocalTracks ps stream =
     (case peer ps of
       None \<Rightarrow> ps
     | Some p \<Rightarrow>
         (case stream of
           None \<Rightarrow> ps
         | Some st \<Rightarrow>
             (let existing = List.map_filter snd_track (senders p)
              in ps\<lparr>peer := Some (try_each (add_local_track_step existing (ms_id st)) p (ms_tracks st))\<rparr>)))"

definition getAnswer :: "peer_service \<Rightarrow> sdesc option \<Rightarrow> sdesc option ps_result" where
  "getAnswer ps offer =
     (case peer ps of
       None \<Rightarrow> (ps, Inr None)
     | Some p \<Rightarrow>
         (case to_session_description offer of
           Inl e \<Rightarrow> (ps, Inl e)
         | Inr d \<Rightarrow>
             (case pc_setRemoteDescription p d of
               Inl e \<Rightarrow> (ps, Inl e)
             | Inr p1 \<Rightarrow>
                 (case pc_createAnswer p1 of
                   Inl e \<Rightarrow> (ps\<lparr>peer := Some p1\<rparr>, Inl e)
                 | Inr ans \<Rightarrow>
                     (case pc_setLocalDescription p1 ans of
                       Inl e \<Rightarrow> (ps\<lparr>peer := Some p1\<rparr>, Inl e)
                     | Inr p2 \<Rightarrow> (ps\<lparr>peer := Some p2\<rparr>, Inr (Some ans)))))))"

definition setRemoteDescription :: "peer_service \<Rightarrow> sdesc option \<Rightarrow> unit ps_result" where
  "setRemoteDescription ps desc =
     (case peer ps of
       None \<Rightarrow> (ps, Inr ())
     | Some p \<Rightarrow>
         (case to_session_description desc of
           Inl e \<Rightarrow> (ps, Inl e)
         | Inr d \<Rightarrow>
             (case pc_setRemoteDescription p d of
               Inl e \<Rightarrow> (ps, Inl e)
             | Inr p1 \<Rightarrow> (ps\<lparr>peer := Some p1\<rparr>, Inr ()))))"

definition setLocalDescription :: "peer_service \<Rightarrow> sdesc option \<Rightarrow> unit ps_result" where
  "setLocalDescription ps desc =
     (case peer ps of
       None \<Rightarrow> (ps, Inr ())
     | Some p \<Rightarrow>
         (case to_session_description desc of
           Inl e \<Rightarrow> (ps, Inl e)
         | Inr d \<Rightarrow>
             (case pc_setLocalDescription p d of
               Inl e \<Rightarrow> (ps, Inl e)
             | Inr p1 \<Rightarrow> (ps\<lparr>peer := Some p1\<rparr>, Inr ()))))"

definition getOffer :: "peer_service \<Rightarrow> sdesc option ps_result" where
  "getOffer ps =
     (case peer ps of
       None \<Rightarrow> (ps, Inr None)
     | Some p \<Rightarrow>
         (let (p1, offer) = pc_createOffer p
          in case pc_setLocalDescription p1 offer of
               Inl e \<Rightarrow> (ps\<lparr>peer := Some p1\<rparr>, Inl e)
             | Inr p2 \<Rightarrow> (ps\<lparr>peer := Some p2\<rparr>, Inr (Some offer))))"

text \<open>The service is well formed when it holds a connection and the connection is.\<close>

definition ps_wf :: "peer_service \<Rightarrow> bool" where
  "ps_wf ps \<longleftrightarrow> (\<exists>p. peer ps = Some p \<and> pc_wf p)"

subsection \<open>Behaviour of the methods\<close>

lemma distinct_map_filter_snd_track:
  "distinct (map snd_track ss) \<Longrightarrow> distinct (List.map_filter snd_track ss)"
proof (induction ss)
  case Nil
  then show ?case by (simp add: map_filter_simps)
next
  case (Cons s ss)
  then show ?case by (auto simp: map_filter_simps mem_map_filter image_iff split: option.splits)
qed

lemma pc_wf_sender_tracks_distinct: "pc_wf p \<Longrightarrow> distinct (sender_tracks p)"
  by (simp add: pc_wf_def sender_tracks_def distinct_map_filter_snd_track)

lemma peer_service_ctor_wf: "ps_wf peer_module"
  by (simp add: ps_wf_def peer_module_def PeerService_ctor_def pc_wf_init)

text \<open>
  One step of the \<open>addLocalTracks\<close> loop: a track is sent afterwards, whether it
  was skipped, refused by the engine or added; the tracks sent before stay, in order.
\<close>

lemma add_local_track_step_result:
  assumes "set existing \<subseteq> set (sender_tracks p)"
    and "p1 = (case add_local_track_step existing s p t of Inl _ \<Rightarrow> p | Inr p' \<Rightarrow> p')"
  shows "set (sender_tracks p1) = insert t (set (sender_tracks p))
     \<and> (\<exists>new. sender_tracks p1 = sender_tracks p @ new)"
proof (cases "t \<in> set existing")
  case True
  then show ?thesis using assms by (auto simp: add_local_track_step_def)
next
  case notex: False
  show ?thesis
  proof (cases "pc_addTrack p t s")
    case (Inl e)
    then have "t \<in> set (sender_tracks p)" by (simp add: pc_addTrack_Inl sender_tracks_set)
    then show ?thesis using assms notex Inl by (auto simp: add_local_track_step_def)
  next
    case (Inr p')
    then show ?thesis using assms notex by (auto simp: add_local_track_step_def sender_tracks_addTrack)
  qed
qed

lemma add_local_track_loop:
  assumes "set existing \<subseteq> set (sender_tracks p)"
  shows "set (sender_tracks (try_each (add_local_track_step existing s) p ts))
           = set (sender_tracks p) \<union> set ts
     \<and> (\<exists>new. sender_tracks (try_each (add_local_track_step existing s) p ts) = sender_tracks p @ new)"
  using assms
proof (induction ts arbitrary: p)
  case Nil
  then show ?case by simp
next
  case (Cons t ts)
  define p1 where "p1 = (case add_local_track_step existing s p t of Inl _ \<Rightarrow> p | Inr p' \<Rightarrow> p')"
  have s1: "set (sender_tracks p1) = insert t (set (sender_tracks p))"
    and s2: "\<exists>new. sender_tracks p1 = sender_tracks p @ new"
    using add_local_track_step_result [OF Cons.prems p1_def] by blast+
  then have "set existing \<subseteq> set (sender_tracks p1)" using Cons.prems by blast
  note IH = Cons.IH [OF this]
  have eq: "try_each (add_local_track_step existing s) p (t # ts)
            = try_each (add_local_track_step existing s) p1 ts"
    by (simp add: p1_def)
  obtain n1 where n1: "sender_tracks p1 = sender_tracks p @ n1" using s2 by blast
  obtain n2 where n2: "sender_tracks (try_each (add_local_track_step existing s) p1 ts)
      = sender_tracks p1 @ n2" using IH by blast
  have st: "set (sender_tracks (try_each (add_local_track_step existing s) p1 ts))
      = set (sender_tracks p) \<union> set (t # ts)" using IH s1 by auto
  show ?case unfolding eq using st n1 n2 by (intro conjI exI [of _ "n1 @ n2"]) simp_all
qed

lemma add_local_track_step_wf:
  "pc_wf p \<Longrightarrow> add_local_track_step existing s p t = Inr p' \<Longrightarrow> pc_wf p'"
  by (auto simp: add_local_track_step_def intro: pc_addTrack_wf split: if_splits)

lemma addLocalTracks_wf: "ps_wf ps \<Longrightarrow> ps_wf (addLocalTracks ps stream)"
  by (auto simp: ps_wf_def addLocalTracks_def Let_def add_local_track_step_wf
      intro: try_each_invariant split: option.splits)

lemma ps_wf_set_peer: "pc_wf p \<Longrightarrow> ps_wf (ps\<lparr>peer := Some p\<rparr>)"
  by (simp add: ps_wf_def)

lemma getOffer_wf:
  assumes "ps_wf ps"
  shows "ps_wf (fst (getOffer ps))"
proof -
  obtain p where p: "peer ps = Some p" "pc_wf p" using assms by (auto simp: ps_wf_def)
  obtain p1 ofr where c: "pc_createOffer p = (p1, ofr)" by (cases "pc_createOffer p")
  have w1: "pc_wf p1" using pc_createOffer_wf [OF p(2)] c by simp
  show ?thesis
  proof (cases "pc_setLocalDescription p1 ofr")
    case (Inl e)
    then show ?thesis using p c w1 by (simp add: getOffer_def ps_wf_set_peer)
  next
    case (Inr p2)
    then have "pc_wf p2" using w1 by (rule pc_setLocalDescription_wf [rotated])
    then show ?thesis using p c Inr by (simp add: getOffer_def ps_wf_set_peer)
  qed
qed

lemma getAnswer_wf:
  assumes "ps_wf ps"
  shows "ps_wf (fst (getAnswer ps offer))"
proof -
  obtain p where p: "peer ps = Some p" "pc_wf p" using assms by (auto simp: ps_wf_def)
  show ?thesis
  proof (cases "to_session_description offer")
    case (Inl e)
    then show ?thesis using p assms by (simp add: getAnswer_def)
  next
    case (Inr d)
    show ?thesis
    proof (cases "pc_setRemoteDescription p d")
      case (Inl e)
      then show ?thesis using p assms \<open>to_session_description offer = Inr d\<close> by (simp add: getAnswer_def)
    next
      case (Inr p1)
      have w1: "pc_wf p1" using pc_setRemoteDescription_wf [OF p(2) Inr] .
      have "ps_wf (ps\<lparr>peer := Some p2\<rparr>)" if "pc_setLocalDescription p1 a = Inr p2" for a p2
        using pc_setLocalDescription_wf [OF w1 that] by (rule ps_wf_set_peer)
      then show ?thesis using p w1 Inr \<open>to_session_description offer = Inr d\<close>
        by (auto simp: getAnswer_def ps_wf_set_peer split: sum.split)
    qed
  qed
qed

lemma setRemoteDescription_wf: "ps_wf ps \<Longrightarrow> ps_wf (fst (setRemoteDescription ps d))"
  by (auto simp: ps_wf_def setRemoteDescription_def dest: pc_setRemoteDescription_wf split: sum.split)

lemma setLocalDescription_wf: "ps_wf ps \<Longrightarrow> ps_wf (fst (setLocalDescription ps d))"
  by (auto simp: ps_wf_def setLocalDescription_def dest: pc_setLocalDescription_wf split: sum.split)

lemmas ps_wf_preserved = addLocalTracks_wf getOffer_wf getAnswer_wf
  setRemoteDescription_wf setLocalDescription_wf

subsection \<open>Properties of the service\<close>

lemma sender_tracks_map_filter: "List.map_filter snd_track (senders p) = sender_tracks p"
  by (simp add: sender_tracks_def)

text \<open>
  C1. \<open>addLocalTracks\<close> attaches every track of the stream exactly once: afterwards
  the tracks sent are the old ones, in their order, followed by the stream's new ones,
  with no track sent twice, and the connection stays well formed.
\<close>

theorem addLocalTracks_dedup:
  assumes "peer ps = Some p" and "pc_wf p"
  shows "\<exists>p'. peer (addLocalTracks ps (Some st)) = Some p' \<and> pc_wf p'
     \<and> distinct (sender_tracks p')
     \<and> set (sender_tracks p') = set (sender_tracks p) \<union> set (ms_tracks st)
     \<and> (\<exists>new. sender_tracks p' = sender_tracks p @ new)"
proof -
  let ?p' = "try_each (add_local_track_step (sender_tracks p) (ms_id st)) p (ms_tracks st)"
  have eq: "peer (addLocalTracks ps (Some st)) = Some ?p'"
    using assms(1) by (simp add: addLocalTracks_def sender_tracks_map_filter)
  have wf: "pc_wf ?p'"
    using assms(2) by (rule try_each_invariant) (rule add_local_track_step_wf)
  have "set (sender_tracks ?p') = set (sender_tracks p) \<union> set (ms_tracks st)
     \<and> (\<exists>new. sender_tracks ?p' = sender_tracks p @ new)"
    by (rule add_local_track_loop) simp
  with eq wf show ?thesis by (blast intro: pc_wf_sender_tracks_distinct)
qed

theorem addLocalTracks_dedup_witness:
  "peer peer_module = Some (pc_init stun_servers) \<and> pc_wf (pc_init stun_servers)
   \<and> (\<exists>p'. peer (addLocalTracks peer_module (Some \<lparr>ms_id = 1, ms_tracks = [2, 3, 2]\<rparr>)) = Some p'
       \<and> pc_wf p' \<and> distinct (sender_tracks p')
       \<and> set (sender_tracks p') = set (sender_tracks (pc_init stun_servers)) \<union> set [2, 3, 2]
       \<and> (\<exists>new. sender_tracks p' = sender_tracks (pc_init stun_servers) @ new))"
proof -
  have h: "peer peer_module = Some (pc_init stun_servers)"
    by (simp add: peer_module_def PeerService_ctor_def)
  show ?thesis
    using h pc_wf_init addLocalTracks_dedup [OF h pc_wf_init, of "\<lparr>ms_id = 1, ms_tracks = [2, 3, 2]\<rparr>"]
    by simp
qed

lemma media_of_simps [simp]:
  "media_of (p\<lparr>signaling := x\<rparr>) = media_of p"
  "media_of (p\<lparr>remote_desc := r\<rparr>) = media_of p"
  "media_of (p\<lparr>local_desc := l\<rparr>) = media_of p"
  "media_of (p\<lparr>offer_count := n\<rparr>) = media_of p"
  "media_of (deliver_tracks p ms) = media_of p"
  "media_of (pc_update_nego p) = media_of p"
  "media_of (p\<lparr>current_local := l\<rparr>) = media_of p"
  "media_of (p\<lparr>nego_flag := b\<rparr>) = media_of p"
  "media_of (p\<lparr>events := es\<rparr>) = media_of p"
  "media_of (pc_rollback p) = media_of p"
  by (simp_all add: media_of_def pc_rollback_def)

lemma getOffer_eq:
  assumes "peer ps = Some p" and "signaling p \<noteq> HaveRemoteOffer"
  shows "getOffer ps =
    (ps\<lparr>peer := Some (p\<lparr>offer_count := Suc (offer_count p), signaling := HaveLocalOffer,
        local_desc := Some \<lparr>sd_type = Offer, sd_serial = Suc (offer_count p), sd_tracks = media_of p\<rparr>\<rparr>)\<rparr>,
     Inr (Some \<lparr>sd_type = Offer, sd_serial = Suc (offer_count p), sd_tracks = media_of p\<rparr>))"
  using assms
  by (cases "signaling p") (simp_all add: getOffer_def pc_createOffer_def pc_setLocalDescription_def)

lemma getAnswer_eq:
  assumes "peer ps = Some p" and "signaling p \<noteq> HaveLocalOffer" and "sd_type d = Offer"
  shows "getAnswer ps (Some d) =
    (ps\<lparr>peer := Some (pc_update_nego
        ((deliver_tracks (p\<lparr>signaling := HaveRemoteOffer, remote_desc := Some d\<rparr>) (sd_tracks d))
          \<lparr>signaling := Stable,
           local_desc := Some \<lparr>sd_type = Answer, sd_serial = sd_serial d, sd_tracks = media_of p\<rparr>,
           current_local := Some \<lparr>sd_type = Answer, sd_serial = sd_serial d, sd_tracks = media_of p\<rparr>\<rparr>))\<rparr>,
     Inr (Some \<lparr>sd_type = Answer, sd_serial = sd_serial d, sd_tracks = media_of p\<rparr>))"
proof -
  have pre: "signaling p = Stable \<or> signaling p = HaveRemoteOffer"
    using assms(2) by (cases "signaling p") simp_all
  then show ?thesis
    using assms(1,3)
    by (auto simp: getAnswer_def to_session_description_def pc_setRemoteDescription_def
        pc_createAnswer_def pc_setLocalDescription_def Let_def)
qed

text \<open>
  C2. \<open>getOffer\<close> outside \<open>have-remote-offer\<close> resolves to a fresh offer (the
  next serial, listing the tracks sent) that is now the local description; the state
  becomes \<open>have-local-offer\<close>, and the remote description and senders are kept.
\<close>

theorem getOffer_offers:
  assumes "peer ps = Some p" and "signaling p \<noteq> HaveRemoteOffer"
  shows "\<exists>p' ofr. getOffer ps = (ps\<lparr>peer := Some p'\<rparr>, Inr (Some ofr))
     \<and> sd_type ofr = Offer \<and> sd_serial ofr = Suc (offer_count p) \<and> sd_tracks ofr = media_of p
     \<and> signaling p' = HaveLocalOffer \<and> local_desc p' = Some ofr
     \<and> offer_count p' = Suc (offer_count p)
     \<and> remote_desc p' = remote_desc p \<and> senders p' = senders p"
proof -
  let ?o = "\<lparr>sd_type = Offer, sd_serial = Suc (offer_count p), sd_tracks = media_of p\<rparr>"
  let ?p' = "p\<lparr>offer_count := Suc (offer_count p), signaling := HaveLocalOffer, local_desc := Some ?o\<rparr>"
  show ?thesis using getOffer_eq [OF assms] by (intro exI [of _ ?p'] exI [of _ ?o]) simp
qed

theorem getOffer_offers_witness:
  "peer peer_module = Some (pc_init stun_servers) \<and> signaling (pc_init stun_servers) \<noteq> HaveRemoteOffer
   \<and> (\<exists>p' ofr. getOffer peer_module = (peer_module\<lparr>peer := Some p'\<rparr>, Inr (Some ofr))
     \<and> sd_type ofr = Offer \<and> sd_serial ofr = Suc (offer_count (pc_init stun_servers))
     \<and> sd_tracks ofr = media_of (pc_init stun_servers)
     \<and> signaling p' = HaveLocalOffer \<and> local_desc p' = Some ofr
     \<and> offer_count p' = Suc (offer_count (pc_init stun_servers))
     \<and> remote_desc p' = remote_desc (pc_init stun_servers) \<and> senders p' = senders (pc_init stun_servers))"
proof -
  have h1: "peer peer_module = Some (pc_init stun_servers)"
    by (simp add: peer_module_def PeerService_ctor_def)
  have h2: "signaling (pc_init stun_servers) \<noteq> HaveRemoteOffer"
    by (simp add: pc_init_def)
  show ?thesis using h1 h2 getOffer_offers [OF h1 h2] by blast
qed

text \<open>
  \<open>getOffer\<close> in \<open>have-remote-offer\<close> (an offer of the peer is being answered)
  rejects with \<open>InvalidStateError\<close>: the offer is created (the serial advances) but
  \<open>setLocalDescription\<close> refuses it, and the signalling state is unchanged. No tab
  is ever in this state between events (\<open>pc_settled\<close>), so this path is not taken.
\<close>

lemma getOffer_rejected_in_have_remote_offer:
  "peer ps = Some p \<Longrightarrow> signaling p = HaveRemoteOffer \<Longrightarrow>
   getOffer ps = (ps\<lparr>peer := Some (p\<lparr>offer_count := Suc (offer_count p)\<rparr>)\<rparr>, Inl InvalidStateError)"
  by (simp add: getOffer_def pc_createOffer_def pc_setLocalDescription_def)

text \<open>
  C4. \<open>getAnswer\<close> on an offer, outside \<open>have-local-offer\<close>, applies the offer as
  remote description and resolves to an answer to that very offer (same serial, listing
  the tracks sent), which becomes the local description; the state returns to stable.
\<close>

theorem getAnswer_answers:
  assumes "peer ps = Some p" and "signaling p \<noteq> HaveLocalOffer" and "sd_type d = Offer"
  shows "\<exists>p' a. getAnswer ps (Some d) = (ps\<lparr>peer := Some p'\<rparr>, Inr (Some a))
     \<and> sd_type a = Answer \<and> sd_serial a = sd_serial d \<and> sd_tracks a = media_of p
     \<and> signaling p' = Stable \<and> remote_desc p' = Some d \<and> local_desc p' = Some a
     \<and> senders p' = senders p"
proof -
  let ?a = "\<lparr>sd_type = Answer, sd_serial = sd_serial d, sd_tracks = media_of p\<rparr>"
  let ?p' = "pc_update_nego ((deliver_tracks (p\<lparr>signaling := HaveRemoteOffer, remote_desc := Some d\<rparr>)
     (sd_tracks d))\<lparr>signaling := Stable, local_desc := Some ?a, current_local := Some ?a\<rparr>)"
  show ?thesis using getAnswer_eq [OF assms] by (intro exI [of _ ?p'] exI [of _ ?a]) simp
qed

theorem getAnswer_answers_witness:
  "peer peer_module = Some (pc_init stun_servers) \<and> signaling (pc_init stun_servers) \<noteq> HaveLocalOffer
   \<and> sd_type \<lparr>sd_type = Offer, sd_serial = 7, sd_tracks = [(5, Some 4)]\<rparr> = Offer
   \<and> (\<exists>p' a. getAnswer peer_module (Some \<lparr>sd_type = Offer, sd_serial = 7, sd_tracks = [(5, Some 4)]\<rparr>)
          = (peer_module\<lparr>peer := Some p'\<rparr>, Inr (Some a))
     \<and> sd_type a = Answer \<and> sd_serial a = 7 \<and> sd_tracks a = media_of (pc_init stun_servers)
     \<and> signaling p' = Stable \<and> remote_desc p' = Some \<lparr>sd_type = Offer, sd_serial = 7, sd_tracks = [(5, Some 4)]\<rparr>
     \<and> local_desc p' = Some a \<and> senders p' = senders (pc_init stun_servers))"
proof -
  have h1: "peer peer_module = Some (pc_init stun_servers)"
    by (simp add: peer_module_def PeerService_ctor_def)
  have h2: "signaling (pc_init stun_servers) \<noteq> HaveLocalOffer"
    by (simp add: pc_init_def)
  have h3: "sd_type \<lparr>sd_type = Offer, sd_serial = 7, sd_tracks = [(5, Some 4)]\<rparr> = Offer"
    by simp
  show ?thesis using h1 h2 h3 getAnswer_answers [OF h1 h2 h3] by simp
qed

text \<open>
  C5. Glare and the undefined offer. \<open>getAnswer\<close> on \<open>undefined\<close> rejects with
  \<open>TypeError\<close> and leaves the connection as it was. An offer arriving while an own offer
  is outstanding (\<open>have-local-offer\<close>) is answered all the same: the engine rolls the
  own offer back, so the connection ends stable with the incoming offer as remote and
  the answer as local description, and the own offer is abandoned.
\<close>

theorem getAnswer_undefined_and_glare:
  assumes "peer ps = Some p" and "signaling p = HaveLocalOffer" and "sd_type d = Offer"
  shows "getAnswer ps None = (ps, Inl TypeError)
     \<and> (\<exists>p' a. getAnswer ps (Some d) = (ps\<lparr>peer := Some p'\<rparr>, Inr (Some a))
          \<and> sd_type a = Answer \<and> sd_serial a = sd_serial d \<and> signaling p' = Stable
          \<and> remote_desc p' = Some d \<and> local_desc p' = Some a \<and> current_local p' = Some a
          \<and> offer_count p' = offer_count p)"
proof -
  define a where "a = \<lparr>sd_type = Answer, sd_serial = sd_serial d, sd_tracks = media_of p\<rparr>"
  define p' where "p' = pc_update_nego ((deliver_tracks ((pc_rollback p)\<lparr>signaling := HaveRemoteOffer,
      remote_desc := Some d\<rparr>) (sd_tracks d))\<lparr>signaling := Stable, local_desc := Some a, current_local := Some a\<rparr>)"
  have none: "getAnswer ps None = (ps, Inl TypeError)"
    using assms(1) by (simp add: getAnswer_def to_session_description_def)
  have "getAnswer ps (Some d) = (ps\<lparr>peer := Some p'\<rparr>, Inr (Some a))"
    using assms by (simp add: getAnswer_def to_session_description_def pc_setRemoteDescription_def
        pc_createAnswer_def pc_setLocalDescription_def pc_rollback_def Let_def p'_def a_def media_of_def)
  then show ?thesis
    using none by (intro conjI exI [of _ p'] exI [of _ a]) (simp_all add: p'_def a_def pc_rollback_def)
qed

theorem getAnswer_undefined_and_glare_witness:
  "peer \<lparr>peer = Some (pc_init stun_servers\<lparr>signaling := HaveLocalOffer\<rparr>)\<rparr>
      = Some (pc_init stun_servers\<lparr>signaling := HaveLocalOffer\<rparr>)
   \<and> signaling (pc_init stun_servers\<lparr>signaling := HaveLocalOffer\<rparr>) = HaveLocalOffer
   \<and> sd_type \<lparr>sd_type = Offer, sd_serial = 1, sd_tracks = []\<rparr> = Offer
   \<and> getAnswer \<lparr>peer = Some (pc_init stun_servers\<lparr>signaling := HaveLocalOffer\<rparr>)\<rparr> None
      = (\<lparr>peer = Some (pc_init stun_servers\<lparr>signaling := HaveLocalOffer\<rparr>)\<rparr>, Inl TypeError)
   \<and> (\<exists>p' a. getAnswer \<lparr>peer = Some (pc_init stun_servers\<lparr>signaling := HaveLocalOffer\<rparr>)\<rparr>
          (Some \<lparr>sd_type = Offer, sd_serial = 1, sd_tracks = []\<rparr>)
        = (\<lparr>peer = Some p'\<rparr>, Inr (Some a))
     \<and> sd_type a = Answer \<and> sd_serial a = 1 \<and> signaling p' = Stable
     \<and> remote_desc p' = Some \<lparr>sd_type = Offer, sd_serial = 1, sd_tracks = []\<rparr>
     \<and> local_desc p' = Some a \<and> current_local p' = Some a \<and> offer_count p' = 0)"
proof -
  let ?p = "pc_init stun_servers\<lparr>signaling := HaveLocalOffer\<rparr>"
  let ?d = "\<lparr>sd_type = Offer, sd_serial = 1, sd_tracks = []\<rparr>"
  have h1: "peer \<lparr>peer = Some ?p\<rparr> = Some ?p" by simp
  have h2: "signaling ?p = HaveLocalOffer" and h3: "sd_type ?d = Offer" by simp_all
  show ?thesis using h1 h2 h3 getAnswer_undefined_and_glare [OF h1 h2 h3] by (simp add: pc_init_def)
qed

text \<open>
  C6. \<open>setRemoteDescription\<close> applies any answer while an offer is outstanding,
  whatever offer the answer was made for: an answer to a superseded offer is not
  discarded but completes the negotiation (the state becomes stable).
\<close>

theorem setRemoteDescription_applies_any_answer:
  assumes "peer ps = Some p" and "signaling p = HaveLocalOffer" and "sd_type a = Answer"
  shows "\<exists>p'. setRemoteDescription ps (Some a) = (ps\<lparr>peer := Some p'\<rparr>, Inr ())
     \<and> signaling p' = Stable \<and> remote_desc p' = Some a \<and> local_desc p' = local_desc p"
proof -
  let ?p' = "pc_update_nego (deliver_tracks (p\<lparr>signaling := Stable, remote_desc := Some a,
     current_local := local_desc p\<rparr>) (sd_tracks a))"
  have "setRemoteDescription ps (Some a) = (ps\<lparr>peer := Some ?p'\<rparr>, Inr ())"
    using assms by (simp add: setRemoteDescription_def to_session_description_def pc_setRemoteDescription_def)
  then show ?thesis by (intro exI [of _ ?p']) simp
qed

text \<open>
  At a concrete input: two offers are made in a row (serials 1 and 2); an answer made
  for offer 1 is applied although the local description is offer 2.
\<close>

theorem stale_answer_witness:
  "(let ps2 = fst (getOffer (fst (getOffer peer_module)));
        a = \<lparr>sd_type = Answer, sd_serial = 1, sd_tracks = []\<rparr>
    in \<exists>p2. peer ps2 = Some p2 \<and> signaling p2 = HaveLocalOffer \<and> sd_type a = Answer
      \<and> map_option sd_serial (local_desc p2) = Some 2
      \<and> (\<exists>p'. setRemoteDescription ps2 (Some a) = (ps2\<lparr>peer := Some p'\<rparr>, Inr ())
            \<and> signaling p' = Stable \<and> remote_desc p' = Some a \<and> local_desc p' = local_desc p2))"
proof -
  let ?ps2 = "fst (getOffer (fst (getOffer peer_module)))"
  let ?p2 = "the (peer ?ps2)"
  let ?a = "\<lparr>sd_type = Answer, sd_serial = 1, sd_tracks = []\<rparr>"
  have h1: "peer ?ps2 = Some ?p2" and h2: "signaling ?p2 = HaveLocalOffer"
    and h4: "map_option sd_serial (local_desc ?p2) = Some 2"
    by (simp_all add: getOffer_def peer_module_def PeerService_ctor_def pc_init_def
        pc_createOffer_def pc_setLocalDescription_def)
  have h3: "sd_type ?a = Answer" by simp
  show ?thesis
    unfolding Let_def using h1 h2 h3 h4 setRemoteDescription_applies_any_answer [OF h1 h2 h3] by blast
qed

subsection \<open>The negotiation discipline of the service's callers\<close>

text \<open>
  A connection is settled when no remote offer is pending and every track it sends is
  in the description that counts: the pending own offer in \<open>have-local-offer\<close>, the
  last negotiated local description when stable. A settled connection never fires
  \<open>negotiationneeded\<close>.
\<close>

definition pc_settled :: "pc \<Rightarrow> bool" where
  "pc_settled p \<longleftrightarrow> signaling p \<noteq> HaveRemoteOffer
     \<and> set (media_of p) \<subseteq> set (desc_tracks (if signaling p = Stable then current_local p else local_desc p))"

definition ps_settled :: "peer_service \<Rightarrow> bool" where
  "ps_settled ps \<longleftrightarrow> (\<exists>p. peer ps = Some p \<and> pc_wf p \<and> pc_settled p)"

lemma pc_settled_nego_task: "pc_settled p \<Longrightarrow> snd (nego_task p) = False"
  by (auto simp: pc_settled_def nego_task_def needs_negotiation_def list_all_iff)

lemma pc_settled_nego_task_keeps: "pc_settled p \<Longrightarrow> pc_settled (fst (nego_task p))"
  by (auto simp: pc_settled_def nego_task_def)

lemma pc_settled_take_event: "pc_settled p \<Longrightarrow> pc_take_event p = Some (e, p') \<Longrightarrow> pc_settled p'"
  by (auto simp: pc_settled_def pc_take_event_def media_of_def split: list.splits)

lemma getOffer_settled:
  assumes "peer ps = Some p" and "signaling p \<noteq> HaveRemoteOffer"
  shows "\<exists>ps' ofr. getOffer ps = (ps', Inr (Some ofr)) \<and> sd_type ofr = Offer
     \<and> (\<exists>p'. peer ps' = Some p' \<and> pc_settled p' \<and> senders p' = senders p
          \<and> (pc_wf p \<longrightarrow> pc_wf p'))"
proof -
  define ofr where "ofr = \<lparr>sd_type = Offer, sd_serial = Suc (offer_count p), sd_tracks = media_of p\<rparr>"
  define p' where "p' = p\<lparr>offer_count := Suc (offer_count p), signaling := HaveLocalOffer, local_desc := Some ofr\<rparr>"
  have eq: "getOffer ps = (ps\<lparr>peer := Some p'\<rparr>, Inr (Some ofr))"
    using getOffer_eq [OF assms] by (simp add: p'_def ofr_def)
  have "pc_settled p'" by (simp add: pc_settled_def p'_def ofr_def desc_tracks_def)
  moreover have "pc_wf p \<longrightarrow> pc_wf p'" by (simp add: pc_wf_def p'_def)
  ultimately show ?thesis using eq by (intro exI [of _ "ps\<lparr>peer := Some p'\<rparr>"] exI [of _ ofr]) (simp add: ofr_def p'_def)
qed

lemma getAnswer_settled:
  assumes "peer ps = Some p" and "signaling p \<noteq> HaveRemoteOffer" and "sd_type d = Offer"
  shows "\<exists>ps' a. getAnswer ps (Some d) = (ps', Inr (Some a)) \<and> sd_type a = Answer
     \<and> (\<exists>p'. peer ps' = Some p' \<and> pc_settled p' \<and> senders p' = senders p
          \<and> (pc_wf p \<longrightarrow> pc_wf p'))"
proof -
  define a where "a = \<lparr>sd_type = Answer, sd_serial = sd_serial d, sd_tracks = media_of p\<rparr>"
  define q where "q = (if signaling p = HaveLocalOffer then pc_rollback p else p)"
  define p' where "p' = pc_update_nego ((deliver_tracks (q\<lparr>signaling := HaveRemoteOffer, remote_desc := Some d\<rparr>)
      (sd_tracks d))\<lparr>signaling := Stable, local_desc := Some a, current_local := Some a\<rparr>)"
  have eq: "getAnswer ps (Some d) = (ps\<lparr>peer := Some p'\<rparr>, Inr (Some a))"
    using assms by (simp add: getAnswer_def to_session_description_def pc_setRemoteDescription_def
        pc_createAnswer_def pc_setLocalDescription_def Let_def p'_def a_def q_def pc_rollback_def media_of_def)
  have mq: "media_of q = media_of p" and sq: "senders q = senders p"
    by (simp_all add: q_def pc_rollback_def media_of_def)
  have "pc_settled p'" using mq by (simp add: pc_settled_def p'_def a_def desc_tracks_def)
  moreover have "pc_wf p \<longrightarrow> pc_wf p'"
    by (auto simp: pc_wf_def p'_def q_def pc_rollback_def deliver_tracks_distinct)
  moreover have "senders p' = senders p" using sq by (simp add: p'_def)
  ultimately show ?thesis using eq by (intro exI [of _ "ps\<lparr>peer := Some p'\<rparr>"] exI [of _ a]) (simp add: a_def)
qed

lemma setRemoteDescription_answer_settled:
  assumes "peer ps = Some p" and "pc_settled p" and "sd_type d = Answer"
  shows "\<exists>p'. peer (fst (setRemoteDescription ps (Some d))) = Some p' \<and> pc_settled p'
     \<and> senders p' = senders p \<and> (pc_wf p \<longrightarrow> pc_wf p')"
proof (cases "signaling p = HaveLocalOffer")
  case True
  define p' where "p' = pc_update_nego (deliver_tracks (p\<lparr>signaling := Stable, remote_desc := Some d,
      current_local := local_desc p\<rparr>) (sd_tracks d))"
  have "fst (setRemoteDescription ps (Some d)) = ps\<lparr>peer := Some p'\<rparr>"
    using assms True by (simp add: setRemoteDescription_def to_session_description_def
        pc_setRemoteDescription_def p'_def)
  moreover have "pc_settled p'" using assms(2) True
    by (simp add: pc_settled_def p'_def media_of_def)
  moreover have "pc_wf p \<longrightarrow> pc_wf p'" by (simp add: pc_wf_def p'_def deliver_tracks_distinct)
  ultimately show ?thesis by (simp add: p'_def)
next
  case False
  then have "fst (setRemoteDescription ps (Some d)) = ps"
    using assms by (simp add: setRemoteDescription_def to_session_description_def pc_setRemoteDescription_def)
  then show ?thesis using assms by simp
qed

lemma getOffer_Inr_offer:
  "getOffer ps = (ps', Inr x) \<Longrightarrow> peer ps \<noteq> None \<Longrightarrow> \<exists>o'. x = Some o' \<and> sd_type o' = Offer"
  by (auto simp: getOffer_def pc_createOffer_def split: prod.splits sum.splits option.splits)

lemma getAnswer_Inr_answer:
  "getAnswer ps d = (ps', Inr x) \<Longrightarrow> peer ps \<noteq> None \<Longrightarrow> \<exists>a. x = Some a \<and> sd_type a = Answer"
  by (auto simp: getAnswer_def dest!: pc_createAnswer_Inr split: sum.splits option.splits)

end
