(* ===== verification/Socket.thy ===== *)
theory Socket
  imports PeerConnection
begin

text \<open>
  The socket.io events the client exchanges with the relay, as the client code names
  them: what it \<open>emit\<close>s (\<open>out_msg\<close>) and what it listens to with \<open>socket.on\<close>
  (\<open>in_msg\<close>), each with its payload. A \<open>to\<close> read from React state may be
  \<open>null\<close> (\<open>sid option\<close>), and a description returned by a \<open>PeerService\<close> method
  may be \<open>undefined\<close> (\<open>sdesc option\<close>).
\<close>

datatype out_msg =
    EmitRoomJoin email room_id                 \<comment> \<open>\<open>room:join {email, room}\<close>\<close>
  | EmitUserCall "sid option" "sdesc option"   \<comment> \<open>\<open>user:call {to, offer}\<close>\<close>
  | EmitCallAccepted sid "sdesc option"        \<comment> \<open>\<open>call:accepted {to, ans}\<close>\<close>
  | EmitNegoNeeded "sdesc option" "sid option" \<comment> \<open>\<open>peer:nego:needed {offer, to}\<close>\<close>
  | EmitNegoDone sid "sdesc option"            \<comment> \<open>\<open>peer:nego:done {to, ans}\<close>\<close>

datatype in_msg =
    OnRoomJoin email room_id                   \<comment> \<open>\<open>room:join {email, room}\<close>\<close>
  | OnUserJoined email sid                     \<comment> \<open>\<open>user:joined {email, id}\<close>\<close>
  | OnIncomingCall sid "sdesc option"          \<comment> \<open>\<open>incoming:call {from, offer}\<close>\<close>
  | OnCallAccepted sid "sdesc option"          \<comment> \<open>\<open>call:accepted {from, ans}\<close>\<close>
  | OnNegoNeeded sid "sdesc option"            \<comment> \<open>\<open>peer:nego:needed {from, offer}\<close>\<close>
  | OnNegoFinal sid "sdesc option"             \<comment> \<open>\<open>peer:nego:final {from, ans}\<close>\<close>
  | OnRoomFull room_id                         \<comment> \<open>the relay's \<open>RoomFull\<close> rejection\<close>

text \<open>
  Well-typed payloads: an offer where the event carries an offer, an answer where it
  carries an answer. The renegotiation events are the \<open>peer:nego:*\<close> ones.
\<close>

definition desc_is :: "sdp_type \<Rightarrow> sdesc option \<Rightarrow> bool" where
  "desc_is t d = (case d of None \<Rightarrow> False | Some x \<Rightarrow> sd_type x = t)"

fun out_ok :: "out_msg \<Rightarrow> bool" where
  "out_ok (EmitRoomJoin e r) = True"
| "out_ok (EmitUserCall to d) = desc_is Offer d"
| "out_ok (EmitCallAccepted to d) = desc_is Answer d"
| "out_ok (EmitNegoNeeded d to) = desc_is Offer d"
| "out_ok (EmitNegoDone to d) = desc_is Answer d"

fun in_ok :: "in_msg \<Rightarrow> bool" where
  "in_ok (OnIncomingCall f d) = desc_is Offer d"
| "in_ok (OnCallAccepted f d) = desc_is Answer d"
| "in_ok (OnNegoNeeded f d) = desc_is Offer d"
| "in_ok (OnNegoFinal f d) = desc_is Answer d"
| "in_ok _ = True"

fun reneg_out :: "out_msg \<Rightarrow> bool" where
  "reneg_out (EmitNegoNeeded d to) = True"
| "reneg_out (EmitNegoDone to d) = True"
| "reneg_out _ = False"

fun reneg_in :: "in_msg \<Rightarrow> bool" where
  "reneg_in (OnNegoNeeded f d) = True"
| "reneg_in (OnNegoFinal f d) = True"
| "reneg_in _ = False"

end
