(* ===== verification/Room.thy ===== *)
theory Room
  imports PeerService Socket
begin

text \<open>
  \<open>src/client/src/pages/Room.jsx\<close>: the Room page. Its React state
  (\<open>remoteSocketId\<close>, \<open>mystream\<close>, \<open>remoteStream\<close>) is the record \<open>room_state\<close>;
  a handler runs against \<open>room_ctx\<close>, that state together with the module's
  \<open>PeerService\<close> singleton and the browser's capture devices, and returns the new
  context, the socket events it emitted, and the rejection that ended it, if any (an
  \<open>async\<close> handler whose awaited call rejects stops there, its earlier effects kept).
  \<open>setMystream\<close> includes the cleanup of the effect at lines 160-164, which stops the
  tracks of the stream it replaces. Handlers run to completion one at a time (the
  page's event loop); the interleaving of their \<open>await\<close> points is not modelled.
\<close>

subsection \<open>The browser's capture devices\<close>

text \<open>
  \<open>navigator.mediaDevices.getUserMedia({audio, video})\<close>: granted, it starts a fresh
  audio and a fresh video track in a fresh stream; denied, it rejects. The counter
  \<open>next_id\<close> stands for the browser's generator of fresh ids.
\<close>

record media_devices =
  live :: "track_id list"
  next_id :: nat

datatype gum_outcome = Granted | Denied

datatype handler_error = NotAllowedError | PcError pc_error

definition getUserMedia :: "media_devices \<Rightarrow> gum_outcome \<Rightarrow> handler_error + media_devices \<times> mstream" where
  "getUserMedia md g =
     (case g of
       Denied \<Rightarrow> Inl NotAllowedError
     | Granted \<Rightarrow>
         (let n = next_id md; st = \<lparr>ms_id = n, ms_tracks = [Suc n, Suc (Suc n)]\<rparr>
          in Inr (md\<lparr>live := live md @ ms_tracks st, next_id := n + 3\<rparr>, st)))"

definition stop_stream :: "media_devices \<Rightarrow> mstream option \<Rightarrow> media_devices" where
  "stop_stream md s =
     (case s of None \<Rightarrow> md | Some st \<Rightarrow> md\<lparr>live := filter (\<lambda>t. t \<notin> set (ms_tracks st)) (live md)\<rparr>)"

subsection \<open>State and handlers\<close>

record room_state =
  remoteSocketId :: "sid option"
  mystream :: "mstream option"
  remoteStream :: "mstream option"

definition room_init :: room_state where
  "room_init = \<lparr>remoteSocketId = None, mystream = None, remoteStream = None\<rparr>"

record room_ctx =
  rs :: room_state
  svc :: peer_service
  devs :: media_devices

type_synonym handler_result = "room_ctx \<times> out_msg list \<times> handler_error option"

definition setMystream :: "room_ctx \<Rightarrow> mstream \<Rightarrow> room_ctx" where
  "setMystream c st =
     (let old = mystream (rs c)
      in c\<lparr>rs := (rs c)\<lparr>mystream := Some st\<rparr>,
           devs := (if old = Some st then devs c else stop_stream (devs c) old)\<rparr>)"

text \<open>Lines 26-32 (and 47-53): every track of the new stream is added, errors swallowed.\<close>

definition room_add_tracks :: "peer_service \<Rightarrow> mstream \<Rightarrow> peer_service" where
  "room_add_tracks ps st =
     (case peer ps of
       None \<Rightarrow> ps
     | Some p \<Rightarrow> ps\<lparr>peer := Some (try_each (\<lambda>p t. pc_addTrack p t (ms_id st)) p (ms_tracks st))\<rparr>)"

definition handleUserJoined :: "room_ctx \<Rightarrow> email \<Rightarrow> sid \<Rightarrow> room_ctx" where
  "handleUserJoined c email i = c\<lparr>rs := (rs c)\<lparr>remoteSocketId := Some i\<rparr>\<rparr>"

definition handleCallUser :: "room_ctx \<Rightarrow> gum_outcome \<Rightarrow> handler_result" where
  "handleCallUser c g =
     (case getUserMedia (devs c) g of
       Inl e \<Rightarrow> (c, [], Some e)
     | Inr (md, st) \<Rightarrow>
         (let c1 = setMystream (c\<lparr>devs := md\<rparr>) st;
              (ps, r) = getOffer (room_add_tracks (svc c1) st);
              c2 = c1\<lparr>svc := ps\<rparr>
          in case r of
               Inl e \<Rightarrow> (c2, [], Some (PcError e))
             | Inr offer \<Rightarrow> (c2, [EmitUserCall (remoteSocketId (rs c2)) offer], None)))"

definition handleIncomingCall :: "room_ctx \<Rightarrow> sid \<Rightarrow> sdesc option \<Rightarrow> gum_outcome \<Rightarrow> handler_result" where
  "handleIncomingCall c from offer g =
     (let c0 = c\<lparr>rs := (rs c)\<lparr>remoteSocketId := Some from\<rparr>\<rparr>
      in case getUserMedia (devs c0) g of
           Inl e \<Rightarrow> (c0, [], Some e)
         | Inr (md, st) \<Rightarrow>
             (let c1 = setMystream (c0\<lparr>devs := md\<rparr>) st;
                  (ps, r) = getAnswer (room_add_tracks (svc c1) st) offer;
                  c2 = c1\<lparr>svc := ps\<rparr>
              in case r of
                   Inl e \<Rightarrow> (c2, [], Some (PcError e))
                 | Inr ans \<Rightarrow> (c2, [EmitCallAccepted from ans], None)))"

definition handleCallAccepted :: "room_ctx \<Rightarrow> sdesc option \<Rightarrow> handler_result" where
  "handleCallAccepted c ans =
     (let (ps, r) = setRemoteDescription (svc c) ans in (c\<lparr>svc := ps\<rparr>, [], None))"

definition handleNegotiationNeeded :: "room_ctx \<Rightarrow> handler_result" where
  "handleNegotiationNeeded c =
     (let (ps, r) = getOffer (svc c); c1 = c\<lparr>svc := ps\<rparr>
      in case r of
           Inl e \<Rightarrow> (c1, [], Some (PcError e))
         | Inr offer \<Rightarrow> (c1, [EmitNegoNeeded offer (remoteSocketId (rs c))], None))"

definition handleNegotiationIncoming :: "room_ctx \<Rightarrow> sid \<Rightarrow> sdesc option \<Rightarrow> handler_result" where
  "handleNegotiationIncoming c from offer =
     (let (ps, r) = getAnswer (svc c) offer; c1 = c\<lparr>svc := ps\<rparr>
      in case r of
           Inl e \<Rightarrow> (c1, [], Some (PcError e))
         | Inr ans \<Rightarrow> (c1, [EmitNegoDone from ans], None))"

definition handleNegotiationFinal :: "room_ctx \<Rightarrow> sdesc option \<Rightarrow> handler_result" where
  "handleNegotiationFinal c ans =
     (let (ps, r) = setRemoteDescription (svc c) ans in (c\<lparr>svc := ps\<rparr>, [], None))"

text \<open>
  The \<open>MediaStream\<close> constructor (Media Capture and Streams, \<open>new MediaStream(tracks)\<close>):
  each track of the argument is added to the new stream's track set unless it is
  already there. The order in which \<open>getTracks()\<close> returns them is left to the
  browser; the model keeps the order of insertion, and the properties below speak only
  of the set of tracks and of their being distinct.
\<close>

fun add_to_track_set :: "track_id list \<Rightarrow> track_id list \<Rightarrow> track_id list" where
  "add_to_track_set acc [] = acc"
| "add_to_track_set acc (t # ts) = add_to_track_set (if t \<in> set acc then acc else acc @ [t]) ts"

definition new_MediaStream_tracks :: "track_id list \<Rightarrow> track_id list" where
  "new_MediaStream_tracks ts = add_to_track_set [] ts"

text \<open>
  The \<open>track\<close> listener (lines 94-103): the event's first stream replaces the remote
  stream; for an event without streams, line 100 builds a new \<open>MediaStream\<close> from the
  previous stream's tracks followed by the event's track.
\<close>

definition handleTrack :: "room_ctx \<Rightarrow> track_event \<Rightarrow> room_ctx" where
  "handleTrack c ev =
     (case ev_streams ev of
       s # _ \<Rightarrow> c\<lparr>rs := (rs c)\<lparr>remoteStream := Some s\<rparr>\<rparr>
     | [] \<Rightarrow>
         (let tracks = (case remoteStream (rs c) of None \<Rightarrow> [] | Some prev \<Rightarrow> ms_tracks prev);
              n = next_id (devs c)
          in c\<lparr>rs := (rs c)\<lparr>remoteStream := Some \<lparr>ms_id = n, ms_tracks = new_MediaStream_tracks (tracks @ [ev_track ev])\<rparr>\<rparr>,
               devs := (devs c)\<lparr>next_id := Suc n\<rparr>\<rparr>))"

text \<open>
  Mounting the page starts from the initial state (lines 7-9); unmounting runs the
  effects' cleanups: the listeners go (lines 106, 111-112, 122-128) and the tracks of
  \<open>mystream\<close> are stopped (lines 160-164).
\<close>

definition room_mount :: "room_ctx \<Rightarrow> room_ctx" where
  "room_mount c = c\<lparr>rs := room_init\<rparr>"

definition room_unmount :: "room_ctx \<Rightarrow> room_ctx" where
  "room_unmount c = c\<lparr>rs := room_init, devs := stop_stream (devs c) (mystream (rs c))\<rparr>"

declare handleUserJoined_def [handler_defs] handleCallUser_def [handler_defs]
  handleIncomingCall_def [handler_defs] handleCallAccepted_def [handler_defs]
  handleNegotiationNeeded_def [handler_defs] handleNegotiationIncoming_def [handler_defs]
  handleNegotiationFinal_def [handler_defs] handleTrack_def [handler_defs]

subsection \<open>Capture devices are released\<close>

definition stream_tracks :: "mstream option \<Rightarrow> track_id list" where
  "stream_tracks s = (case s of None \<Rightarrow> [] | Some st \<Rightarrow> ms_tracks st)"

text \<open>Every running capture track belongs to the page's own stream \<open>mystream\<close>.\<close>

definition devices_ok :: "room_ctx \<Rightarrow> bool" where
  "devices_ok c \<longleftrightarrow> set (live (devs c)) \<subseteq> set (stream_tracks (mystream (rs c)))"

lemma devices_ok_svc [simp]: "devices_ok (c\<lparr>svc := ps\<rparr>) = devices_ok c"
  by (simp add: devices_ok_def)

lemma devices_ok_remote [simp]:
  "devices_ok (c\<lparr>rs := (rs c)\<lparr>remoteSocketId := x\<rparr>\<rparr>) = devices_ok c"
  "devices_ok (c\<lparr>rs := (rs c)\<lparr>remoteStream := y\<rparr>\<rparr>) = devices_ok c"
  "devices_ok (c\<lparr>rs := (rs c)\<lparr>remoteStream := y\<rparr>, devs := (devs c)\<lparr>next_id := n\<rparr>\<rparr>) = devices_ok c"
  by (simp_all add: devices_ok_def)

lemma live_stop_stream:
  "set (live (stop_stream md s)) = set (live md) - set (stream_tracks s)"
  by (auto simp: stop_stream_def stream_tracks_def split: option.splits)

lemma setMystream_devices_ok:
  assumes "set (live (devs c)) \<subseteq> set (stream_tracks (mystream (rs c))) \<union> set (ms_tracks st)"
  shows "devices_ok (setMystream c st)"
proof (cases "mystream (rs c) = Some st")
  case True
  then show ?thesis using assms by (simp add: setMystream_def devices_ok_def stream_tracks_def)
next
  case False
  then show ?thesis
    using assms by (auto simp: setMystream_def devices_ok_def live_stop_stream Let_def stream_tracks_def)
qed

lemma getUserMedia_Inr:
  "getUserMedia md g = Inr (md', st) \<Longrightarrow>
     g = Granted \<and> live md' = live md @ ms_tracks st \<and> ms_id st = next_id md
     \<and> ms_tracks st = [Suc (next_id md), Suc (Suc (next_id md))] \<and> next_id md' = next_id md + 3"
  by (auto simp: getUserMedia_def Let_def split: gum_outcome.splits)

lemma getUserMedia_devices_ok:
  assumes "devices_ok c" and "getUserMedia (devs c) g = Inr (md, st)"
  shows "devices_ok (setMystream (c\<lparr>devs := md\<rparr>) st)"
  using assms getUserMedia_Inr [OF assms(2)]
  by (intro setMystream_devices_ok) (auto simp: devices_ok_def)

lemma handleCallUser_devices_ok:
  "devices_ok c \<Longrightarrow> devices_ok (fst (handleCallUser c g))"
  by (auto simp: handleCallUser_def Let_def getUserMedia_devices_ok split: sum.splits prod.splits)

lemma handleIncomingCall_devices_ok:
  assumes "devices_ok c"
  shows "devices_ok (fst (handleIncomingCall c from offer g))"
proof -
  let ?c0 = "c\<lparr>rs := (rs c)\<lparr>remoteSocketId := Some from\<rparr>\<rparr>"
  have "devices_ok ?c0" using assms by simp
  then show ?thesis
    by (auto simp: handleIncomingCall_def Let_def getUserMedia_devices_ok split: sum.splits prod.splits)
qed

lemma handleTrack_devices_ok: "devices_ok c \<Longrightarrow> devices_ok (handleTrack c ev)"
  by (simp add: handleTrack_def Let_def split: list.split)

lemma room_mount_devices_ok: "live (devs c) = [] \<Longrightarrow> devices_ok (room_mount c)"
  by (simp add: room_mount_def devices_ok_def)

subsection \<open>The Room's own track loop\<close>

lemma pc_addTrack_Inr_fields:
  "pc_addTrack p t s = Inr p' \<Longrightarrow> signaling p' = signaling p \<and> local_desc p' = local_desc p
     \<and> remote_desc p' = remote_desc p \<and> offer_count p' = offer_count p \<and> receivers p' = receivers p"
  by (auto simp: pc_addTrack_def split: if_splits)

lemma raw_track_loop:
  "set (sender_tracks (try_each (\<lambda>p t. pc_addTrack p t s) p ts)) = set (sender_tracks p) \<union> set ts"
proof (induction ts arbitrary: p)
  case Nil
  then show ?case by simp
next
  case (Cons t ts)
  have "set (sender_tracks (case pc_addTrack p t s of Inl _ \<Rightarrow> p | Inr p' \<Rightarrow> p'))
      = insert t (set (sender_tracks p))"
  proof (cases "pc_addTrack p t s")
    case (Inl e)
    then have "t \<in> set (sender_tracks p)" by (simp add: pc_addTrack_Inl sender_tracks_set)
    with Inl show ?thesis by auto
  next
    case (Inr p')
    then show ?thesis by (simp add: sender_tracks_addTrack)
  qed
  then show ?case using Cons.IH by simp
qed

lemma room_add_tracks_result:
  assumes "peer ps = Some p"
  shows "\<exists>p'. peer (room_add_tracks ps st) = Some p' \<and> signaling p' = signaling p
     \<and> local_desc p' = local_desc p \<and> remote_desc p' = remote_desc p
     \<and> offer_count p' = offer_count p \<and> receivers p' = receivers p
     \<and> set (sender_tracks p') = set (sender_tracks p) \<union> set (ms_tracks st)
     \<and> (pc_wf p \<longrightarrow> pc_wf p')"
proof -
  let ?f = "\<lambda>p t. pc_addTrack p t (ms_id st)"
  let ?p' = "try_each ?f p (ms_tracks st)"
  have fields: "signaling ?p' = signaling p \<and> local_desc ?p' = local_desc p
     \<and> remote_desc ?p' = remote_desc p \<and> offer_count ?p' = offer_count p \<and> receivers ?p' = receivers p"
    by (rule try_each_invariant [where P = "\<lambda>q. signaling q = signaling p \<and> local_desc q = local_desc p
        \<and> remote_desc q = remote_desc p \<and> offer_count q = offer_count p \<and> receivers q = receivers p"])
       (auto dest: pc_addTrack_Inr_fields)
  have wf: "pc_wf p \<longrightarrow> pc_wf ?p'"
    using try_each_invariant [where P = pc_wf and f = ?f] pc_addTrack_wf by blast
  show ?thesis
    using assms fields wf raw_track_loop [of "ms_id st" p "ms_tracks st"]
    by (simp add: room_add_tracks_def)
qed

lemma map_fst_media_of: "map fst (media_of p) = sender_tracks p"
proof -
  have "\<And>ss. map fst (List.map_filter (\<lambda>s. map_option (\<lambda>t. (t, snd_stream s)) (snd_track s)) ss)
          = List.map_filter snd_track ss"
    subgoal for ss by (induction ss) (auto simp: map_filter_simps split: option.split)
    done
  then show ?thesis by (simp add: media_of_def sender_tracks_def)
qed

lemma setMystream_fields [simp]:
  "svc (setMystream c st) = svc c"
  "remoteSocketId (rs (setMystream c st)) = remoteSocketId (rs c)"
  "remoteStream (rs (setMystream c st)) = remoteStream (rs c)"
  "mystream (rs (setMystream c st)) = Some st"
  by (simp_all add: setMystream_def Let_def)

text \<open>
  C7. The Room's loop calls \<open>addTrack\<close> on every track without looking at the
  senders; it has exactly the effect of \<open>PeerService.addLocalTracks\<close>, which skips
  the tracks already sent: the engine's \<open>InvalidAccessError\<close> on a second
  \<open>addTrack\<close> of a track, caught and ignored, does the deduplication.
\<close>

theorem room_add_tracks_eq_addLocalTracks:
  "room_add_tracks ps st = addLocalTracks ps (Some st)"
proof (cases "peer ps")
  case None
  then show ?thesis by (simp add: room_add_tracks_def addLocalTracks_def)
next
  case (Some p)
  let ?ex = "sender_tracks p"
  let ?P = "\<lambda>q. set ?ex \<subseteq> set (sender_tracks q)"
  have "try_each (\<lambda>p t. pc_addTrack p t (ms_id st)) p (ms_tracks st)
      = try_each (add_local_track_step ?ex (ms_id st)) p (ms_tracks st)"
  proof (rule try_each_cong [where P = ?P])
    fix q t
    assume "?P q"
    then show "(case pc_addTrack q t (ms_id st) of Inl _ \<Rightarrow> q | Inr q' \<Rightarrow> q')
        = (case add_local_track_step ?ex (ms_id st) q t of Inl _ \<Rightarrow> q | Inr q' \<Rightarrow> q')"
      by (cases "t \<in> set ?ex")
         (auto simp: add_local_track_step_def pc_addTrack_def sender_tracks_set)
  next
    fix q t q'
    assume "?P q" and step: "add_local_track_step ?ex (ms_id st) q t = Inr q'"
    have "set (sender_tracks q') = insert t (set (sender_tracks q))"
      using add_local_track_step_result [OF \<open>?P q\<close>, of q' "ms_id st" t] step by simp
    then show "?P q'" using \<open>?P q\<close> by blast
  qed simp
  then show ?thesis
    using Some by (simp add: room_add_tracks_def addLocalTracks_def sender_tracks_map_filter)
qed

text \<open>
  C8. Every handler of the Room page keeps the capture devices accounted for: each
  running capture track belongs to \<open>mystream\<close>; a new stream replaces the old one
  only after the old one's tracks were stopped.
\<close>

theorem room_handlers_keep_devices_ok:
  assumes "devices_ok c"
  shows "devices_ok (handleUserJoined c e i) \<and> devices_ok (fst (handleCallUser c g))
    \<and> devices_ok (fst (handleIncomingCall c from offer g))
    \<and> devices_ok (fst (handleCallAccepted c ans)) \<and> devices_ok (fst (handleNegotiationNeeded c))
    \<and> devices_ok (fst (handleNegotiationIncoming c from offer))
    \<and> devices_ok (fst (handleNegotiationFinal c ans)) \<and> devices_ok (handleTrack c ev)"
  using assms handleCallUser_devices_ok handleIncomingCall_devices_ok handleTrack_devices_ok
  by (simp add: handleUserJoined_def handleCallAccepted_def handleNegotiationNeeded_def
      handleNegotiationIncoming_def handleNegotiationFinal_def Let_def split: prod.split sum.split)

definition room_ctx0 :: room_ctx where
  "room_ctx0 = \<lparr>rs = room_init, svc = peer_module, devs = \<lparr>live = [], next_id = 0\<rparr>\<rparr>"

theorem room_handlers_keep_devices_ok_witness:
  "devices_ok room_ctx0
   \<and> devices_ok (handleUserJoined room_ctx0 ''b@x'' ''B'') \<and> devices_ok (fst (handleCallUser room_ctx0 Granted))
   \<and> devices_ok (fst (handleIncomingCall room_ctx0 ''B'' None Granted))
   \<and> devices_ok (fst (handleCallAccepted room_ctx0 None)) \<and> devices_ok (fst (handleNegotiationNeeded room_ctx0))
   \<and> devices_ok (fst (handleNegotiationIncoming room_ctx0 ''B'' None))
   \<and> devices_ok (fst (handleNegotiationFinal room_ctx0 None))
   \<and> devices_ok (handleTrack room_ctx0 \<lparr>ev_track = 9, ev_streams = []\<rparr>)"
proof -
  have h: "devices_ok room_ctx0" by (simp add: room_ctx0_def devices_ok_def)
  show ?thesis using h room_handlers_keep_devices_ok [OF h] by blast
qed

text \<open>
  C9. Leaving the Room page stops every capture track: with the devices accounted for,
  no track runs after the unmount cleanups.
\<close>

lemma unmount_stops_all: "devices_ok c \<Longrightarrow> live (devs (room_unmount c)) = []"
  by (auto simp: devices_ok_def room_unmount_def stop_stream_def stream_tracks_def
      filter_empty_conv split: option.splits)

theorem room_unmount_releases_devices:
  "devices_ok c \<Longrightarrow> live (devs (room_unmount c)) = []"
  by (rule unmount_stops_all)

theorem room_unmount_releases_devices_witness:
  "live (devs (fst (handleCallUser room_ctx0 Granted))) = [Suc 0, Suc (Suc 0)]
   \<and> devices_ok (fst (handleCallUser room_ctx0 Granted))
   \<and> live (devs (room_unmount (fst (handleCallUser room_ctx0 Granted)))) = []"
proof -
  have h0: "devices_ok room_ctx0" by (simp add: room_ctx0_def devices_ok_def)
  have h: "devices_ok (fst (handleCallUser room_ctx0 Granted))"
    by (rule handleCallUser_devices_ok [OF h0])
  have l: "live (devs (fst (handleCallUser room_ctx0 Granted))) = [Suc 0, Suc (Suc 0)]"
    by (simp add: handleCallUser_def room_ctx0_def getUserMedia_def setMystream_def room_init_def
        stop_stream_def Let_def split: prod.split sum.split)
  show ?thesis using h l room_unmount_releases_devices [OF h] by simp
qed

text \<open>
  C10. When capture is refused, both handlers that call \<open>getUserMedia\<close> stop with
  the rejection and emit nothing; \<open>handleIncomingCall\<close> has already recorded the
  caller as the remote peer, so the caller is never answered.
\<close>

theorem media_denied_paths:
  "handleCallUser c Denied = (c, [], Some NotAllowedError)
   \<and> handleIncomingCall c from offer Denied
       = (c\<lparr>rs := (rs c)\<lparr>remoteSocketId := Some from\<rparr>\<rparr>, [], Some NotAllowedError)"
  by (simp add: handleCallUser_def handleIncomingCall_def getUserMedia_def)

subsection \<open>Behaviour of the call handlers\<close>

lemma fst_media_of: "fst ` set (media_of p) = set (sender_tracks p)"
  by (metis map_fst_media_of set_map)

lemma getUserMedia_granted:
  "getUserMedia md Granted =
     Inr (md\<lparr>live := live md @ [Suc (next_id md), Suc (Suc (next_id md))], next_id := next_id md + 3\<rparr>,
          \<lparr>ms_id = next_id md, ms_tracks = [Suc (next_id md), Suc (Suc (next_id md))]\<rparr>)"
  by (simp add: getUserMedia_def Let_def)

text \<open>
  C11. Calling (the Call button, with capture granted) while no remote offer is being
  answered sends exactly one \<open>user:call\<close> to the recorded remote peer, carrying an
  offer that lists the new capture tracks and that is now the local description.
\<close>

theorem handleCallUser_offers:
  assumes p: "peer (svc c) = Some p" and s: "signaling p \<noteq> HaveRemoteOffer"
  shows "\<exists>c' ofr. handleCallUser c Granted = (c', [EmitUserCall (remoteSocketId (rs c)) (Some ofr)], None)
     \<and> sd_type ofr = Offer
     \<and> (\<exists>st. mystream (rs c') = Some st \<and> set (ms_tracks st) \<subseteq> fst ` set (sd_tracks ofr))
     \<and> (\<exists>p'. peer (svc c') = Some p' \<and> signaling p' = HaveLocalOffer \<and> local_desc p' = Some ofr)"
proof -
  define n where "n = next_id (devs c)"
  define st where "st = \<lparr>ms_id = n, ms_tracks = [Suc n, Suc (Suc n)]\<rparr>"
  define md where "md = (devs c)\<lparr>live := live (devs c) @ [Suc n, Suc (Suc n)], next_id := n + 3\<rparr>"
  have g: "getUserMedia (devs c) Granted = Inr (md, st)"
    by (simp add: getUserMedia_granted n_def st_def md_def)
  define c1 where "c1 = setMystream (c\<lparr>devs := md\<rparr>) st"
  obtain p1 where p1: "peer (room_add_tracks (svc c) st) = Some p1" "signaling p1 = signaling p"
      "set (sender_tracks p1) = set (sender_tracks p) \<union> set (ms_tracks st)"
    using room_add_tracks_result [OF p, of st] by blast
  define ofr where "ofr = \<lparr>sd_type = Offer, sd_serial = Suc (offer_count p1), sd_tracks = media_of p1\<rparr>"
  define ps where "ps = (room_add_tracks (svc c) st)\<lparr>peer := Some (p1\<lparr>offer_count := Suc (offer_count p1),
      signaling := HaveLocalOffer, local_desc := Some ofr\<rparr>)\<rparr>"
  have go: "getOffer (room_add_tracks (svc c) st) = (ps, Inr (Some ofr))"
    using getOffer_eq [OF p1(1)] p1(2) s by (simp add: ps_def ofr_def)
  have h: "handleCallUser c Granted = (c1\<lparr>svc := ps\<rparr>, [EmitUserCall (remoteSocketId (rs c)) (Some ofr)], None)"
    using g go by (simp add: handleCallUser_def c1_def)
  have tr: "set (ms_tracks st) \<subseteq> fst ` set (sd_tracks ofr)"
    using p1(3) by (simp add: ofr_def fst_media_of)
  show ?thesis
    using h tr by (intro exI [of _ "c1\<lparr>svc := ps\<rparr>"] exI [of _ ofr]) (simp add: c1_def ps_def ofr_def)
qed

theorem handleCallUser_offers_witness:
  "peer (svc room_ctx0) = Some (pc_init stun_servers) \<and> signaling (pc_init stun_servers) \<noteq> HaveRemoteOffer
   \<and> (\<exists>c' ofr. handleCallUser room_ctx0 Granted = (c', [EmitUserCall (remoteSocketId (rs room_ctx0)) (Some ofr)], None)
     \<and> sd_type ofr = Offer
     \<and> (\<exists>st. mystream (rs c') = Some st \<and> set (ms_tracks st) \<subseteq> fst ` set (sd_tracks ofr))
     \<and> (\<exists>p'. peer (svc c') = Some p' \<and> signaling p' = HaveLocalOffer \<and> local_desc p' = Some ofr))"
proof -
  have h1: "peer (svc room_ctx0) = Some (pc_init stun_servers)"
    by (simp add: room_ctx0_def peer_module_def PeerService_ctor_def)
  have h2: "signaling (pc_init stun_servers) \<noteq> HaveRemoteOffer" by (simp add: pc_init_def)
  show ?thesis using h1 h2 handleCallUser_offers [OF h1 h2] by blast
qed

text \<open>
  C12. An incoming call (capture granted, no own offer outstanding) records the caller
  as the remote peer and answers it: exactly one \<open>call:accepted\<close> to the caller, with
  an answer to that very offer listing the new capture tracks; the connection is stable
  with the offer as remote and the answer as local description.
\<close>

theorem handleIncomingCall_answers:
  assumes p: "peer (svc c) = Some p" and s: "signaling p \<noteq> HaveLocalOffer" and d: "sd_type d = Offer"
  shows "\<exists>c' ans. handleIncomingCall c from (Some d) Granted = (c', [EmitCallAccepted from (Some ans)], None)
     \<and> remoteSocketId (rs c') = Some from \<and> sd_type ans = Answer \<and> sd_serial ans = sd_serial d
     \<and> (\<exists>st. mystream (rs c') = Some st \<and> set (ms_tracks st) \<subseteq> fst ` set (sd_tracks ans))
     \<and> (\<exists>p'. peer (svc c') = Some p' \<and> signaling p' = Stable \<and> remote_desc p' = Some d
          \<and> local_desc p' = Some ans)"
proof -
  define c0 where "c0 = c\<lparr>rs := (rs c)\<lparr>remoteSocketId := Some from\<rparr>\<rparr>"
  define n where "n = next_id (devs c)"
  define st where "st = \<lparr>ms_id = n, ms_tracks = [Suc n, Suc (Suc n)]\<rparr>"
  define md where "md = (devs c)\<lparr>live := live (devs c) @ [Suc n, Suc (Suc n)], next_id := n + 3\<rparr>"
  have g: "getUserMedia (devs c0) Granted = Inr (md, st)"
    by (simp add: getUserMedia_granted c0_def n_def st_def md_def)
  define c1 where "c1 = setMystream (c0\<lparr>devs := md\<rparr>) st"
  obtain p1 where p1: "peer (room_add_tracks (svc c) st) = Some p1" "signaling p1 = signaling p"
      "set (sender_tracks p1) = set (sender_tracks p) \<union> set (ms_tracks st)"
    using room_add_tracks_result [OF p, of st] by blast
  define ans where "ans = \<lparr>sd_type = Answer, sd_serial = sd_serial d, sd_tracks = media_of p1\<rparr>"
  define p2 where "p2 = pc_update_nego ((deliver_tracks (p1\<lparr>signaling := HaveRemoteOffer, remote_desc := Some d\<rparr>)
      (sd_tracks d))\<lparr>signaling := Stable, local_desc := Some ans, current_local := Some ans\<rparr>)"
  define ps where "ps = (room_add_tracks (svc c) st)\<lparr>peer := Some p2\<rparr>"
  have ga: "getAnswer (room_add_tracks (svc c) st) (Some d) = (ps, Inr (Some ans))"
    using getAnswer_eq [OF p1(1) _ d] p1(2) s by (simp add: ps_def p2_def ans_def)
  have h: "handleIncomingCall c from (Some d) Granted = (c1\<lparr>svc := ps\<rparr>, [EmitCallAccepted from (Some ans)], None)"
    using g ga by (simp add: handleIncomingCall_def c0_def c1_def)
  have tr: "set (ms_tracks st) \<subseteq> fst ` set (sd_tracks ans)"
    using p1(3) by (simp add: ans_def fst_media_of)
  show ?thesis
    using h tr by (intro exI [of _ "c1\<lparr>svc := ps\<rparr>"] exI [of _ ans])
      (simp add: c1_def c0_def ps_def p2_def ans_def)
qed

theorem handleIncomingCall_answers_witness:
  "peer (svc room_ctx0) = Some (pc_init stun_servers) \<and> signaling (pc_init stun_servers) \<noteq> HaveLocalOffer
   \<and> sd_type \<lparr>sd_type = Offer, sd_serial = 1, sd_tracks = [(1, Some 0)]\<rparr> = Offer
   \<and> (\<exists>c' ans. handleIncomingCall room_ctx0 ''A'' (Some \<lparr>sd_type = Offer, sd_serial = 1, sd_tracks = [(1, Some 0)]\<rparr>) Granted
          = (c', [EmitCallAccepted ''A'' (Some ans)], None)
     \<and> remoteSocketId (rs c') = Some ''A'' \<and> sd_type ans = Answer
     \<and> sd_serial ans = sd_serial \<lparr>sd_type = Offer, sd_serial = 1, sd_tracks = [(1, Some 0)]\<rparr>
     \<and> (\<exists>st. mystream (rs c') = Some st \<and> set (ms_tracks st) \<subseteq> fst ` set (sd_tracks ans))
     \<and> (\<exists>p'. peer (svc c') = Some p' \<and> signaling p' = Stable
          \<and> remote_desc p' = Some \<lparr>sd_type = Offer, sd_serial = 1, sd_tracks = [(1, Some 0)]\<rparr>
          \<and> local_desc p' = Some ans))"
proof -
  have h1: "peer (svc room_ctx0) = Some (pc_init stun_servers)"
    by (simp add: room_ctx0_def peer_module_def PeerService_ctor_def)
  have h2: "signaling (pc_init stun_servers) \<noteq> HaveLocalOffer" by (simp add: pc_init_def)
  have h3: "sd_type \<lparr>sd_type = Offer, sd_serial = 1, sd_tracks = [(1, Some 0)]\<rparr> = Offer" by simp
  show ?thesis using h1 h2 h3 handleIncomingCall_answers [OF h1 h2 h3, of "''A''"] by blast
qed

text \<open>
  C13. The two handlers that apply a remote answer (\<open>call:accepted\<close>,
  \<open>peer:nego:final\<close>) never emit and never fail: the engine's rejection is caught and
  logged. An answer arriving when no offer is outstanding (a duplicate or late one)
  leaves the page exactly as it was.
\<close>

theorem answer_handlers_swallow_errors:
  assumes "peer (svc c) = Some p" and "signaling p \<noteq> HaveLocalOffer" and "sd_type d = Answer"
  shows "handleCallAccepted c (Some d) = (c, [], None) \<and> handleNegotiationFinal c (Some d) = (c, [], None)
     \<and> (\<forall>x. snd (handleCallAccepted c x) = ([], None) \<and> snd (handleNegotiationFinal c x) = ([], None))"
  using assms
  by (simp add: handleCallAccepted_def handleNegotiationFinal_def setRemoteDescription_def
      to_session_description_def pc_setRemoteDescription_def Let_def split: prod.split)

theorem answer_handlers_swallow_errors_witness:
  "peer (svc room_ctx0) = Some (pc_init stun_servers) \<and> signaling (pc_init stun_servers) \<noteq> HaveLocalOffer
   \<and> sd_type \<lparr>sd_type = Answer, sd_serial = 1, sd_tracks = []\<rparr> = Answer
   \<and> handleCallAccepted room_ctx0 (Some \<lparr>sd_type = Answer, sd_serial = 1, sd_tracks = []\<rparr>) = (room_ctx0, [], None)
   \<and> handleNegotiationFinal room_ctx0 (Some \<lparr>sd_type = Answer, sd_serial = 1, sd_tracks = []\<rparr>) = (room_ctx0, [], None)"
proof -
  have h1: "peer (svc room_ctx0) = Some (pc_init stun_servers)"
    by (simp add: room_ctx0_def peer_module_def PeerService_ctor_def)
  have h2: "signaling (pc_init stun_servers) \<noteq> HaveLocalOffer" by (simp add: pc_init_def)
  have h3: "sd_type \<lparr>sd_type = Answer, sd_serial = 1, sd_tracks = []\<rparr> = Answer" by simp
  show ?thesis using h1 h2 h3 answer_handlers_swallow_errors [OF h1 h2 h3] by blast
qed

lemma add_to_track_set_set [simp]: "set (add_to_track_set acc ts) = set acc \<union> set ts"
  by (induction ts arbitrary: acc) auto

lemma add_to_track_set_distinct: "distinct acc \<Longrightarrow> distinct (add_to_track_set acc ts)"
  by (induction ts arbitrary: acc) auto

lemma handleTrack_no_stream:
  assumes "ev_streams ev = []"
  shows "set (stream_tracks (remoteStream (rs (handleTrack c ev)))) = insert (ev_track ev) (set (stream_tracks (remoteStream (rs c))))
    \<and> distinct (stream_tracks (remoteStream (rs (handleTrack c ev))))"
  using assms add_to_track_set_distinct [of "[]"]
  by (auto simp: handleTrack_def stream_tracks_def new_MediaStream_tracks_def Let_def split: option.split)

lemma handleTrack_fold_set:
  "list_all (\<lambda>ev. ev_streams ev = []) evs \<Longrightarrow>
   set (stream_tracks (remoteStream (rs (fold (\<lambda>ev c. handleTrack c ev) evs c))))
     = set (stream_tracks (remoteStream (rs c))) \<union> set (map ev_track evs)
   \<and> (distinct (stream_tracks (remoteStream (rs c))) \<longrightarrow>
        distinct (stream_tracks (remoteStream (rs (fold (\<lambda>ev c. handleTrack c ev) evs c)))))"
proof (induction evs arbitrary: c)
  case (Cons ev evs)
  then show ?case using handleTrack_no_stream [of ev c] by auto
qed simp

text \<open>
  C14. Remote tracks that arrive one by one, without a stream, accumulate into one
  composite remote stream: after at least one such event the remote stream holds
  exactly the tracks it held before and the tracks that arrived, each once, even when
  a track arrives twice.
\<close>

theorem handleTrack_accumulates:
  "evs \<noteq> [] \<Longrightarrow> list_all (\<lambda>ev. ev_streams ev = []) evs \<Longrightarrow>
   set (stream_tracks (remoteStream (rs (fold (\<lambda>ev c. handleTrack c ev) evs c))))
     = set (stream_tracks (remoteStream (rs c))) \<union> set (map ev_track evs)
   \<and> distinct (stream_tracks (remoteStream (rs (fold (\<lambda>ev c. handleTrack c ev) evs c))))"
proof -
  assume ne: "evs \<noteq> []" and all: "list_all (\<lambda>ev. ev_streams ev = []) evs"
  then obtain ev evs' where evs: "evs = ev # evs'" by (cases evs) auto
  have h: "ev_streams ev = []" and all': "list_all (\<lambda>ev. ev_streams ev = []) evs'" using all evs by simp_all
  show ?thesis
    using handleTrack_no_stream [OF h, of c] handleTrack_fold_set [OF all', of "handleTrack c ev"] evs by auto
qed

theorem handleTrack_accumulates_witness:
  "[\<lparr>ev_track = 7, ev_streams = []\<rparr>, \<lparr>ev_track = 8, ev_streams = []\<rparr>, \<lparr>ev_track = 7, ev_streams = []\<rparr>] \<noteq> []
   \<and> list_all (\<lambda>ev. ev_streams ev = [])
       [\<lparr>ev_track = 7, ev_streams = []\<rparr>, \<lparr>ev_track = 8, ev_streams = []\<rparr>, \<lparr>ev_track = 7, ev_streams = []\<rparr>]
   \<and> set (stream_tracks (remoteStream (rs (fold (\<lambda>ev c. handleTrack c ev)
        [\<lparr>ev_track = 7, ev_streams = []\<rparr>, \<lparr>ev_track = 8, ev_streams = []\<rparr>, \<lparr>ev_track = 7, ev_streams = []\<rparr>]
        room_ctx0)))) = {7, 8}
   \<and> distinct (stream_tracks (remoteStream (rs (fold (\<lambda>ev c. handleTrack c ev)
        [\<lparr>ev_track = 7, ev_streams = []\<rparr>, \<lparr>ev_track = 8, ev_streams = []\<rparr>, \<lparr>ev_track = 7, ev_streams = []\<rparr>]
        room_ctx0))))"
proof -
  let ?evs = "[\<lparr>ev_track = 7::nat, ev_streams = []\<rparr>, \<lparr>ev_track = 8, ev_streams = []\<rparr>, \<lparr>ev_track = 7, ev_streams = []\<rparr>]"
  have n: "?evs \<noteq> []" by simp
  have h: "list_all (\<lambda>ev. ev_streams ev = []) ?evs" by simp
  have z: "stream_tracks (remoteStream (rs room_ctx0)) = []"
    by (simp add: room_ctx0_def room_init_def stream_tracks_def)
  show ?thesis using n h z handleTrack_accumulates [OF n h, of room_ctx0] by auto
qed

text \<open>
  On \<open>negotiationneeded\<close>, with no remote offer being answered, the page makes a
  new offer of all the tracks it sends and sends it as \<open>peer:nego:needed\<close> to the
  recorded remote peer; the page's React state is unchanged.
\<close>

lemma handleNegotiationNeeded_offers:
  assumes p: "peer (svc c) = Some p" and s: "signaling p \<noteq> HaveRemoteOffer"
  shows "\<exists>c' ofr. handleNegotiationNeeded c = (c', [EmitNegoNeeded (Some ofr) (remoteSocketId (rs c))], None)
     \<and> rs c' = rs c \<and> devs c' = devs c \<and> sd_type ofr = Offer \<and> sd_tracks ofr = media_of p
     \<and> (\<exists>p'. peer (svc c') = Some p' \<and> signaling p' = HaveLocalOffer \<and> local_desc p' = Some ofr
          \<and> remote_desc p' = remote_desc p)"
proof -
  define ofr where "ofr = \<lparr>sd_type = Offer, sd_serial = Suc (offer_count p), sd_tracks = media_of p\<rparr>"
  define ps where "ps = (svc c)\<lparr>peer := Some (p\<lparr>offer_count := Suc (offer_count p),
      signaling := HaveLocalOffer, local_desc := Some ofr\<rparr>)\<rparr>"
  have "handleNegotiationNeeded c = (c\<lparr>svc := ps\<rparr>, [EmitNegoNeeded (Some ofr) (remoteSocketId (rs c))], None)"
    using getOffer_eq [OF p s] by (simp add: handleNegotiationNeeded_def ps_def ofr_def)
  then show ?thesis
    by (intro exI [of _ "c\<lparr>svc := ps\<rparr>"] exI [of _ ofr]) (simp add: ps_def ofr_def)
qed

text \<open>
  An incoming renegotiation offer is answered to its sender: exactly one
  \<open>peer:nego:done\<close> with an answer to that offer, the connection stable again with
  the offer as remote description; the page's React state is unchanged.
\<close>

lemma handleNegotiationIncoming_answers:
  assumes p: "peer (svc c) = Some p" and s: "signaling p \<noteq> HaveLocalOffer" and d: "sd_type d = Offer"
  shows "\<exists>c' ans. handleNegotiationIncoming c from (Some d) = (c', [EmitNegoDone from (Some ans)], None)
     \<and> rs c' = rs c \<and> sd_type ans = Answer \<and> sd_serial ans = sd_serial d \<and> sd_tracks ans = media_of p
     \<and> (\<exists>p'. peer (svc c') = Some p' \<and> signaling p' = Stable \<and> remote_desc p' = Some d
          \<and> local_desc p' = Some ans)"
proof -
  define ans where "ans = \<lparr>sd_type = Answer, sd_serial = sd_serial d, sd_tracks = media_of p\<rparr>"
  define p2 where "p2 = pc_update_nego ((deliver_tracks (p\<lparr>signaling := HaveRemoteOffer, remote_desc := Some d\<rparr>)
      (sd_tracks d))\<lparr>signaling := Stable, local_desc := Some ans, current_local := Some ans\<rparr>)"
  have "handleNegotiationIncoming c from (Some d) = (c\<lparr>svc := (svc c)\<lparr>peer := Some p2\<rparr>\<rparr>, [EmitNegoDone from (Some ans)], None)"
    using getAnswer_eq [OF p s d] by (simp add: handleNegotiationIncoming_def p2_def ans_def)
  then show ?thesis
    by (intro exI [of _ "c\<lparr>svc := (svc c)\<lparr>peer := Some p2\<rparr>\<rparr>"] exI [of _ ans]) (simp add: p2_def ans_def)
qed

subsection \<open>The handlers keep the connection settled\<close>

text \<open>
  With well-typed payloads, every handler leaves the connection settled, and what it
  emits is well typed; the only handler that emits \<open>peer:nego:needed\<close> is
  \<open>handleNegotiationNeeded\<close>, and only \<open>handleNegotiationIncoming\<close> emits
  \<open>peer:nego:done\<close>.
\<close>

definition room_ok :: "room_ctx \<Rightarrow> bool" where
  "room_ok c \<longleftrightarrow> devices_ok c \<and> ps_settled (svc c)"

definition result_ok :: "handler_result \<Rightarrow> bool" where
  "result_ok r \<longleftrightarrow> ps_settled (svc (fst r)) \<and> list_all out_ok (fst (snd r))
     \<and> list_all (\<lambda>m. \<not> reneg_out m) (fst (snd r))"

lemma room_add_tracks_settled_pre:
  assumes "ps_settled ps"
  shows "\<exists>p1. peer (room_add_tracks ps st) = Some p1 \<and> signaling p1 \<noteq> HaveRemoteOffer \<and> pc_wf p1"
  using assms room_add_tracks_result [of ps _ st] by (fastforce simp: ps_settled_def pc_settled_def)

lemma handleCallUser_ok: "ps_settled (svc c) \<Longrightarrow> result_ok (handleCallUser c g)"
proof (cases "getUserMedia (devs c) g")
  case (Inl e)
  assume "ps_settled (svc c)"
  then show ?thesis using Inl by (simp add: handleCallUser_def result_ok_def)
next
  case (Inr r)
  assume set: "ps_settled (svc c)"
  obtain md st where r: "r = (md, st)" by (cases r)
  obtain p1 where p1: "peer (room_add_tracks (svc c) st) = Some p1" "signaling p1 \<noteq> HaveRemoteOffer" "pc_wf p1"
    using room_add_tracks_settled_pre [OF set] by blast
  obtain ps' ofr p' where go: "getOffer (room_add_tracks (svc c) st) = (ps', Inr (Some ofr))"
      "sd_type ofr = Offer" "peer ps' = Some p'" "pc_settled p'" "pc_wf p'"
    using getOffer_settled [OF p1(1,2)] p1(3) by blast
  have "ps_settled ps'" using go by (auto simp: ps_settled_def)
  then show ?thesis using Inr r go
    by (simp add: handleCallUser_def result_ok_def Let_def desc_is_def)
qed

lemma handleIncomingCall_ok:
  "ps_settled (svc c) \<Longrightarrow> desc_is Offer offer \<Longrightarrow> result_ok (handleIncomingCall c from offer g)"
proof (cases "getUserMedia (devs c) g")
  case (Inl e)
  assume "ps_settled (svc c)"
  then show ?thesis using Inl by (simp add: handleIncomingCall_def result_ok_def)
next
  case (Inr r)
  assume set: "ps_settled (svc c)" and off: "desc_is Offer offer"
  obtain d where d: "offer = Some d" "sd_type d = Offer"
    using off by (cases offer) (auto simp: desc_is_def)
  obtain md st where r: "r = (md, st)" by (cases r)
  obtain p1 where p1: "peer (room_add_tracks (svc c) st) = Some p1" "signaling p1 \<noteq> HaveRemoteOffer" "pc_wf p1"
    using room_add_tracks_settled_pre [OF set] by blast
  obtain ps' a p' where ga: "getAnswer (room_add_tracks (svc c) st) (Some d) = (ps', Inr (Some a))"
      "sd_type a = Answer" "peer ps' = Some p'" "pc_settled p'" "pc_wf p'"
    using getAnswer_settled [OF p1(1,2) d(2)] p1(3) by blast
  have "ps_settled ps'" using ga by (auto simp: ps_settled_def)
  then show ?thesis using Inr r ga d
    by (simp add: handleIncomingCall_def result_ok_def Let_def desc_is_def)
qed

lemma answer_handler_ok:
  assumes "ps_settled (svc c)" and "desc_is Answer ans"
  shows "result_ok (handleCallAccepted c ans)" and "result_ok (handleNegotiationFinal c ans)"
proof -
  obtain d where d: "ans = Some d" "sd_type d = Answer"
    using assms(2) by (cases ans) (auto simp: desc_is_def)
  obtain p where p: "peer (svc c) = Some p" "pc_wf p" "pc_settled p"
    using assms(1) by (auto simp: ps_settled_def)
  obtain p' where p': "peer (fst (setRemoteDescription (svc c) (Some d))) = Some p'" "pc_settled p'" "pc_wf p'"
    using setRemoteDescription_answer_settled [OF p(1,3) d(2)] p(2) by blast
  have "ps_settled (fst (setRemoteDescription (svc c) (Some d)))"
    using p' by (auto simp: ps_settled_def)
  then show "result_ok (handleCallAccepted c ans)" and "result_ok (handleNegotiationFinal c ans)"
    using d by (simp_all add: handleCallAccepted_def handleNegotiationFinal_def result_ok_def case_prod_beta)
qed

lemma handleNegotiationIncoming_ok:
  assumes "ps_settled (svc c)" and "desc_is Offer offer"
  shows "ps_settled (svc (fst (handleNegotiationIncoming c from offer)))
     \<and> list_all out_ok (fst (snd (handleNegotiationIncoming c from offer)))"
proof -
  obtain d where d: "offer = Some d" "sd_type d = Offer"
    using assms(2) by (cases offer) (auto simp: desc_is_def)
  obtain p where p: "peer (svc c) = Some p" "pc_wf p" "pc_settled p"
    using assms(1) by (auto simp: ps_settled_def)
  have s: "signaling p \<noteq> HaveRemoteOffer" using p(3) by (simp add: pc_settled_def)
  obtain ps' a p' where ga: "getAnswer (svc c) (Some d) = (ps', Inr (Some a))"
      "sd_type a = Answer" "peer ps' = Some p'" "pc_settled p'" "pc_wf p'"
    using getAnswer_settled [OF p(1) s d(2)] p(2) by blast
  have "ps_settled ps'" using ga by (auto simp: ps_settled_def)
  then show ?thesis using ga d by (simp add: handleNegotiationIncoming_def desc_is_def)
qed

lemma handleTrack_svc [simp]: "svc (handleTrack c ev) = svc c"
  by (simp add: handleTrack_def Let_def split: list.split)

end
