(* ===== verification/Lobby.thy ===== *)
theory Lobby
  imports Socket
begin

text \<open>
  \<open>src/client/src/pages/Lobby.jsx\<close>: the form that asks to join a room. Its React
  state is the two inputs; submitting emits \<open>room:join\<close>, and the relay's
  \<open>room:join\<close> acknowledgement navigates to \<open>/room/<room>\<close>. The routes are the
  application's two pages (the router set-up is not among the sources).
\<close>

record lobby_state =
  lobby_email :: email
  lobby_room :: room_id

definition lobby_init :: lobby_state where
  "lobby_init = \<lparr>lobby_email = [], lobby_room = []\<rparr>"

datatype route = LobbyPage | RoomPage room_id

definition setEmail :: "lobby_state \<Rightarrow> email \<Rightarrow> lobby_state" where
  "setEmail l e = l\<lparr>lobby_email := e\<rparr>"

definition setRoom :: "lobby_state \<Rightarrow> room_id \<Rightarrow> lobby_state" where
  "setRoom l r = l\<lparr>lobby_room := r\<rparr>"

definition handleSubmitForm :: "lobby_state \<Rightarrow> out_msg list" where
  "handleSubmitForm l = [EmitRoomJoin (lobby_email l) (lobby_room l)]"

definition handleJoinRoom :: "email \<Rightarrow> room_id \<Rightarrow> route" where
  "handleJoinRoom e r = RoomPage r"

end
