(* ===== verification/View.thy ===== *)
theory View
  imports Room Lobby
begin

text \<open>
  What the two pages render (\<open>Room.jsx\<close> lines 166-214, \<open>Lobby.jsx\<close> lines 32-47) and
  the Room's two effects that bind the streams to the video elements (\<open>Room.jsx\<close>
  lines 138-158). The markup is a tree of \<open>element\<close>s; the conditional parts test the
  JavaScript truthiness of the state (an empty string is falsy, every stream object
  truthy). The elements the user can act on are read off the tree: the Call button
  exists only while it is rendered, and the Lobby's form is submitted only when the
  browser's constraint validation of its \<open>type='email'\<close> input passes.
\<close>

datatype vref = MyVideo | RemoteVideo

datatype element =
    Div "element list"
  | Heading nat string
  | Button string
  | Video vref bool bool
  | Form "element list"
  | Label string string
  | Input string string
  | Br

text \<open>\<open>Video r muted mirrored\<close>: the \<open>ref\<close> it is bound to and its \<open>muted\<close> attribute and
  \<open>rotateY(180deg)\<close> style; both are \<open>autoPlay playsInline\<close>, 400 by 300.\<close>

fun truthy_sid :: "sid option \<Rightarrow> bool" where
  "truthy_sid None = False"
| "truthy_sid (Some s) = (s \<noteq> [])"

text \<open>\<open>Room.jsx\<close> lines 166-214.\<close>

definition room_view :: "room_state \<Rightarrow> element" where
  "room_view r =
     Div ([Heading 1 ''Room Page'',
           Heading 4 (if truthy_sid (remoteSocketId r) then ''Connected'' else ''No one in room'')]
          @ (if truthy_sid (remoteSocketId r) then [Button ''Call''] else [])
          @ (case mystream r of None \<Rightarrow> [] | Some _ \<Rightarrow> [Heading 2 ''My Stream'', Video MyVideo True True])
          @ (case remoteStream r of None \<Rightarrow> []
             | Some _ \<Rightarrow> [Heading 2 ''Remote Stream'', Video RemoteVideo False True]))"

text \<open>\<open>Lobby.jsx\<close> lines 32-47: two controlled inputs showing the state, and Join.\<close>

definition lobby_view :: "lobby_state \<Rightarrow> element" where
  "lobby_view l =
     Div [Heading 1 ''Lobby'',
          Form [Label ''email'' ''Email Id'', Input ''email'' (lobby_email l), Br,
                Label ''room'' ''Room Number'', Input ''text'' (lobby_room l), Br,
                Div [Button ''Join'']]]"

fun videos :: "element \<Rightarrow> (vref \<times> bool) list" where
  "videos (Div es) = concat (map videos es)"
| "videos (Form es) = concat (map videos es)"
| "videos (Video r m f) = [(r, m)]"
| "videos _ = []"

fun buttons :: "element \<Rightarrow> string list" where
  "buttons (Div es) = concat (map buttons es)"
| "buttons (Form es) = concat (map buttons es)"
| "buttons (Button b) = [b]"
| "buttons _ = []"

definition mounted :: "vref \<Rightarrow> element \<Rightarrow> bool" where
  "mounted r v \<longleftrightarrow> r \<in> fst ` set (videos v)"

subsection \<open>Binding the streams to the video elements\<close>

text \<open>
  The \<open>srcObject\<close> of each mounted video element. An element rendered anew starts
  with none; an element rendered in both trees is kept (each conditional part of the
  markup holds its own slot).
\<close>

type_synonym video_dom = "vref \<Rightarrow> mstream option"

text \<open>
  One of the effects of lines 138-147 and 149-158, run after a render when its
  dependency changed: the clean-up clears \<open>srcObject\<close> of the element the ref holds,
  then the effect sets it to the stream if both the element and the stream exist
  (and calls \<open>play()\<close>, whose rejection is caught and ignored).
\<close>

definition bind_video :: "vref \<Rightarrow> bool \<Rightarrow> mstream option \<Rightarrow> element \<Rightarrow> video_dom \<Rightarrow> video_dom" where
  "bind_video r changed st v d =
     (if \<not> changed then d
      else (let d1 = (if mounted r v then d(r := None) else d)
            in case st of
                 None \<Rightarrow> d1
               | Some s \<Rightarrow> (if mounted r v then d1(r := Some s) else d1)))"

text \<open>A commit of the Room page from state \<open>old\<close> to state \<open>new\<close>.\<close>

definition room_commit :: "room_state \<Rightarrow> room_state \<Rightarrow> video_dom \<Rightarrow> video_dom" where
  "room_commit old new d =
     (let v = room_view new;
          d0 = (\<lambda>r. if mounted r (room_view old) \<and> mounted r v then d r else None);
          d1 = bind_video MyVideo (mystream old \<noteq> mystream new) (mystream new) v d0
      in bind_video RemoteVideo (remoteStream old \<noteq> remoteStream new) (remoteStream new) v d1)"

text \<open>The stream each video element is meant to show.\<close>

fun video_src :: "vref \<Rightarrow> room_state \<Rightarrow> mstream option" where
  "video_src MyVideo r = mystream r"
| "video_src RemoteVideo r = remoteStream r"

definition dom_ok :: "room_state \<Rightarrow> video_dom \<Rightarrow> bool" where
  "dom_ok r d \<longleftrightarrow> (\<forall>v. d v = video_src v r)"

subsection \<open>Constraint validation of the Lobby form\<close>

text \<open>
  The \<open>email\<close> input (\<open>Lobby.jsx\<close> line 37) is of \<open>type='email'\<close> and not
  \<open>required\<close>: the browser fires \<open>submit\<close> (and so \<open>handleSubmitForm\<close>) only when it is
  empty or a valid e-mail address in the sense of the HTML standard: a non-empty local
  part of letters, digits and \<open>.!#$%&'*+/=?^_`{|}~-\<close>, an \<open>@\<close>, and dot-separated labels
  of one to 63 letters, digits and hyphens that begin and end with a letter or digit.
\<close>

definition alnum_chars :: string where
  "alnum_chars = ''abcdefghijklmnopqrstuvwxyzABCDEFGHIJKLMNOPQRSTUVWXYZ0123456789''"

definition local_chars :: string where
  "local_chars = alnum_chars @ ''.!#$%&'*+/=?^_`{|}~-''"

fun split_dots :: "string \<Rightarrow> string list" where
  "split_dots [] = [[]]"
| "split_dots (c # cs) =
     (if c = CHR ''.'' then [] # split_dots cs
      else (case split_dots cs of l # ls \<Rightarrow> (c # l) # ls | [] \<Rightarrow> [[c]]))"

definition valid_label :: "string \<Rightarrow> bool" where
  "valid_label l \<longleftrightarrow> l \<noteq> [] \<and> length l \<le> 63 \<and> hd l \<in> set alnum_chars \<and> last l \<in> set alnum_chars
     \<and> set l \<subseteq> set (CHR ''-'' # alnum_chars)"

definition valid_email :: "string \<Rightarrow> bool" where
  "valid_email e =
     (let loc = takeWhile (\<lambda>c. c \<noteq> CHR ''@'') e; rest = dropWhile (\<lambda>c. c \<noteq> CHR ''@'') e
      in loc \<noteq> [] \<and> set loc \<subseteq> set local_chars
         \<and> (case rest of [] \<Rightarrow> False | _ # host \<Rightarrow> list_all valid_label (split_dots host)))"

definition email_input_valid :: "email \<Rightarrow> bool" where
  "email_input_valid e \<longleftrightarrow> e = [] \<or> valid_email e"

subsection \<open>What the pages show\<close>

lemma videos_room_view:
  "videos (room_view r) =
     (case mystream r of None \<Rightarrow> [] | Some _ \<Rightarrow> [(MyVideo, True)])
     @ (case remoteStream r of None \<Rightarrow> [] | Some _ \<Rightarrow> [(RemoteVideo, False)])"
  by (simp add: room_view_def split: option.split)

lemma mounted_room_view [simp]: "mounted r (room_view s) \<longleftrightarrow> video_src r s \<noteq> None"
  by (cases r; cases "mystream s"; cases "remoteStream s") (simp_all add: mounted_def videos_room_view)

lemma buttons_room_view [simp]:
  "buttons (room_view r) = (if truthy_sid (remoteSocketId r) then [''Call''] else [])"
  by (cases "mystream r"; cases "remoteStream r") (simp_all add: room_view_def)

lemma buttons_lobby_view [simp]: "buttons (lobby_view l) = [''Join'']"
  by (simp add: lobby_view_def)

lemma bind_video_at:
  "bind_video r ch st v d r' = (if r' \<noteq> r \<or> \<not> ch then d r' else if mounted r v then st else d r)"
  by (simp add: bind_video_def Let_def split: option.split)

lemma dom_ok_mount: "dom_ok room_init (\<lambda>_. None)"
  unfolding dom_ok_def
proof
  fix v show "None = video_src v room_init" by (cases v) (simp_all add: room_init_def)
qed

subsection \<open>The video elements show the page's streams\<close>

text \<open>
  C26. The effects of lines 138-158 keep each video element showing the stream it is
  bound to: if before a commit of the Room page the own video element shows
  \<open>mystream\<close> and the remote one \<open>remoteStream\<close> (an element that is not rendered
  counting as showing nothing), the same holds after it, whatever the state change.
\<close>

theorem room_commit_binds_streams:
  assumes "dom_ok old d"
  shows "dom_ok new (room_commit old new d)"
  unfolding dom_ok_def
proof
  fix r
  have d: "d r = video_src r old" using assms by (simp add: dom_ok_def)
  show "room_commit old new d r = video_src r new"
    using d by (cases r) (auto simp: room_commit_def bind_video_at Let_def)
qed

theorem room_commit_binds_streams_witness:
  "dom_ok room_init (\<lambda>_. None)
   \<and> dom_ok \<lparr>remoteSocketId = Some ''B'', mystream = Some \<lparr>ms_id = 0, ms_tracks = [0, 1]\<rparr>,
              remoteStream = Some \<lparr>ms_id = 2, ms_tracks = [5]\<rparr>\<rparr>
       (room_commit room_init \<lparr>remoteSocketId = Some ''B'', mystream = Some \<lparr>ms_id = 0, ms_tracks = [0, 1]\<rparr>,
              remoteStream = Some \<lparr>ms_id = 2, ms_tracks = [5]\<rparr>\<rparr> (\<lambda>_. None))"
  using dom_ok_mount room_commit_binds_streams [OF dom_ok_mount] by blast

end
