(* ===== verification/Client.thy ===== *)
theory Client
  imports View
begin

text \<open>
  One browser tab: the page shown, the Lobby's and the Room's React state, the
  \<open>PeerService\<close> module instance (shared by both pages, it outlives them) and the
  capture devices. Which handlers run is decided by the page: socket events without a
  listener on the current page are dropped, as socket.io drops them, and the engine's
  events reach the Room's listeners only while the Room page is mounted.
\<close>

record client =
  route :: route
  lobby :: lobby_state
  ctx :: room_ctx

definition client_init :: client where
  "client_init = \<lparr>route = LobbyPage, lobby = lobby_init,
     ctx = \<lparr>rs = room_init, svc = peer_module, devs = \<lparr>live = [], next_id = 0\<rparr>\<rparr>\<rparr>"

type_synonym client_result = "client \<times> out_msg list \<times> handler_error option"

text \<open>Navigation unmounts the page left and mounts the page entered.\<close>

definition navigate :: "client \<Rightarrow> route \<Rightarrow> client" where
  "navigate c r =
     (let c1 = (case route c of LobbyPage \<Rightarrow> c\<lparr>lobby := lobby_init\<rparr> | RoomPage _ \<Rightarrow> c\<lparr>ctx := room_unmount (ctx c)\<rparr>)
      in case r of LobbyPage \<Rightarrow> c1\<lparr>route := r\<rparr> | RoomPage _ \<Rightarrow> c1\<lparr>route := r, ctx := room_mount (ctx c1)\<rparr>)"

definition lift_room :: "client \<Rightarrow> handler_result \<Rightarrow> client_result" where
  "lift_room c r = (case r of (x, out, e) \<Rightarrow> (c\<lparr>ctx := x\<rparr>, out, e))"

text \<open>The Lobby's listener (\<open>Lobby.jsx\<close> lines 24-29): only \<open>room:join\<close> is handled.\<close>

definition lobby_receive :: "client \<Rightarrow> in_msg \<Rightarrow> client_result" where
  "lobby_receive c m =
     (case m of
       OnRoomJoin e r \<Rightarrow> (navigate c (handleJoinRoom e r), [], None)
     | _ \<Rightarrow> (c, [], None))"

text \<open>The Room's listeners (\<open>Room.jsx\<close> lines 115-136).\<close>

definition room_receive :: "client \<Rightarrow> in_msg \<Rightarrow> gum_outcome \<Rightarrow> client_result" where
  "room_receive c m g =
     (case m of
       OnUserJoined e i \<Rightarrow> (c\<lparr>ctx := handleUserJoined (ctx c) e i\<rparr>, [], None)
     | OnIncomingCall f offer \<Rightarrow> lift_room c (handleIncomingCall (ctx c) f offer g)
     | OnCallAccepted f ans \<Rightarrow> lift_room c (handleCallAccepted (ctx c) ans)
     | OnNegoNeeded f offer \<Rightarrow> lift_room c (handleNegotiationIncoming (ctx c) f offer)
     | OnNegoFinal f ans \<Rightarrow> lift_room c (handleNegotiationFinal (ctx c) ans)
     | _ \<Rightarrow> (c, [], None))"

text \<open>A socket event goes to the listeners of the page that is mounted.\<close>

definition client_receive :: "client \<Rightarrow> in_msg \<Rightarrow> gum_outcome \<Rightarrow> client_result" where
  "client_receive c m g = (case route c of LobbyPage \<Rightarrow> lobby_receive c m | RoomPage _ \<Rightarrow> room_receive c m g)"

text \<open>
  The engine's next task: a \<open>track\<close> event goes to the Room's \<open>handleTrack\<close>
  (lines 105-106); the negotiation-needed check fires \<open>negotiationneeded\<close>, which
  runs \<open>handleNegotiationNeeded\<close> (lines 109-113).
\<close>

definition client_pc_task :: "client \<Rightarrow> client_result option" where
  "client_pc_task c =
     (case peer (svc (ctx c)) of
       None \<Rightarrow> None
     | Some p \<Rightarrow>
         (case pc_take_event p of
           None \<Rightarrow> None
         | Some (e, p1) \<Rightarrow>
             (let on_room = (route c \<noteq> LobbyPage) in
              case e of
                TrackEvent ev \<Rightarrow>
                  (let c1 = c\<lparr>ctx := (ctx c)\<lparr>svc := \<lparr>peer = Some p1\<rparr>\<rparr>\<rparr>
                   in Some (if on_room then c1\<lparr>ctx := handleTrack (ctx c1) ev\<rparr> else c1, [], None))
              | NegotiationCheck \<Rightarrow>
                  (let (p2, fire) = nego_task p1; c1 = c\<lparr>ctx := (ctx c)\<lparr>svc := \<lparr>peer = Some p2\<rparr>\<rparr>\<rparr>
                   in Some (if fire \<and> on_room then lift_room c1 (handleNegotiationNeeded (ctx c1))
                            else (c1, [], None))))))"

text \<open>
  What the user does: type into the Lobby's inputs, submit the form (which the
  browser passes on to \<open>handleSubmitForm\<close> only when the e-mail input validates),
  press Call (only while the button is rendered, \<open>Room.jsx\<close> line 171), or leave the
  Room page with the browser's back button.
\<close>

datatype user_input = TypeEmail email | TypeRoom room_id | Submit | ClickCall gum_outcome | GoBack

definition client_input :: "client \<Rightarrow> user_input \<Rightarrow> client_result option" where
  "client_input c u =
     (case (route c, u) of
       (LobbyPage, TypeEmail e) \<Rightarrow> Some (c\<lparr>lobby := setEmail (lobby c) e\<rparr>, [], None)
     | (LobbyPage, TypeRoom r) \<Rightarrow> Some (c\<lparr>lobby := setRoom (lobby c) r\<rparr>, [], None)
     | (LobbyPage, Submit) \<Rightarrow>
         Some (c, if email_input_valid (lobby_email (lobby c)) then handleSubmitForm (lobby c) else [], None)
     | (RoomPage _, ClickCall g) \<Rightarrow>
         (if ''Call'' \<notin> set (buttons (room_view (rs (ctx c)))) then None
          else Some (lift_room c (handleCallUser (ctx c) g)))
     | (RoomPage _, GoBack) \<Rightarrow> Some (navigate c LobbyPage, [], None)
     | _ \<Rightarrow> None)"

text \<open>The e-mail a \<open>room:join\<close> or \<open>user:joined\<close> carries passed the form's validation.\<close>

fun join_out_ok :: "out_msg \<Rightarrow> bool" where
  "join_out_ok (EmitRoomJoin e r) = email_input_valid e"
| "join_out_ok _ = True"

fun join_in_ok :: "in_msg \<Rightarrow> bool" where
  "join_in_ok (OnRoomJoin e r) = email_input_valid e"
| "join_in_ok (OnUserJoined e i) = email_input_valid e"
| "join_in_ok _ = True"

subsection \<open>The client stays well formed\<close>

definition client_ok :: "client \<Rightarrow> bool" where
  "client_ok c \<longleftrightarrow> devices_ok (ctx c) \<and> ps_settled (svc (ctx c))
     \<and> (route c = LobbyPage \<longrightarrow> live (devs (ctx c)) = [])"

definition outs_ok :: "out_msg list \<Rightarrow> bool" where
  "outs_ok out \<longleftrightarrow> list_all out_ok out \<and> list_all (\<lambda>m. \<not> reneg_out m) out"

lemma client_init_ok: "client_ok client_init"
proof -
  have "pc_settled (pc_init stun_servers)"
    by (simp add: pc_settled_def pc_init_def media_of_def map_filter_simps)
  then show ?thesis
    by (simp add: client_ok_def client_init_def devices_ok_def ps_settled_def peer_module_def
        PeerService_ctor_def pc_wf_init)
qed

lemma room_unmount_fields [simp]: "svc (room_unmount c) = svc c" "svc (room_mount c) = svc c"
  by (simp_all add: room_unmount_def room_mount_def)

lemma navigate_ok: "client_ok c \<Longrightarrow> client_ok (navigate c r)"
proof -
  assume ok: "client_ok c"
  define c1 where "c1 = (case route c of LobbyPage \<Rightarrow> c\<lparr>lobby := lobby_init\<rparr> | RoomPage _ \<Rightarrow> c\<lparr>ctx := room_unmount (ctx c)\<rparr>)"
  have l1: "live (devs (ctx c1)) = []" and s1: "ps_settled (svc (ctx c1))"
    using ok unmount_stops_all by (auto simp: c1_def client_ok_def split: route.split)
  have d1: "devices_ok (ctx c1)" using l1 by (simp add: devices_ok_def)
  have "navigate c r = (case r of LobbyPage \<Rightarrow> c1\<lparr>route := r\<rparr> | RoomPage _ \<Rightarrow> c1\<lparr>route := r, ctx := room_mount (ctx c1)\<rparr>)"
    unfolding navigate_def c1_def Let_def by (rule refl)
  then show ?thesis
    using l1 s1 d1 room_mount_devices_ok [OF l1] by (simp add: client_ok_def split: route.split)
qed

lemma navigate_svc [simp]: "svc (ctx (navigate c r)) = svc (ctx c)"
  by (simp add: navigate_def Let_def split: route.split)

lemma lift_room_fields [simp]:
  "ctx (fst (lift_room c r)) = fst r" "fst (snd (lift_room c r)) = fst (snd r)"
  "route (fst (lift_room c r)) = route c"
  by (cases r; simp add: lift_room_def)+

text \<open>
  The connection stays settled and the messages emitted are well formed, whatever the
  capture devices are doing.
\<close>

lemma client_receive_settled:
  assumes set: "ps_settled (svc (ctx c))" and m: "in_ok m" and nr: "\<not> reneg_in m"
  shows "ps_settled (svc (ctx (fst (client_receive c m g)))) \<and> outs_ok (fst (snd (client_receive c m g)))"
proof (cases "route c")
  case LobbyPage
  then show ?thesis using set by (cases m) (simp_all add: client_receive_def lobby_receive_def room_receive_def outs_ok_def)
next
  case (RoomPage x)
  show ?thesis
  proof (cases m)
    case (OnIncomingCall f offer)
    then show ?thesis using RoomPage m handleIncomingCall_ok [OF set, of offer f g]
      by (simp add: client_receive_def lobby_receive_def room_receive_def result_ok_def outs_ok_def)
  next
    case (OnCallAccepted f ans)
    then show ?thesis using RoomPage m answer_handler_ok(1) [OF set, of ans]
      by (simp add: client_receive_def lobby_receive_def room_receive_def result_ok_def outs_ok_def)
  qed (use RoomPage set nr in \<open>simp_all add: client_receive_def lobby_receive_def room_receive_def outs_ok_def handleUserJoined_def\<close>)
qed

lemma client_pc_task_settled:
  assumes set: "ps_settled (svc (ctx c))" and t: "client_pc_task c = Some r"
  shows "ps_settled (svc (ctx (fst r))) \<and> fst (snd r) = []"
proof -
  obtain p where p: "peer (svc (ctx c)) = Some p" "pc_wf p" "pc_settled p"
    using set by (auto simp: ps_settled_def)
  obtain e p1 where te: "pc_take_event p = Some (e, p1)"
    using t p(1) by (auto simp: client_pc_task_def split: option.splits)
  have w1: "pc_wf p1" and s1: "pc_settled p1"
    using pc_take_event_wf [OF p(2) te] pc_settled_take_event [OF p(3) te] by simp_all
  show ?thesis
  proof (cases e)
    case (TrackEvent ev)
    then show ?thesis using t p(1) te w1 s1 by (auto simp: client_pc_task_def Let_def ps_settled_def)
  next
    case NegotiationCheck
    obtain p2 where nt: "nego_task p1 = (p2, False)"
      using pc_settled_nego_task [OF s1] by (cases "nego_task p1") simp
    have w2: "pc_wf p2" and s2: "pc_settled p2"
      using nego_task_wf [OF w1] pc_settled_nego_task_keeps [OF s1] nt by simp_all
    then show ?thesis using t p(1) te NegotiationCheck nt
      by (auto simp: client_pc_task_def ps_settled_def)
  qed
qed

lemma client_input_settled:
  assumes set: "ps_settled (svc (ctx c))" and i: "client_input c u = Some r"
  shows "ps_settled (svc (ctx (fst r))) \<and> outs_ok (fst (snd r))"
proof (cases "route c")
  case LobbyPage
  then show ?thesis using set i
    by (cases u) (auto simp: client_input_def outs_ok_def handleSubmitForm_def)
next
  case (RoomPage x)
  show ?thesis
  proof (cases u)
    case (ClickCall g)
    then have "r = lift_room c (handleCallUser (ctx c) g)"
      using i RoomPage by (simp add: client_input_def split: if_splits)
    then show ?thesis using handleCallUser_ok [OF set, of g] by (simp add: result_ok_def outs_ok_def)
  qed (use i RoomPage set in \<open>auto simp: client_input_def outs_ok_def\<close>)
qed

text \<open>With the capture devices as well.\<close>

lemma client_ok_split:
  "client_ok c \<longleftrightarrow> ps_settled (svc (ctx c)) \<and> devices_ok (ctx c) \<and> (route c = LobbyPage \<longrightarrow> live (devs (ctx c)) = [])"
  by (auto simp: client_ok_def)

lemma client_receive_ok:
  assumes ok: "client_ok c" and m: "in_ok m" and nr: "\<not> reneg_in m"
  shows "client_ok (fst (client_receive c m g)) \<and> outs_ok (fst (snd (client_receive c m g)))"
proof -
  have set: "ps_settled (svc (ctx c))" and dev: "devices_ok (ctx c)" using ok by (simp_all add: client_ok_def)
  have "devices_ok (ctx (fst (client_receive c m g)))
      \<and> (route (fst (client_receive c m g)) = LobbyPage \<longrightarrow> live (devs (ctx (fst (client_receive c m g)))) = [])"
  proof (cases "route c")
    case LobbyPage
    then show ?thesis using ok navigate_ok by (cases m) (simp_all add: client_receive_def lobby_receive_def room_receive_def client_ok_def)
  next
    case (RoomPage x)
    show ?thesis
    proof (cases m)
      case (OnIncomingCall f offer)
      then show ?thesis using RoomPage handleIncomingCall_devices_ok [OF dev]
        by (simp add: client_receive_def lobby_receive_def room_receive_def)
    next
      case (OnCallAccepted f ans)
      then show ?thesis using RoomPage dev
        by (simp add: client_receive_def lobby_receive_def room_receive_def lift_room_def handleCallAccepted_def case_prod_beta)
    qed (use RoomPage dev nr in \<open>simp_all add: client_receive_def lobby_receive_def room_receive_def handleUserJoined_def\<close>)
  qed
  then show ?thesis using client_receive_settled [OF set m nr] by (simp add: client_ok_split)
qed

lemma client_pc_task_ok:
  assumes ok: "client_ok c" and t: "client_pc_task c = Some r"
  shows "client_ok (fst r) \<and> fst (snd r) = []"
proof -
  have set: "ps_settled (svc (ctx c))" and dev: "devices_ok (ctx c)" using ok by (simp_all add: client_ok_def)
  obtain p where p: "peer (svc (ctx c)) = Some p" using set by (auto simp: ps_settled_def)
  obtain e p1 where te: "pc_take_event p = Some (e, p1)"
    using t p by (auto simp: client_pc_task_def split: option.splits)
  have d: "devices_ok (ctx (fst r)) \<and> route (fst r) = route c
      \<and> (route c = LobbyPage \<longrightarrow> live (devs (ctx (fst r))) = live (devs (ctx c)))"
  proof (cases e)
    case (TrackEvent ev)
    then show ?thesis using t p te dev handleTrack_devices_ok [of "(ctx c)\<lparr>svc := \<lparr>peer = Some p1\<rparr>\<rparr>" ev]
      by (auto simp: client_pc_task_def Let_def)
  next
    case NegotiationCheck
    have "pc_settled p" using set p by (auto simp: ps_settled_def)
    then have "pc_settled p1" using pc_settled_take_event te by blast
    then obtain p2 where nt: "nego_task p1 = (p2, False)"
      using pc_settled_nego_task by (cases "nego_task p1") fastforce
    then show ?thesis using t p te NegotiationCheck dev by (auto simp: client_pc_task_def)
  qed
  then show ?thesis using client_pc_task_settled [OF set t] ok by (auto simp: client_ok_split)
qed

lemma client_input_ok:
  assumes ok: "client_ok c" and i: "client_input c u = Some r"
  shows "client_ok (fst r) \<and> outs_ok (fst (snd r))"
proof -
  have set: "ps_settled (svc (ctx c))" and dev: "devices_ok (ctx c)" using ok by (simp_all add: client_ok_def)
  have "devices_ok (ctx (fst r)) \<and> (route (fst r) = LobbyPage \<longrightarrow> live (devs (ctx (fst r))) = [])"
  proof (cases "route c")
    case LobbyPage
    then show ?thesis using ok i by (cases u) (auto simp: client_input_def client_ok_def)
  next
    case (RoomPage x)
    show ?thesis
    proof (cases u)
      case (ClickCall g)
      then have "r = lift_room c (handleCallUser (ctx c) g)"
        using i RoomPage by (simp add: client_input_def split: if_splits)
      then show ?thesis using RoomPage handleCallUser_devices_ok [OF dev, of g] by simp
    next
      case GoBack
      then show ?thesis using i RoomPage navigate_ok [OF ok] by (auto simp: client_input_def client_ok_def)
    qed (use i RoomPage in \<open>simp_all add: client_input_def\<close>)
  qed
  then show ?thesis using client_input_settled [OF set i] by (simp add: client_ok_split)
qed

subsection \<open>Only the validated form emits \<open>room:join\<close>\<close>

lemmas handler_defs = handleCallUser_def handleIncomingCall_def handleCallAccepted_def
  handleNegotiationNeeded_def handleNegotiationIncoming_def handleNegotiationFinal_def

lemma client_receive_joins: "list_all join_out_ok (fst (snd (client_receive c m g)))"
  by (auto simp: client_receive_def lobby_receive_def room_receive_def handler_defs lift_room_def Let_def
      split: route.split in_msg.split prod.split sum.split)

lemma client_pc_task_joins: "client_pc_task c = Some r \<Longrightarrow> list_all join_out_ok (fst (snd r))"
  by (auto simp: client_pc_task_def handler_defs lift_room_def Let_def
      split: option.splits pc_event.splits prod.splits sum.splits if_splits)

lemma client_input_joins: "client_input c u = Some r \<Longrightarrow> list_all join_out_ok (fst (snd r))"
  by (auto simp: client_input_def handler_defs handleSubmitForm_def lift_room_def Let_def
      split: route.splits user_input.splits prod.splits sum.splits if_splits)

end
