(* ===== verification/Relay.thy ===== *)
theory Relay
  imports Socket
begin

text \<open>
  The signalling server: the room directory (specification section 4.1) and the relay
  (section 4.2). Its code is not among the repository's sources, so it is modelled from
  the specification, with the event names the client listens to. A room holds the
  ordered occupants that joined it; a join beyond two is rejected with \<open>RoomFull\<close>
  and evicts no one; the joiner is acknowledged with \<open>room:join\<close> and each earlier
  occupant told \<open>user:joined\<close>. Relayed envelopes are stamped with the sender's id and
  delivered iff the target is connected; otherwise they are dropped without notice.
\<close>

record server =
  rooms :: "room_id \<Rightarrow> sid list option"
  conn :: "sid list"

definition server_init :: server where
  "server_init = \<lparr>rooms = (\<lambda>_. None), conn = []\<rparr>"

definition occupants :: "server \<Rightarrow> room_id \<Rightarrow> sid list" where
  "occupants srv r = (case rooms srv r of None \<Rightarrow> [] | Some os \<Rightarrow> os)"

text \<open>\<open>leave\<close>: idempotent; a room it empties is deleted.\<close>

definition server_leave :: "server \<Rightarrow> sid \<Rightarrow> server" where
  "server_leave srv i =
     srv\<lparr>rooms := (\<lambda>r. case rooms srv r of
                          None \<Rightarrow> None
                        | Some os \<Rightarrow> (let os' = filter (\<lambda>x. x \<noteq> i) os in if os' = [] then None else Some os'))\<rparr>"

definition server_join :: "server \<Rightarrow> sid \<Rightarrow> email \<Rightarrow> room_id \<Rightarrow> server \<times> (sid \<times> in_msg) list" where
  "server_join srv i e r =
     (let os = occupants srv r
      in if i \<in> set os then (srv, [(i, OnRoomJoin e r)])
         else if 2 \<le> length os then (srv, [(i, OnRoomFull r)])
         else (let s1 = server_leave srv i
               in (s1\<lparr>rooms := (rooms s1)(r := Some (os @ [i]))\<rparr>,
                   map (\<lambda>x. (x, OnUserJoined e i)) os @ [(i, OnRoomJoin e r)])))"

definition server_forward :: "server \<Rightarrow> sid option \<Rightarrow> in_msg \<Rightarrow> (sid \<times> in_msg) list" where
  "server_forward srv to m = (case to of Some t \<Rightarrow> if t \<in> set (conn srv) then [(t, m)] else [] | None \<Rightarrow> [])"

definition server_route :: "server \<Rightarrow> sid \<Rightarrow> out_msg \<Rightarrow> server \<times> (sid \<times> in_msg) list" where
  "server_route srv from m =
     (case m of
       EmitRoomJoin e r \<Rightarrow> server_join srv from e r
     | EmitUserCall to offer \<Rightarrow> (srv, server_forward srv to (OnIncomingCall from offer))
     | EmitCallAccepted to ans \<Rightarrow> (srv, server_forward srv (Some to) (OnCallAccepted from ans))
     | EmitNegoNeeded offer to \<Rightarrow> (srv, server_forward srv to (OnNegoNeeded from offer))
     | EmitNegoDone to ans \<Rightarrow> (srv, server_forward srv (Some to) (OnNegoFinal from ans)))"

definition server_connect :: "server \<Rightarrow> sid \<Rightarrow> server" where
  "server_connect srv i = srv\<lparr>conn := conn srv @ [i]\<rparr>"

definition server_disconnect :: "server \<Rightarrow> sid \<Rightarrow> server" where
  "server_disconnect srv i = (server_leave srv i)\<lparr>conn := filter (\<lambda>x. x \<noteq> i) (conn srv)\<rparr>"

subsection \<open>The directory's invariant\<close>

text \<open>
  Every room that exists has one or two distinct occupants, all connected, and no
  participant is in two rooms.
\<close>

definition rooms_ok :: "server \<Rightarrow> bool" where
  "rooms_ok srv \<longleftrightarrow>
     (\<forall>r os. rooms srv r = Some os \<longrightarrow> os \<noteq> [] \<and> length os \<le> 2 \<and> distinct os \<and> set os \<subseteq> set (conn srv))
     \<and> (\<forall>r1 r2 i. i \<in> set (occupants srv r1) \<longrightarrow> i \<in> set (occupants srv r2) \<longrightarrow> r1 = r2)"

lemma occupants_leave: "occupants (server_leave srv i) r = filter (\<lambda>x. x \<noteq> i) (occupants srv r)"
  by (auto simp: occupants_def server_leave_def Let_def split: option.splits)

lemma rooms_ok_init: "rooms_ok server_init"
  by (simp add: rooms_ok_def server_init_def occupants_def)

lemma rooms_leave_Some:
  "rooms (server_leave srv i) r = Some os \<Longrightarrow>
     \<exists>os0. rooms srv r = Some os0 \<and> os = filter (\<lambda>x. x \<noteq> i) os0 \<and> os \<noteq> []"
  by (auto simp: server_leave_def Let_def split: option.splits if_splits)

lemma rooms_ok_leave:
  assumes "rooms_ok srv"
  shows "rooms_ok (server_leave srv i)"
proof -
  have "(\<forall>r os. rooms (server_leave srv i) r = Some os \<longrightarrow>
      os \<noteq> [] \<and> length os \<le> 2 \<and> distinct os \<and> set os \<subseteq> set (conn (server_leave srv i)))"
  proof (intro allI impI)
    fix r os
    assume "rooms (server_leave srv i) r = Some os"
    then obtain os0 where "rooms srv r = Some os0" "os = filter (\<lambda>x. x \<noteq> i) os0" "os \<noteq> []"
      using rooms_leave_Some by blast
    moreover have "length os0 \<le> 2 \<and> distinct os0 \<and> set os0 \<subseteq> set (conn srv)"
      using assms \<open>rooms srv r = Some os0\<close> by (auto simp: rooms_ok_def)
    ultimately show "os \<noteq> [] \<and> length os \<le> 2 \<and> distinct os \<and> set os \<subseteq> set (conn (server_leave srv i))"
      by (auto simp: server_leave_def intro: le_trans [OF length_filter_le])
  qed
  then show ?thesis using assms by (auto simp: rooms_ok_def occupants_leave)
qed

lemma rooms_ok_join:
  assumes "rooms_ok srv" and "i \<in> set (conn srv)"
  shows "rooms_ok (fst (server_join srv i e r))"
proof -
  let ?os = "occupants srv r"
  show ?thesis
  proof (cases "i \<in> set ?os \<or> 2 \<le> length ?os")
    case True
    then have "fst (server_join srv i e r) = srv" by (auto simp: server_join_def Let_def)
    then show ?thesis using assms(1) by simp
  next
    case False
    let ?s1 = "server_leave srv i"
    have ok1: "rooms_ok ?s1" using assms(1) by (rule rooms_ok_leave)
    have occ1: "occupants ?s1 r = ?os" using False by (auto simp: occupants_leave filter_id_conv)
    have "\<forall>os. rooms srv r = Some os \<longrightarrow> distinct os \<and> set os \<subseteq> set (conn srv)"
      using assms(1) by (simp add: rooms_ok_def)
    then have dist: "distinct ?os" and sub: "set ?os \<subseteq> set (conn srv)"
      by (cases "rooms srv r"; simp add: occupants_def)+
    have notin: "\<And>r'. r' \<noteq> r \<Longrightarrow> i \<notin> set (occupants ?s1 r')"
      by (simp add: occupants_leave)
    have res: "fst (server_join srv i e r) = ?s1\<lparr>rooms := (rooms ?s1)(r := Some (?os @ [i]))\<rparr>"
      using False by (simp add: server_join_def Let_def)
    let ?s2 = "?s1\<lparr>rooms := (rooms ?s1)(r := Some (?os @ [i]))\<rparr>"
    have A: "\<forall>r' os. rooms ?s2 r' = Some os \<longrightarrow> os \<noteq> [] \<and> length os \<le> 2 \<and> distinct os
        \<and> set os \<subseteq> set (conn ?s2)"
      using ok1 False dist sub assms(2)
      by (auto simp: rooms_ok_def server_leave_def split: if_splits)
    have occ2: "\<And>r'. occupants ?s2 r' = (if r' = r then ?os @ [i] else occupants ?s1 r')"
      by (simp add: occupants_def)
    have uniq1: "\<And>r1 r2 x. x \<in> set (occupants ?s1 r1) \<Longrightarrow> x \<in> set (occupants ?s1 r2) \<Longrightarrow> r1 = r2"
      using ok1 by (simp add: rooms_ok_def)
    have B: "\<forall>r1 r2 x. x \<in> set (occupants ?s2 r1) \<longrightarrow> x \<in> set (occupants ?s2 r2) \<longrightarrow> r1 = r2"
    proof (intro allI impI)
      fix r1 r2 x
      assume x1: "x \<in> set (occupants ?s2 r1)" and x2: "x \<in> set (occupants ?s2 r2)"
      show "r1 = r2"
      proof (cases "x = i")
        case True
        then show ?thesis using x1 x2 notin by (auto simp: occ2 split: if_splits)
      next
        case False
        then have "x \<in> set (occupants ?s1 r1)" "x \<in> set (occupants ?s1 r2)"
          using x1 x2 occ1 by (auto simp: occ2 split: if_splits)
        then show ?thesis by (rule uniq1)
      qed
    qed
    show ?thesis
      unfolding res rooms_ok_def using A B by blast
  qed
qed

lemma rooms_ok_route:
  "rooms_ok srv \<Longrightarrow> i \<in> set (conn srv) \<Longrightarrow> rooms_ok (fst (server_route srv i m))"
  by (cases m) (simp_all add: server_route_def rooms_ok_join)

lemma rooms_ok_connect: "rooms_ok srv \<Longrightarrow> rooms_ok (server_connect srv i)"
  by (auto simp: rooms_ok_def server_connect_def occupants_def)

lemma rooms_ok_disconnect:
  assumes "rooms_ok srv"
  shows "rooms_ok (server_disconnect srv i)"
proof -
  have ok1: "rooms_ok (server_leave srv i)" using assms by (rule rooms_ok_leave)
  have "\<And>r os. rooms (server_leave srv i) r = Some os \<Longrightarrow> i \<notin> set os"
    using rooms_leave_Some by fastforce
  then show ?thesis
    using ok1 unfolding rooms_ok_def server_disconnect_def
    by (auto simp: server_leave_def occupants_def) blast+
qed

lemma conn_route [simp]: "conn (fst (server_route srv i m)) = conn srv"
  by (cases m) (simp_all add: server_route_def server_join_def server_leave_def Let_def)

text \<open>The relay forwards well-typed payloads only, and renegotiation only as renegotiation.\<close>

lemma server_route_msgs:
  assumes "out_ok m" and "\<not> reneg_out m"
  shows "list_all (\<lambda>(t, m'). in_ok m' \<and> \<not> reneg_in m') (snd (server_route srv i m))"
  using assms
  by (cases m) (auto simp: server_route_def server_forward_def server_join_def Let_def
      list_all_iff split: option.splits)

end
