(* ===== verification/System.thy ===== *)
theory System
  imports Client Relay
begin

text \<open>
  The whole system: the server, the connected browser tabs (a map from socket id to
  client), and for every socket the two FIFO queues of socket.io: events a client has
  emitted and the server has not yet handled (\<open>up\<close>), and events the server has sent
  and the client has not yet handled (\<open>down\<close>). One step is one of: a tab connects or
  disconnects, a user acts, the server handles the oldest event of one client, a client
  handles its oldest incoming event, or a client's page runs the engine's oldest task.
  The environment's choices (which step, whether capture is granted) are the step's
  arguments, so the step is a function and a run is a list of events.
\<close>

record sys =
  srv :: server
  clients :: "sid \<Rightarrow> client option"
  up :: "sid \<Rightarrow> out_msg list"
  down :: "sid \<Rightarrow> in_msg list"

definition sys_init :: sys where
  "sys_init = \<lparr>srv = server_init, clients = (\<lambda>_. None), up = (\<lambda>_. []), down = (\<lambda>_. [])\<rparr>"

datatype sys_event =
    Connect sid
  | Disconnect sid
  | Input sid user_input
  | ServerRecv sid
  | ClientRecv sid gum_outcome
  | PcTask sid

fun deliver :: "(sid \<Rightarrow> in_msg list) \<Rightarrow> (sid \<times> in_msg) list \<Rightarrow> (sid \<Rightarrow> in_msg list)" where
  "deliver q [] = q"
| "deliver q ((t, m) # ds) = deliver (q(t := q t @ [m])) ds"

definition client_done :: "sys \<Rightarrow> sid \<Rightarrow> client_result \<Rightarrow> sys" where
  "client_done s i r = (case r of (c', out, _) \<Rightarrow> s\<lparr>clients := (clients s)(i := Some c'), up := (up s)(i := up s i @ out)\<rparr>)"

fun sys_step :: "sys \<Rightarrow> sys_event \<Rightarrow> sys option" where
  "sys_step s (Connect i) =
     (if i \<in> set (conn (srv s)) \<or> clients s i \<noteq> None then None
      else Some (s\<lparr>srv := server_connect (srv s) i, clients := (clients s)(i := Some client_init),
                   up := (up s)(i := []), down := (down s)(i := [])\<rparr>))"
| "sys_step s (Disconnect i) =
     (case clients s i of
       None \<Rightarrow> None
     | Some c \<Rightarrow> Some (s\<lparr>srv := server_disconnect (srv s) i, clients := (clients s)(i := None),
                         up := (up s)(i := []), down := (down s)(i := [])\<rparr>))"
| "sys_step s (Input i u) =
     (case clients s i of
       None \<Rightarrow> None
     | Some c \<Rightarrow> map_option (client_done s i) (client_input c u))"
| "sys_step s (ServerRecv i) =
     (case up s i of
       [] \<Rightarrow> None
     | m # ms \<Rightarrow>
         (let (srv', ds) = server_route (srv s) i m
          in Some (s\<lparr>srv := srv', up := (up s)(i := ms), down := deliver (down s) ds\<rparr>)))"
| "sys_step s (ClientRecv i g) =
     (case (clients s i, down s i) of
       (Some c, m # ms) \<Rightarrow> Some (client_done (s\<lparr>down := (down s)(i := ms)\<rparr>) i (client_receive c m g))
     | _ \<Rightarrow> None)"
| "sys_step s (PcTask i) =
     (case clients s i of
       None \<Rightarrow> None
     | Some c \<Rightarrow> map_option (client_done s i) (client_pc_task c))"

fun run :: "sys \<Rightarrow> sys_event list \<Rightarrow> sys option" where
  "run s [] = Some s"
| "run s (e # es) = (case sys_step s e of None \<Rightarrow> None | Some s' \<Rightarrow> run s' es)"

inductive reachable :: "sys \<Rightarrow> bool" where
  init: "reachable sys_init"
| step: "reachable s \<Longrightarrow> sys_step s e = Some s' \<Longrightarrow> reachable s'"

subsection \<open>The system invariant\<close>

text \<open>
  The part that holds whatever the capture devices do: the directory is well formed,
  the tabs are the connected sockets, every tab's connection is settled, and the queues
  hold well-formed messages and no renegotiation. The full invariant adds, per tab,
  that the capture devices are accounted for (\<open>client_ok\<close>).
\<close>

definition sys_inv_weak :: "sys \<Rightarrow> bool" where
  "sys_inv_weak s \<longleftrightarrow> rooms_ok (srv s)
     \<and> (\<forall>i. (clients s i \<noteq> None) = (i \<in> set (conn (srv s))))
     \<and> (\<forall>i c. clients s i = Some c \<longrightarrow> ps_settled (svc (ctx c)))
     \<and> (\<forall>i. up s i \<noteq> [] \<longrightarrow> clients s i \<noteq> None)
     \<and> (\<forall>i. outs_ok (up s i))
     \<and> (\<forall>i. list_all (\<lambda>m. in_ok m \<and> \<not> reneg_in m) (down s i))"

definition sys_inv :: "sys \<Rightarrow> bool" where
  "sys_inv s \<longleftrightarrow> sys_inv_weak s \<and> (\<forall>i c. clients s i = Some c \<longrightarrow> client_ok c)"

text \<open>Every e-mail in transit passed the Lobby form's validation.\<close>

definition joins_ok :: "sys \<Rightarrow> bool" where
  "joins_ok s \<longleftrightarrow> (\<forall>i. list_all join_out_ok (up s i) \<and> list_all join_in_ok (down s i))"

lemma deliver_all:
  "(\<forall>j. list_all P (q j)) \<Longrightarrow> list_all (\<lambda>(t, m). P m) ds \<Longrightarrow> (\<forall>j. list_all P (deliver q ds j))"
  by (induction q ds rule: deliver.induct) auto

lemma outs_ok_append [simp]: "outs_ok (xs @ ys) \<longleftrightarrow> outs_ok xs \<and> outs_ok ys"
  by (auto simp: outs_ok_def)

lemma outs_ok_Cons: "outs_ok (m # ms) \<Longrightarrow> out_ok m \<and> \<not> reneg_out m \<and> outs_ok ms"
  by (simp add: outs_ok_def)

lemma sys_inv_init: "sys_inv sys_init"
  using client_init_ok
  by (simp add: sys_inv_def sys_inv_weak_def sys_init_def server_init_def rooms_ok_def occupants_def outs_ok_def)

lemma sys_inv_weak_client_done:
  assumes inv: "sys_inv_weak s" and ci: "clients s i = Some c"
    and ok: "ps_settled (svc (ctx (fst r)))" and out: "outs_ok (fst (snd r))"
  shows "sys_inv_weak (client_done s i r)"
proof -
  obtain c' out' e where r: "r = (c', out', e)" by (cases r)
  have "i \<in> set (conn (srv s))" using inv ci by (auto simp: sys_inv_weak_def)
  then show ?thesis using inv ok out r by (auto simp: sys_inv_weak_def client_done_def)
qed

lemma sys_step_weak:
  assumes inv: "sys_inv_weak s" and st: "sys_step s e = Some s'"
  shows "sys_inv_weak s'"
proof (cases e)
  case (Connect i)
  then have "i \<notin> set (conn (srv s))" and "clients s i = None" and
    s': "s' = s\<lparr>srv := server_connect (srv s) i, clients := (clients s)(i := Some client_init),
            up := (up s)(i := []), down := (down s)(i := [])\<rparr>"
    using st by (auto split: if_splits)
  then show ?thesis using inv client_init_ok rooms_ok_connect
    by (auto simp: sys_inv_weak_def server_connect_def outs_ok_def client_ok_def)
next
  case (Disconnect i)
  then obtain c where "clients s i = Some c" and
    s': "s' = s\<lparr>srv := server_disconnect (srv s) i, clients := (clients s)(i := None),
            up := (up s)(i := []), down := (down s)(i := [])\<rparr>"
    using st by (auto split: option.splits)
  then show ?thesis using inv rooms_ok_disconnect
    by (auto simp: sys_inv_weak_def server_disconnect_def server_leave_def outs_ok_def)
next
  case (Input i u)
  then obtain c r where ci: "clients s i = Some c" and inp: "client_input c u = Some r"
    and s': "s' = client_done s i r"
    using st by (auto split: option.splits)
  have "ps_settled (svc (ctx c))" using inv ci by (simp add: sys_inv_weak_def)
  then show ?thesis using sys_inv_weak_client_done [OF inv ci] client_input_settled inp s' by blast
next
  case (ServerRecv i)
  then obtain m ms where u: "up s i = m # ms" using st by (cases "up s i") auto
  obtain srv' ds where sr: "server_route (srv s) i m = (srv', ds)" by (cases "server_route (srv s) i m")
  have s': "s' = s\<lparr>srv := srv', up := (up s)(i := ms), down := deliver (down s) ds\<rparr>"
    using st ServerRecv u sr by simp
  have conn_i: "i \<in> set (conn (srv s))" using inv u by (auto simp: sys_inv_weak_def)
  have "outs_ok (up s i)" using inv by (simp add: sys_inv_weak_def)
  then have mo: "out_ok m" "\<not> reneg_out m" "outs_ok ms"
    using u by (simp_all add: outs_ok_def)
  have r1: "rooms_ok srv'" using rooms_ok_route [of "srv s" i m] inv conn_i sr by (simp add: sys_inv_weak_def)
  have c1: "conn srv' = conn (srv s)" using conn_route [of "srv s" i m] sr by simp
  have ds: "list_all (\<lambda>(t, m'). in_ok m' \<and> \<not> reneg_in m') ds"
    using server_route_msgs [OF mo(1,2), of "srv s" i] sr by simp
  have dn: "\<forall>j. list_all (\<lambda>m. in_ok m \<and> \<not> reneg_in m) (deliver (down s) ds j)"
    using inv ds by (intro deliver_all) (auto simp: sys_inv_weak_def)
  show ?thesis using inv s' r1 c1 dn mo(3) conn_i by (auto simp: sys_inv_weak_def)
next
  case (ClientRecv i g)
  then obtain c m ms where ci: "clients s i = Some c" and d: "down s i = m # ms"
    and s': "s' = client_done (s\<lparr>down := (down s)(i := ms)\<rparr>) i (client_receive c m g)"
    using st by (auto split: option.splits list.splits)
  have dl: "list_all (\<lambda>m. in_ok m \<and> \<not> reneg_in m) (down s i)" using inv by (simp add: sys_inv_weak_def)
  have inv': "sys_inv_weak (s\<lparr>down := (down s)(i := ms)\<rparr>)" using inv d dl by (auto simp: sys_inv_weak_def)
  have "ps_settled (svc (ctx c))" and "in_ok m" and "\<not> reneg_in m"
    using inv ci d dl by (auto simp: sys_inv_weak_def)
  then show ?thesis
    using sys_inv_weak_client_done [OF inv', of i c] ci s' client_receive_settled by simp
next
  case (PcTask i)
  then obtain c r where ci: "clients s i = Some c" and t: "client_pc_task c = Some r"
    and s': "s' = client_done s i r"
    using st by (auto split: option.splits)
  have "ps_settled (svc (ctx c))" using inv ci by (simp add: sys_inv_weak_def)
  then have "ps_settled (svc (ctx (fst r)))" and "fst (snd r) = []" using client_pc_task_settled t by blast+
  then show ?thesis using sys_inv_weak_client_done [OF inv ci] s' by (simp add: outs_ok_def)
qed

lemma client_done_clients:
  "(\<forall>j c. clients s j = Some c \<longrightarrow> client_ok c) \<Longrightarrow> client_ok (fst r) \<Longrightarrow>
   (\<forall>j c. clients (client_done s i r) j = Some c \<longrightarrow> client_ok c)"
  by (cases r) (simp add: client_done_def)

lemma sys_step_clients:
  assumes inv: "sys_inv s" and st: "sys_step s e = Some s'"
  shows "\<forall>i c. clients s' i = Some c \<longrightarrow> client_ok c"
proof -
  have all: "\<forall>i c. clients s i = Some c \<longrightarrow> client_ok c" using inv by (simp add: sys_inv_def)
  have down: "\<forall>i. list_all (\<lambda>m. in_ok m \<and> \<not> reneg_in m) (down s i)"
    using inv by (simp add: sys_inv_def sys_inv_weak_def)
  show ?thesis
  proof (cases e)
    case (Connect i)
    then show ?thesis using st all client_init_ok by (auto split: if_splits)
  next
    case (Disconnect i)
    then show ?thesis using st all by (auto split: option.splits if_splits)
  next
    case (Input i u)
    then obtain c r where "clients s i = Some c" "client_input c u = Some r" "s' = client_done s i r"
      using st by (auto split: option.splits)
    then show ?thesis using all client_input_ok client_done_clients by metis
  next
    case (ServerRecv i)
    then show ?thesis using st all by (auto split: list.splits prod.splits)
  next
    case (ClientRecv i g)
    then obtain c m ms where ci: "clients s i = Some c" and d: "down s i = m # ms"
      and s': "s' = client_done (s\<lparr>down := (down s)(i := ms)\<rparr>) i (client_receive c m g)"
      using st by (auto split: option.splits list.splits)
    have "in_ok m" "\<not> reneg_in m" using down d by (auto dest: spec [of _ i])
    then have "client_ok (fst (client_receive c m g))" using client_receive_ok all ci by blast
    then show ?thesis using s' all client_done_clients [of "s\<lparr>down := (down s)(i := ms)\<rparr>"] by simp
  next
    case (PcTask i)
    then obtain c r where "clients s i = Some c" "client_pc_task c = Some r" "s' = client_done s i r"
      using st by (auto split: option.splits)
    then show ?thesis using all client_pc_task_ok client_done_clients by metis
  qed
qed

lemma sys_step_inv: "sys_inv s \<Longrightarrow> sys_step s e = Some s' \<Longrightarrow> sys_inv s'"
proof -
  assume inv: "sys_inv s" and st: "sys_step s e = Some s'"
  have "sys_inv_weak s" using inv by (simp add: sys_inv_def)
  then have "sys_inv_weak s'" using st by (rule sys_step_weak)
  then show ?thesis using sys_step_clients [OF inv st] by (simp add: sys_inv_def)
qed

lemma reachable_sys_inv: "reachable s \<Longrightarrow> sys_inv s"
proof (induction rule: reachable.induct)
  case init
  show ?case by (rule sys_inv_init)
next
  case (step s e s')
  then show ?case by (blast intro: sys_step_inv)
qed

lemma run_reachable: "reachable s \<Longrightarrow> run s es = Some s' \<Longrightarrow> reachable s'"
proof (induction es arbitrary: s)
  case Nil
  then show ?case by simp
next
  case (Cons e es)
  then obtain s1 where "sys_step s e = Some s1" "run s1 es = Some s'"
    by (auto split: option.splits)
  then show ?case using Cons reachable.step by blast
qed

subsection \<open>E-mails in transit\<close>

lemma server_route_joins:
  "join_out_ok m \<Longrightarrow> list_all (\<lambda>(t, m'). join_in_ok m') (snd (server_route sv i m))"
  by (auto simp: server_route_def server_join_def server_forward_def Let_def list_all_iff
      split: out_msg.splits option.splits)

lemma joins_ok_client_done:
  "joins_ok s \<Longrightarrow> list_all join_out_ok (fst (snd r)) \<Longrightarrow> joins_ok (client_done s i r)"
  by (cases r) (simp add: joins_ok_def client_done_def)

lemma sys_step_joins:
  assumes inv: "joins_ok s" and st: "sys_step s e = Some s'"
  shows "joins_ok s'"
proof (cases e)
  case (ServerRecv i)
  then obtain m ms where u: "up s i = m # ms" using st by (cases "up s i") auto
  obtain srv' ds where sr: "server_route (srv s) i m = (srv', ds)" by (cases "server_route (srv s) i m")
  have s': "s' = s\<lparr>srv := srv', up := (up s)(i := ms), down := deliver (down s) ds\<rparr>"
    using st ServerRecv u sr by simp
  have m: "join_out_ok m" "list_all join_out_ok ms" using inv u by (auto simp: joins_ok_def dest: spec [of _ i])
  have "list_all (\<lambda>(t, m'). join_in_ok m') ds" using server_route_joins [OF m(1), of "srv s" i] sr by simp
  then have "\<forall>j. list_all join_in_ok (deliver (down s) ds j)"
    using inv by (intro deliver_all) (auto simp: joins_ok_def)
  then show ?thesis using inv s' m(2) by (auto simp: joins_ok_def)
next
  case (ClientRecv i g)
  then obtain c m ms where ci: "clients s i = Some c" and d: "down s i = m # ms"
    and s': "s' = client_done (s\<lparr>down := (down s)(i := ms)\<rparr>) i (client_receive c m g)"
    using st by (auto split: option.splits list.splits)
  have "joins_ok (s\<lparr>down := (down s)(i := ms)\<rparr>)" using inv d by (auto simp: joins_ok_def dest: spec [of _ i])
  then show ?thesis using s' joins_ok_client_done client_receive_joins by blast
next
  case (Input i u)
  then obtain c r where "client_input c u = Some r" and "s' = client_done s i r"
    using st by (auto split: option.splits)
  then show ?thesis using joins_ok_client_done [OF inv] client_input_joins by blast
next
  case (PcTask i)
  then obtain c r where "client_pc_task c = Some r" and "s' = client_done s i r"
    using st by (auto split: option.splits)
  then show ?thesis using joins_ok_client_done [OF inv] client_pc_task_joins by blast
qed (use inv st in \<open>auto simp: joins_ok_def split: if_splits option.splits\<close>)

lemma reachable_joins_ok: "reachable s \<Longrightarrow> joins_ok s"
proof (induction rule: reachable.induct)
  case init
  show ?case by (simp add: joins_ok_def sys_init_def)
next
  case (step s e s')
  then show ?case by (blast intro: sys_step_joins)
qed

end
