(* ===== verification/CallSpec.thy ===== *)
theory CallSpec
  imports Client
begin

text \<open>
  The call state machine of the specification (section 4.4) as an abstract step
  relation, and its relation to the Room page. The abstract state of a tab is read off
  its connection: the signalling state and whether a remote description was ever
  applied tell an idle connection from a connected one and a first offer from a
  renegotiation offer. The lemmas show which transitions of the specification the
  handlers implement and where the code does something else.
\<close>

datatype call_state = Idle | Offering | Answering | Connected | Negotiating | Terminated

datatype call_trigger =
    LocalCall
  | RemoteOffer
  | RemoteAnswer
  | LocalRenegotiation
  | RemoteRenegOffer
  | RemoteRenegAnswer
  | EndCall

text \<open>
  The transition table of section 4.4. An incoming call is answered optimistically, so
  \<open>Answering\<close> is left at once; a renegotiation offer arriving while the own one is
  outstanding is answered normally and the own cycle goes on; ending the call, from any
  state but \<open>Terminated\<close>, terminates it, and \<open>Terminated\<close> is absorbing.
\<close>

inductive call_step :: "call_state \<Rightarrow> call_trigger \<Rightarrow> call_state \<Rightarrow> bool" where
  call: "call_step Idle LocalCall Offering"
| answer: "call_step Idle RemoteOffer Connected"
| accepted: "call_step Offering RemoteAnswer Connected"
| reneg: "call_step Connected LocalRenegotiation Negotiating"
| reneg_answer: "call_step Connected RemoteRenegOffer Connected"
| reneg_answer_self: "call_step Negotiating RemoteRenegOffer Negotiating"
| reneg_done: "call_step Negotiating RemoteRenegAnswer Connected"
| end_call: "s \<noteq> Terminated \<Longrightarrow> call_step s EndCall Terminated"

code_pred call_step .

inductive_cases call_step_TerminatedE: "call_step Terminated t s"

inductive_simps call_step_Idle: "call_step Idle t s"
inductive_simps call_step_Connected: "call_step Connected t s"
inductive_simps call_step_Negotiating: "call_step Negotiating t s"

text \<open>The abstract state of a connection and of a Room page.\<close>

definition call_of :: "pc \<Rightarrow> call_state" where
  "call_of p =
     (case signaling p of
       Stable \<Rightarrow> if remote_desc p = None then Idle else Connected
     | HaveLocalOffer \<Rightarrow> if remote_desc p = None then Offering else Negotiating
     | HaveRemoteOffer \<Rightarrow> Answering)"

definition call_abs :: "room_ctx \<Rightarrow> call_state" where
  "call_abs c = (case peer (svc c) of None \<Rightarrow> Idle | Some p \<Rightarrow> call_of p)"

text \<open>The trigger a socket event is for the call state machine.\<close>

fun msg_trigger :: "in_msg \<Rightarrow> call_trigger option" where
  "msg_trigger (OnIncomingCall f offer) = Some RemoteOffer"
| "msg_trigger (OnCallAccepted f ans) = Some RemoteAnswer"
| "msg_trigger (OnNegoNeeded f offer) = Some RemoteRenegOffer"
| "msg_trigger (OnNegoFinal f ans) = Some RemoteRenegAnswer"
| "msg_trigger _ = None"

text \<open>A tab showing room \<open>42\<close> with a fresh connection, used to instantiate the lemmas.\<close>

definition room_client0 :: client where
  "room_client0 = client_init\<lparr>route := RoomPage ''42'', ctx := room_ctx0\<rparr>"

text \<open>The callee's page after answering an offer, and after then pressing Call itself.\<close>

definition offer0 :: sdesc where
  "offer0 = \<lparr>sd_type = Offer, sd_serial = 1, sd_tracks = [(1, Some 0)]\<rparr>"

definition connected_ctx0 :: room_ctx where
  "connected_ctx0 = fst (handleIncomingCall room_ctx0 ''A'' (Some offer0) Granted)"

definition negotiating_ctx0 :: room_ctx where
  "negotiating_ctx0 = fst (handleCallUser connected_ctx0 Granted)"

subsection \<open>The abstract machine\<close>

lemma call_step_deterministic: "call_step s t s1 \<Longrightarrow> call_step s t s2 \<Longrightarrow> s1 = s2"
  by (induction rule: call_step.induct) (auto elim: call_step.cases)

lemma call_step_Terminated_absorbing: "\<not> call_step Terminated t s"
  by (auto elim: call_step_TerminatedE)

subsection \<open>What each handler does to the abstract state\<close>

lemma call_abs_svc [simp]: "peer ps = Some p \<Longrightarrow> call_abs (c\<lparr>svc := ps\<rparr>) = call_of p"
  by (simp add: call_abs_def)

lemma call_of_offer:
  "signaling p' = HaveLocalOffer \<Longrightarrow> remote_desc p' = remote_desc p \<Longrightarrow>
   call_of p' = (if remote_desc p = None then Offering else Negotiating)"
  by (simp add: call_of_def)

lemma call_of_stable_remote: "signaling p' = Stable \<Longrightarrow> remote_desc p' = Some d \<Longrightarrow> call_of p' = Connected"
  by (simp add: call_of_def)

lemma getOffer_view:
  assumes "peer ps = Some p" and "signaling p \<noteq> HaveRemoteOffer"
  shows "\<exists>p' ofr. getOffer ps = (ps\<lparr>peer := Some p'\<rparr>, Inr (Some ofr))
     \<and> signaling p' = HaveLocalOffer \<and> remote_desc p' = remote_desc p"
  using getOffer_eq [OF assms] by (intro exI [of _ "p\<lparr>offer_count := Suc (offer_count p), signaling := HaveLocalOffer,
      local_desc := Some \<lparr>sd_type = Offer, sd_serial = Suc (offer_count p), sd_tracks = media_of p\<rparr>\<rparr>"]) simp

lemma getAnswer_view:
  assumes "peer ps = Some p" and "sd_type d = Offer"
  shows "\<exists>p' a. getAnswer ps (Some d) = (ps\<lparr>peer := Some p'\<rparr>, Inr (Some a))
     \<and> signaling p' = Stable \<and> remote_desc p' = Some d"
proof (cases "signaling p = HaveLocalOffer")
  case True
  then show ?thesis using assms
    by (fastforce simp: getAnswer_def to_session_description_def pc_setRemoteDescription_def
        pc_createAnswer_def pc_setLocalDescription_def pc_rollback_def Let_def)
next
  case False
  then show ?thesis using getAnswer_eq [OF assms(1) False assms(2)] by fastforce
qed

lemma setRemoteDescription_view:
  assumes "peer ps = Some p" and "signaling p = HaveLocalOffer" and "sd_type a = Answer"
  shows "\<exists>p'. setRemoteDescription ps (Some a) = (ps\<lparr>peer := Some p'\<rparr>, Inr ())
     \<and> signaling p' = Stable \<and> remote_desc p' = Some a"
  using assms by (intro exI [of _ "pc_update_nego (deliver_tracks (p\<lparr>signaling := Stable, remote_desc := Some a,
      current_local := local_desc p\<rparr>) (sd_tracks a))"])
    (simp add: setRemoteDescription_def to_session_description_def pc_setRemoteDescription_def)

lemma handleCallUser_view:
  assumes p: "peer (svc c) = Some p" and s: "signaling p \<noteq> HaveRemoteOffer"
  shows "\<exists>c' p' ofr. handleCallUser c Granted = (c', [EmitUserCall (remoteSocketId (rs c)) (Some ofr)], None)
     \<and> peer (svc c') = Some p' \<and> signaling p' = HaveLocalOffer \<and> remote_desc p' = remote_desc p"
proof -
  define st where "st = \<lparr>ms_id = next_id (devs c), ms_tracks = [Suc (next_id (devs c)), Suc (Suc (next_id (devs c)))]\<rparr>"
  obtain p1 where p1: "peer (room_add_tracks (svc c) st) = Some p1" "signaling p1 = signaling p"
      "remote_desc p1 = remote_desc p"
    using room_add_tracks_result [OF p, of st] by blast
  obtain p2 ofr where o: "getOffer (room_add_tracks (svc c) st) = ((room_add_tracks (svc c) st)\<lparr>peer := Some p2\<rparr>, Inr (Some ofr))"
      "signaling p2 = HaveLocalOffer" "remote_desc p2 = remote_desc p1"
    using getOffer_view [OF p1(1)] p1(2) s by auto
  show ?thesis
    using o p1 by (simp add: handleCallUser_def getUserMedia_granted st_def)
qed

lemma call_abs_handleCallUser:
  assumes p: "peer (svc c) = Some p" and s: "signaling p \<noteq> HaveRemoteOffer"
  shows "call_abs (fst (handleCallUser c Granted)) = (if remote_desc p = None then Offering else Negotiating)"
  using handleCallUser_view [OF p s] by (auto simp: call_abs_def call_of_def)

lemma call_abs_handleNegotiationNeeded:
  assumes p: "peer (svc c) = Some p" and s: "signaling p \<noteq> HaveRemoteOffer"
  shows "call_abs (fst (handleNegotiationNeeded c)) = (if remote_desc p = None then Offering else Negotiating)"
proof -
  obtain p2 ofr where o: "getOffer (svc c) = ((svc c)\<lparr>peer := Some p2\<rparr>, Inr (Some ofr))"
      "signaling p2 = HaveLocalOffer" "remote_desc p2 = remote_desc p"
    using getOffer_view [OF p s] by blast
  then show ?thesis by (simp add: handleNegotiationNeeded_def call_of_offer)
qed

lemma call_abs_handleIncomingCall:
  assumes p: "peer (svc c) = Some p" and d: "sd_type d = Offer"
  shows "call_abs (fst (handleIncomingCall c from (Some d) Granted)) = Connected"
proof -
  define st where "st = \<lparr>ms_id = next_id (devs c), ms_tracks = [Suc (next_id (devs c)), Suc (Suc (next_id (devs c)))]\<rparr>"
  obtain p1 where p1: "peer (room_add_tracks (svc c) st) = Some p1"
    using room_add_tracks_result [OF p, of st] by blast
  obtain p2 a where o: "getAnswer (room_add_tracks (svc c) st) (Some d) = ((room_add_tracks (svc c) st)\<lparr>peer := Some p2\<rparr>, Inr (Some a))"
      "signaling p2 = Stable" "remote_desc p2 = Some d"
    using getAnswer_view [OF p1 d] by blast
  show ?thesis
    using o by (simp add: handleIncomingCall_def getUserMedia_granted st_def call_of_stable_remote)
qed

lemma call_abs_handleNegotiationIncoming:
  assumes p: "peer (svc c) = Some p" and d: "sd_type d = Offer"
  shows "call_abs (fst (handleNegotiationIncoming c from (Some d))) = Connected"
proof -
  obtain p2 a where o: "getAnswer (svc c) (Some d) = ((svc c)\<lparr>peer := Some p2\<rparr>, Inr (Some a))"
      "signaling p2 = Stable" "remote_desc p2 = Some d"
    using getAnswer_view [OF p d] by blast
  then show ?thesis by (simp add: handleNegotiationIncoming_def call_of_stable_remote)
qed

lemma call_abs_answer_handlers:
  assumes p: "peer (svc c) = Some p" and s: "signaling p = HaveLocalOffer" and a: "sd_type a = Answer"
  shows "call_abs (fst (handleCallAccepted c (Some a))) = Connected
     \<and> call_abs (fst (handleNegotiationFinal c (Some a))) = Connected"
proof -
  obtain p' where o: "setRemoteDescription (svc c) (Some a) = ((svc c)\<lparr>peer := Some p'\<rparr>, Inr ())"
      "signaling p' = Stable" "remote_desc p' = Some a"
    using setRemoteDescription_view [OF p s a] by blast
  then show ?thesis by (simp add: handleCallAccepted_def handleNegotiationFinal_def call_of_stable_remote)
qed

lemma call_of_never_terminated: "call_of p \<noteq> Terminated"
  by (simp add: call_of_def split: signaling_state.split)

lemma call_abs_never_terminated: "call_abs c \<noteq> Terminated"
  by (simp add: call_abs_def call_of_never_terminated split: option.split)

lemma settled_pc:
  "ps_settled (svc c) \<Longrightarrow> \<exists>p. peer (svc c) = Some p \<and> signaling p \<noteq> HaveRemoteOffer \<and> call_abs c = call_of p"
  by (auto simp: ps_settled_def pc_settled_def call_abs_def)

lemma call_of_cases:
  "call_of p = Idle \<longleftrightarrow> signaling p = Stable \<and> remote_desc p = None"
  "call_of p = Connected \<longleftrightarrow> signaling p = Stable \<and> remote_desc p \<noteq> None"
  "call_of p = Offering \<longleftrightarrow> signaling p = HaveLocalOffer \<and> remote_desc p = None"
  "call_of p = Negotiating \<longleftrightarrow> signaling p = HaveLocalOffer \<and> remote_desc p \<noteq> None"
  by (simp_all add: call_of_def split: signaling_state.split)

lemma lift_room_ctx [simp]: "ctx (fst (lift_room c r)) = fst r"
  by (simp add: lift_room_def split: prod.split)

lemma room_client0_ok: "client_ok room_client0"
proof -
  have "pc_settled (pc_init stun_servers)"
    by (simp add: pc_settled_def pc_init_def media_of_def)
  then show ?thesis
    by (simp add: room_client0_def client_init_def room_ctx0_def client_ok_def devices_ok_def
        stream_tracks_def room_init_def ps_settled_def peer_module_def PeerService_ctor_def pc_wf_init)
qed

subsection \<open>Refinement\<close>

text \<open>
  C18. The socket listeners of the Room page implement the call state machine: when a
  well-formed call or renegotiation message arrives and the specification has a
  transition for it from the tab's abstract state, the tab ends in the state the
  specification prescribes (capture granted). The one exception, a renegotiation offer
  while the tab's own renegotiation offer is outstanding, is C20.
\<close>

theorem client_receive_refines_call_step:
  assumes ok: "client_ok c" and rt: "route c = RoomPage r" and m: "in_ok m"
    and t: "msg_trigger m = Some t" and st: "call_step (call_abs (ctx c)) t s"
    and nr: "(call_abs (ctx c), t) \<noteq> (Negotiating, RemoteRenegOffer)"
  shows "call_abs (ctx (fst (client_receive c m Granted))) = s"
proof -
  obtain p where p: "peer (svc (ctx c)) = Some p" and ns: "signaling p \<noteq> HaveRemoteOffer"
      and ab: "call_abs (ctx c) = call_of p"
    using ok settled_pc by (auto simp: client_ok_def)
  show ?thesis
  proof (cases m)
    case (OnIncomingCall f d)
    then obtain x where x: "d = Some x" "sd_type x = Offer" using m by (cases d) (auto simp: desc_is_def)
    have "s = Connected" using st t OnIncomingCall by (auto elim: call_step.cases)
    then show ?thesis using OnIncomingCall rt x call_abs_handleIncomingCall [OF p x(2)]
      by (simp add: client_receive_def lobby_receive_def room_receive_def)
  next
    case (OnCallAccepted f d)
    then obtain x where x: "d = Some x" "sd_type x = Answer" using m by (cases d) (auto simp: desc_is_def)
    have "call_of p = Offering" "s = Connected" using st t OnCallAccepted ab by (auto elim: call_step.cases)
    then show ?thesis using OnCallAccepted rt x call_abs_answer_handlers [OF p _ x(2)]
      by (simp add: client_receive_def lobby_receive_def room_receive_def call_of_cases)
  next
    case (OnNegoNeeded f d)
    then obtain x where x: "d = Some x" "sd_type x = Offer" using m by (cases d) (auto simp: desc_is_def)
    have "s = Connected" using st t OnNegoNeeded nr by (auto elim: call_step.cases)
    then show ?thesis using OnNegoNeeded rt x call_abs_handleNegotiationIncoming [OF p x(2)]
      by (simp add: client_receive_def lobby_receive_def room_receive_def)
  next
    case (OnNegoFinal f d)
    then obtain x where x: "d = Some x" "sd_type x = Answer" using m by (cases d) (auto simp: desc_is_def)
    have "call_of p = Negotiating" "s = Connected" using st t OnNegoFinal ab by (auto elim: call_step.cases)
    then show ?thesis using OnNegoFinal rt x call_abs_answer_handlers [OF p _ x(2)]
      by (simp add: client_receive_def lobby_receive_def room_receive_def call_of_cases)
  qed (use t in simp_all)
qed

lemma room_client0_idle: "call_abs (ctx room_client0) = Idle"
  by (simp add: room_client0_def room_ctx0_def call_abs_def call_of_def peer_module_def
      PeerService_ctor_def pc_init_def)

theorem client_receive_refines_call_step_witness:
  "client_ok room_client0 \<and> route room_client0 = RoomPage ''42''
   \<and> in_ok (OnIncomingCall ''A'' (Some \<lparr>sd_type = Offer, sd_serial = 1, sd_tracks = [(1, Some 0)]\<rparr>))
   \<and> call_step (call_abs (ctx room_client0)) RemoteOffer Connected
   \<and> call_abs (ctx (fst (client_receive room_client0
        (OnIncomingCall ''A'' (Some \<lparr>sd_type = Offer, sd_serial = 1, sd_tracks = [(1, Some 0)]\<rparr>)) Granted)))
     = Connected"
proof -
  let ?m = "OnIncomingCall ''A'' (Some \<lparr>sd_type = Offer, sd_serial = 1, sd_tracks = [(1, Some 0)]\<rparr>)"
  have r: "route room_client0 = RoomPage ''42''" by (simp add: room_client0_def)
  have m: "in_ok ?m" and t: "msg_trigger ?m = Some RemoteOffer" by (simp_all add: desc_is_def)
  have st: "call_step (call_abs (ctx room_client0)) RemoteOffer Connected"
    by (simp add: room_client0_idle call_step.answer)
  have nr: "(call_abs (ctx room_client0), RemoteOffer) \<noteq> (Negotiating, RemoteRenegOffer)" by simp
  show ?thesis using room_client0_ok r m st
      client_receive_refines_call_step [OF room_client0_ok r m t st nr] by simp
qed

text \<open>
  Pressing Call (capture granted) implements the specification's \<open>call()\<close>: from
  \<open>Idle\<close>, the only state where the specification allows it, the tab goes to
  \<open>Offering\<close>.
\<close>

lemma handleCallUser_refines_call_step:
  "ps_settled (svc c) \<Longrightarrow> call_step (call_abs c) LocalCall s \<Longrightarrow> call_abs (fst (handleCallUser c Granted)) = s"
proof -
  assume ps: "ps_settled (svc c)" and st: "call_step (call_abs c) LocalCall s"
  obtain p where p: "peer (svc c) = Some p" "signaling p \<noteq> HaveRemoteOffer" "call_abs c = call_of p"
    using settled_pc [OF ps] by blast
  have "call_of p = Idle" "s = Offering" using st p(3) by (auto elim: call_step.cases)
  then show ?thesis using call_abs_handleCallUser [OF p(1,2)] by (simp add: call_of_cases)
qed

text \<open>
  The \<open>negotiationneeded\<close> handler implements the specification's renegotiation
  start: from \<open>Connected\<close> the tab goes to \<open>Negotiating\<close> (by C17 this path never runs
  in the deployed system).
\<close>

lemma handleNegotiationNeeded_refines_call_step:
  "ps_settled (svc c) \<Longrightarrow> call_step (call_abs c) LocalRenegotiation s \<Longrightarrow>
   call_abs (fst (handleNegotiationNeeded c)) = s"
proof -
  assume ps: "ps_settled (svc c)" and st: "call_step (call_abs c) LocalRenegotiation s"
  obtain p where p: "peer (svc c) = Some p" "signaling p \<noteq> HaveRemoteOffer" "call_abs c = call_of p"
    using settled_pc [OF ps] by blast
  have "call_of p = Connected" "s = Negotiating" using st p(3) by (auto elim: call_step.cases)
  then show ?thesis using call_abs_handleNegotiationNeeded [OF p(1,2)] by (simp add: call_of_cases)
qed

lemma connected_ctx0_facts: "ps_settled (svc connected_ctx0) \<and> call_abs connected_ctx0 = Connected"
proof -
  have ps: "ps_settled (svc room_ctx0)" using room_client0_ok by (simp add: client_ok_def room_client0_def)
  obtain p where p: "peer (svc room_ctx0) = Some p" using settled_pc [OF ps] by blast
  have "ps_settled (svc connected_ctx0)"
    using handleIncomingCall_ok [OF ps, of "Some offer0"]
    by (simp add: connected_ctx0_def result_ok_def desc_is_def offer0_def)
  moreover have "call_abs connected_ctx0 = Connected"
    unfolding connected_ctx0_def by (rule call_abs_handleIncomingCall [OF p]) (simp add: offer0_def)
  ultimately show ?thesis by simp
qed

lemma connected_calls_negotiate:
  assumes ps: "ps_settled (svc c)" and cn: "call_abs c = Connected"
  shows "call_abs (fst (handleCallUser c Granted)) = Negotiating
     \<and> (\<exists>ofr. snd (handleCallUser c Granted) = ([EmitUserCall (remoteSocketId (rs c)) (Some ofr)], None))"
proof -
  obtain p where p: "peer (svc c) = Some p" "signaling p \<noteq> HaveRemoteOffer" "call_abs c = call_of p"
    using settled_pc [OF ps] by blast
  have r: "remote_desc p \<noteq> None" using cn p(3) by (simp add: call_of_cases)
  show ?thesis using handleCallUser_view [OF p(1,2)] r by (auto simp: call_abs_def call_of_def)
qed

lemma negotiating_ctx0_facts: "ps_settled (svc negotiating_ctx0) \<and> call_abs negotiating_ctx0 = Negotiating"
  using connected_ctx0_facts handleCallUser_ok [of connected_ctx0 Granted]
    connected_calls_negotiate [of connected_ctx0]
  by (simp add: negotiating_ctx0_def result_ok_def)

text \<open>
  C19. The two handlers the tab runs on its own initiative implement the
  specification's local transitions: pressing Call (capture granted) is \<open>call()\<close>, from
  \<open>Idle\<close> to \<open>Offering\<close>, and the \<open>negotiationneeded\<close> handler is the start of a
  renegotiation, from \<open>Connected\<close> to \<open>Negotiating\<close>.
\<close>

theorem local_handlers_refine_call_step:
  "ps_settled (svc c) \<Longrightarrow>
   (call_step (call_abs c) LocalCall s \<longrightarrow> call_abs (fst (handleCallUser c Granted)) = s)
   \<and> (call_step (call_abs c) LocalRenegotiation s \<longrightarrow> call_abs (fst (handleNegotiationNeeded c)) = s)"
  using handleCallUser_refines_call_step handleNegotiationNeeded_refines_call_step by blast

theorem local_handlers_refine_call_step_witness:
  "ps_settled (svc (ctx room_client0)) \<and> call_step (call_abs (ctx room_client0)) LocalCall Offering
   \<and> call_abs (fst (handleCallUser (ctx room_client0) Granted)) = Offering
   \<and> ps_settled (svc connected_ctx0) \<and> call_step (call_abs connected_ctx0) LocalRenegotiation Negotiating
   \<and> call_abs (fst (handleNegotiationNeeded connected_ctx0)) = Negotiating"
proof -
  have ps: "ps_settled (svc (ctx room_client0))" using room_client0_ok by (simp add: client_ok_def)
  have st: "call_step (call_abs (ctx room_client0)) LocalCall Offering"
    by (simp add: room_client0_idle call_step.call)
  have ps2: "ps_settled (svc connected_ctx0)" using connected_ctx0_facts by simp
  have st2: "call_step (call_abs connected_ctx0) LocalRenegotiation Negotiating"
    using connected_ctx0_facts by (simp add: call_step.reneg)
  show ?thesis
    using ps st ps2 st2 local_handlers_refine_call_step [OF ps] local_handlers_refine_call_step [OF ps2] by simp
qed

subsection \<open>Where the Room page departs from the call state machine\<close>

text \<open>
  C20. A renegotiation offer that arrives while the tab's own renegotiation offer is
  outstanding is answered, as the specification asks, but the own offer is rolled
  back: the tab ends \<open>Connected\<close> where the specification keeps it \<open>Negotiating\<close>,
  waiting for the answer to its own offer.
\<close>

theorem reneg_offer_while_negotiating_diverges:
  "ps_settled (svc c) \<Longrightarrow> call_abs c = Negotiating \<Longrightarrow> sd_type d = Offer \<Longrightarrow>
   call_step Negotiating RemoteRenegOffer Negotiating
   \<and> call_abs (fst (handleNegotiationIncoming c f (Some d))) = Connected"
proof -
  assume ps: "ps_settled (svc c)" and d: "sd_type d = Offer"
  obtain p where p: "peer (svc c) = Some p" using settled_pc [OF ps] by blast
  show ?thesis using call_abs_handleNegotiationIncoming [OF p d] by (simp add: call_step.reneg_answer_self)
qed

theorem reneg_offer_while_negotiating_diverges_witness:
  "ps_settled (svc negotiating_ctx0) \<and> call_abs negotiating_ctx0 = Negotiating \<and> sd_type offer0 = Offer
   \<and> call_abs (fst (handleNegotiationIncoming negotiating_ctx0 ''A'' (Some offer0))) = Connected"
proof -
  have h: "ps_settled (svc negotiating_ctx0)" "call_abs negotiating_ctx0 = Negotiating"
    using negotiating_ctx0_facts by simp_all
  have d: "sd_type offer0 = Offer" by (simp add: offer0_def)
  show ?thesis using h d reneg_offer_while_negotiating_diverges [OF h d, of "''A''"] by simp
qed

text \<open>
  C21. Pressing Call again during a call is not a transition of the specification, which
  changes the media of a connected call only by renegotiation; the code sends a new
  \<open>user:call\<close> offer and the tab is left \<open>Negotiating\<close>.
\<close>

theorem call_while_connected_diverges:
  "ps_settled (svc c) \<Longrightarrow> call_abs c = Connected \<Longrightarrow>
   (\<forall>s. \<not> call_step Connected LocalCall s)
   \<and> call_abs (fst (handleCallUser c Granted)) = Negotiating
   \<and> (\<exists>ofr. snd (handleCallUser c Granted) = ([EmitUserCall (remoteSocketId (rs c)) (Some ofr)], None))"
  using connected_calls_negotiate by (auto elim: call_step.cases)

theorem call_while_connected_diverges_witness:
  "ps_settled (svc connected_ctx0) \<and> call_abs connected_ctx0 = Connected
   \<and> call_abs (fst (handleCallUser connected_ctx0 Granted)) = Negotiating"
  using connected_ctx0_facts call_while_connected_diverges [of connected_ctx0] by simp

text \<open>
  Leaving the room does not end the call: the specification terminates it
  (releasing the transport session), but navigating back to the Lobby page keeps the
  shared connection as it was, so its abstract state is never \<open>Terminated\<close>.
\<close>

lemma leaving_room_keeps_call:
  "route c = RoomPage r \<Longrightarrow>
   call_step (call_abs (ctx c)) EndCall Terminated
   \<and> peer (svc (ctx (navigate c LobbyPage))) = peer (svc (ctx c))
   \<and> call_abs (ctx (navigate c LobbyPage)) = call_abs (ctx c)
   \<and> call_abs (ctx (navigate c LobbyPage)) \<noteq> Terminated"
proof -
  assume "route c = RoomPage r"
  then have e: "svc (ctx (navigate c LobbyPage)) = svc (ctx c)" by (simp add: navigate_def)
  then have "call_abs (ctx (navigate c LobbyPage)) = call_abs (ctx c)" by (simp add: call_abs_def)
  then show ?thesis using e call_abs_never_terminated [of "ctx c"] call_step.end_call by simp
qed

subsection \<open>One offer/answer exchange\<close>

text \<open>
  C3. Round trip of a negotiation: the caller's \<open>getOffer\<close>, the callee's
  \<open>getAnswer\<close> on that offer and the caller's \<open>setRemoteDescription\<close> on the answer
  all resolve, and afterwards both connections are stable and agree: each side's local
  description is the other's remote one, and the answer carries the offer's serial.
\<close>

theorem offer_answer_roundtrip:
  assumes a: "peer psA = Some pA" "signaling pA \<noteq> HaveRemoteOffer"
    and b: "peer psB = Some pB" "signaling pB \<noteq> HaveLocalOffer"
  shows "\<exists>psA1 psB1 psA2 ofr ans pA' pB'.
     getOffer psA = (psA1, Inr (Some ofr)) \<and> getAnswer psB (Some ofr) = (psB1, Inr (Some ans))
     \<and> setRemoteDescription psA1 (Some ans) = (psA2, Inr ())
     \<and> peer psA2 = Some pA' \<and> peer psB1 = Some pB' \<and> signaling pA' = Stable \<and> signaling pB' = Stable
     \<and> local_desc pA' = remote_desc pB' \<and> remote_desc pA' = local_desc pB' \<and> sd_serial ans = sd_serial ofr"
proof -
  define ofr where "ofr = \<lparr>sd_type = Offer, sd_serial = Suc (offer_count pA), sd_tracks = media_of pA\<rparr>"
  define pA1 where "pA1 = pA\<lparr>offer_count := Suc (offer_count pA), signaling := HaveLocalOffer, local_desc := Some ofr\<rparr>"
  have o: "getOffer psA = (psA\<lparr>peer := Some pA1\<rparr>, Inr (Some ofr))"
    using getOffer_eq [OF a] by (simp add: pA1_def ofr_def)
  define ans where "ans = \<lparr>sd_type = Answer, sd_serial = sd_serial ofr, sd_tracks = media_of pB\<rparr>"
  define pB' where "pB' = pc_update_nego ((deliver_tracks (pB\<lparr>signaling := HaveRemoteOffer, remote_desc := Some ofr\<rparr>)
      (sd_tracks ofr))\<lparr>signaling := Stable, local_desc := Some ans, current_local := Some ans\<rparr>)"
  have g: "getAnswer psB (Some ofr) = (psB\<lparr>peer := Some pB'\<rparr>, Inr (Some ans))"
    using getAnswer_eq [OF b] by (simp add: pB'_def ans_def ofr_def)
  define pA' where "pA' = pc_update_nego (deliver_tracks (pA1\<lparr>signaling := Stable, remote_desc := Some ans,
      current_local := local_desc pA1\<rparr>) (sd_tracks ans))"
  have r: "setRemoteDescription (psA\<lparr>peer := Some pA1\<rparr>) (Some ans) = (psA\<lparr>peer := Some pA'\<rparr>, Inr ())"
    by (simp add: setRemoteDescription_def to_session_description_def pc_setRemoteDescription_def pA'_def
        pA1_def ans_def)
  show ?thesis
    using o g r
    by (intro exI [of _ "psA\<lparr>peer := Some pA1\<rparr>"] exI [of _ "psB\<lparr>peer := Some pB'\<rparr>"]
        exI [of _ "psA\<lparr>peer := Some pA'\<rparr>"] exI [of _ ofr] exI [of _ ans] exI [of _ pA'] exI [of _ pB'])
      (simp add: pA'_def pB'_def pA1_def ans_def)
qed

theorem offer_answer_roundtrip_witness:
  "peer peer_module = Some (pc_init stun_servers) \<and> signaling (pc_init stun_servers) \<noteq> HaveRemoteOffer
   \<and> signaling (pc_init stun_servers) \<noteq> HaveLocalOffer
   \<and> (\<exists>psA1 psB1 psA2 ofr ans pA' pB'.
     getOffer peer_module = (psA1, Inr (Some ofr)) \<and> getAnswer peer_module (Some ofr) = (psB1, Inr (Some ans))
     \<and> setRemoteDescription psA1 (Some ans) = (psA2, Inr ())
     \<and> peer psA2 = Some pA' \<and> peer psB1 = Some pB' \<and> signaling pA' = Stable \<and> signaling pB' = Stable
     \<and> local_desc pA' = remote_desc pB' \<and> remote_desc pA' = local_desc pB' \<and> sd_serial ans = sd_serial ofr)"
proof -
  have h1: "peer peer_module = Some (pc_init stun_servers)" by (simp add: peer_module_def PeerService_ctor_def)
  have h2: "signaling (pc_init stun_servers) \<noteq> HaveRemoteOffer" "signaling (pc_init stun_servers) \<noteq> HaveLocalOffer"
    by (simp_all add: pc_init_def)
  from h1 h2 offer_answer_roundtrip [OF h1 h2(1) h1 h2(2)] show ?thesis by blast
qed

end
