(* ===== verification/RoomAsync.thy ===== *)
theory RoomAsync
  imports Room
begin

text \<open>
  The two call handlers of \<open>Room.jsx\<close> suspend at \<open>await getUserMedia(...)\<close> (lines
  20 and 41) while the browser asks the user for the camera and microphone. Here each
  is cut at that point into the part that runs when the event is handled and a
  continuation that runs when the permission prompt is answered. The continuation
  holds what the closure captured: \<open>handleCallUser\<close> the \<open>remoteSocketId\<close> of the
  render it was created in (its \<open>useCallback\<close> dependency), \<open>handleIncomingCall\<close> the
  event's \<open>from\<close> and \<open>offer\<close>. If the page has been left meanwhile, the state setters
  of the unmounted page do nothing, so \<open>mystream\<close> is not set and the clean-up that
  would stop the stream never runs; the module's connection and the socket are still
  there and are used all the same.
\<close>

datatype cont = ResumeCall "sid option" | ResumeIncoming sid "sdesc option"

text \<open>\<open>handleCallUser\<close> after the stream is obtained (lines 24-35).\<close>

definition callUser_resume :: "room_ctx \<Rightarrow> sid option \<Rightarrow> mstream \<Rightarrow> handler_result" where
  "callUser_resume c to st =
     (let c1 = setMystream c st;
          (ps, r) = getOffer (room_add_tracks (svc c1) st);
          c2 = c1\<lparr>svc := ps\<rparr>
      in case r of
           Inl e \<Rightarrow> (c2, [], Some (PcError e))
         | Inr offer \<Rightarrow> (c2, [EmitUserCall to offer], None))"

text \<open>\<open>handleIncomingCall\<close> after the stream is obtained (lines 45-56).\<close>

definition incomingCall_resume :: "room_ctx \<Rightarrow> sid \<Rightarrow> sdesc option \<Rightarrow> mstream \<Rightarrow> handler_result" where
  "incomingCall_resume c from offer st =
     (let c1 = setMystream c st;
          (ps, r) = getAnswer (room_add_tracks (svc c1) st) offer;
          c2 = c1\<lparr>svc := ps\<rparr>
      in case r of
           Inl e \<Rightarrow> (c2, [], Some (PcError e))
         | Inr ans \<Rightarrow> (c2, [EmitCallAccepted from ans], None))"

definition resume :: "room_ctx \<Rightarrow> cont \<Rightarrow> mstream \<Rightarrow> handler_result" where
  "resume c k st =
     (case k of
       ResumeCall to \<Rightarrow> callUser_resume c to st
     | ResumeIncoming from offer \<Rightarrow> incomingCall_resume c from offer st)"

text \<open>
  The continuation of a page that is no longer mounted: only the module's connection
  changes; the page state (and with it the device clean-up) is left alone.
\<close>

definition resume_detached :: "room_ctx \<Rightarrow> cont \<Rightarrow> mstream \<Rightarrow> handler_result" where
  "resume_detached c k st = (case resume c k st of (c', out, e) \<Rightarrow> (c\<lparr>svc := svc c'\<rparr>, out, e))"

text \<open>The parts that run when the event is handled (lines 19-20 and 39-41).\<close>

definition callUser_start :: "room_ctx \<Rightarrow> cont" where
  "callUser_start c = ResumeCall (remoteSocketId (rs c))"

definition incomingCall_start :: "room_ctx \<Rightarrow> sid \<Rightarrow> sdesc option \<Rightarrow> room_ctx \<times> cont" where
  "incomingCall_start c from offer = (c\<lparr>rs := (rs c)\<lparr>remoteSocketId := Some from\<rparr>\<rparr>, ResumeIncoming from offer)"

text \<open>The permission prompt is answered: a refusal rejects the handler's promise.\<close>

definition media_resume :: "room_ctx \<Rightarrow> cont \<Rightarrow> gum_outcome \<Rightarrow> handler_result" where
  "media_resume c k g =
     (case getUserMedia (devs c) g of
       Inl e \<Rightarrow> (c, [], Some e)
     | Inr (md, st) \<Rightarrow> resume (c\<lparr>devs := md\<rparr>) k st)"

definition media_resume_detached :: "room_ctx \<Rightarrow> cont \<Rightarrow> gum_outcome \<Rightarrow> handler_result" where
  "media_resume_detached c k g =
     (case getUserMedia (devs c) g of
       Inl e \<Rightarrow> (c, [], Some e)
     | Inr (md, st) \<Rightarrow> resume_detached (c\<lparr>devs := md\<rparr>) k st)"

text \<open>A suspended incoming-call handler holds a well-typed offer.\<close>

fun cont_ok :: "cont \<Rightarrow> bool" where
  "cont_ok (ResumeCall to) = True"
| "cont_ok (ResumeIncoming from offer) = desc_is Offer offer"

subsection \<open>The atomic handlers are the two halves run back to back\<close>

lemma handleCallUser_split: "handleCallUser c g = media_resume c (callUser_start c) g"
  by (simp add: handleCallUser_def media_resume_def callUser_start_def resume_def callUser_resume_def Let_def
      split: sum.split prod.split)

lemma handleIncomingCall_split:
  "handleIncomingCall c from offer g = (case incomingCall_start c from offer of (c0, k) \<Rightarrow> media_resume c0 k g)"
  by (simp add: handleIncomingCall_def media_resume_def incomingCall_start_def resume_def
      incomingCall_resume_def split: sum.split prod.split)

subsection \<open>The continuations keep the connection settled\<close>

lemma resume_ok:
  assumes set: "ps_settled (svc c)" and k: "cont_ok k"
  shows "result_ok (resume c k st)"
proof -
  obtain p1 where p1: "peer (room_add_tracks (svc c) st) = Some p1" "signaling p1 \<noteq> HaveRemoteOffer" "pc_wf p1"
    using room_add_tracks_settled_pre [OF set] by blast
  show ?thesis
  proof (cases k)
    case (ResumeCall to)
    obtain ps' ofr p' where go: "getOffer (room_add_tracks (svc c) st) = (ps', Inr (Some ofr))"
        "sd_type ofr = Offer" "peer ps' = Some p'" "pc_settled p'" "pc_wf p'"
      using getOffer_settled [OF p1(1,2)] p1(3) by blast
    then show ?thesis using ResumeCall
      by (auto simp: resume_def callUser_resume_def result_ok_def ps_settled_def desc_is_def Let_def)
  next
    case (ResumeIncoming f offer)
    then obtain d where d: "offer = Some d" "sd_type d = Offer"
      using k by (cases offer) (auto simp: desc_is_def)
    obtain ps' a p' where ga: "getAnswer (room_add_tracks (svc c) st) (Some d) = (ps', Inr (Some a))"
        "sd_type a = Answer" "peer ps' = Some p'" "pc_settled p'" "pc_wf p'"
      using getAnswer_settled [OF p1(1,2) d(2)] p1(3) by blast
    then show ?thesis using ResumeIncoming d
      by (auto simp: resume_def incomingCall_resume_def result_ok_def ps_settled_def desc_is_def Let_def)
  qed
qed

lemma resume_detached_fields [simp]:
  "svc (fst (resume_detached c k st)) = svc (fst (resume c k st))"
  "fst (snd (resume_detached c k st)) = fst (snd (resume c k st))"
  by (simp_all add: resume_detached_def split: prod.split)

lemma media_resume_ok:
  assumes "ps_settled (svc c)" and "cont_ok k"
  shows "result_ok (media_resume c k g) \<and> result_ok (media_resume_detached c k g)"
proof (cases "getUserMedia (devs c) g")
  case (Inl e)
  then show ?thesis using assms(1) by (simp add: media_resume_def media_resume_detached_def result_ok_def)
next
  case (Inr r)
  obtain md st where r: "r = (md, st)" by (cases r)
  have "result_ok (resume (c\<lparr>devs := md\<rparr>) k st)" using assms by (intro resume_ok) simp_all
  then show ?thesis using Inr r
    by (simp add: media_resume_def media_resume_detached_def result_ok_def)
qed

end
