(* ===== verification/AsyncSystem.thy ===== *)
theory AsyncSystem
  imports System RoomAsync
begin

text \<open>
  The system of \<open>System\<close> with the permission prompt of \<open>getUserMedia\<close> as a real
  suspension. Pressing Call, or receiving \<open>incoming:call\<close>, runs the handler up to
  its \<open>await\<close> and records the continuation, tagged with the mount of the Room page
  that started it; any other event may then be handled before the user answers the
  prompt (event \<open>Media\<close>, which picks one outstanding prompt of a tab). A continuation
  whose page has been unmounted meanwhile runs detached (\<open>media_resume_detached\<close>).
  The engine's own \<open>await\<close>s are still taken as atomic.
\<close>

record asys =
  sy :: sys
  mount :: "sid \<Rightarrow> nat"
  pend :: "sid \<Rightarrow> (nat \<times> cont) list"

definition lift_sys :: "sys \<Rightarrow> asys" where
  "lift_sys s = \<lparr>sy = s, mount = (\<lambda>_. 0), pend = (\<lambda>_. [])\<rparr>"

datatype asys_event = Sync sys_event | Media sid nat gum_outcome

text \<open>The tab an event of the atomic system is about.\<close>

fun ev_sid :: "sys_event \<Rightarrow> sid" where
  "ev_sid (Connect i) = i"
| "ev_sid (Disconnect i) = i"
| "ev_sid (Input i u) = i"
| "ev_sid (ServerRecv i) = i"
| "ev_sid (ClientRecv i g) = i"
| "ev_sid (PcTask i) = i"

text \<open>
  A step of the atomic system. Only the tab the event is about can change page: it gets
  a new mount when it does, and loses its suspended handlers when it is closed.
\<close>

definition sync_step :: "asys \<Rightarrow> sys_event \<Rightarrow> asys option" where
  "sync_step a e =
     (case sys_step (sy a) e of
       None \<Rightarrow> None
     | Some s' \<Rightarrow>
         (let i = ev_sid e;
              moved = (map_option route (clients s' i) \<noteq> map_option route (clients (sy a) i))
          in Some \<lparr>sy = s',
                   mount = (mount a)(i := if moved then Suc (mount a i) else mount a i),
                   pend = (pend a)(i := if clients s' i = None then [] else pend a i)\<rparr>))"

fun asys_step :: "asys \<Rightarrow> asys_event \<Rightarrow> asys option" where
  "asys_step a (Sync (Input i (ClickCall g))) =
     (case clients (sy a) i of
       None \<Rightarrow> None
     | Some c \<Rightarrow>
         (if route c \<noteq> LobbyPage \<and> ''Call'' \<in> set (buttons (room_view (rs (ctx c))))
          then Some (a\<lparr>pend := (pend a)(i := pend a i @ [(mount a i, callUser_start (ctx c))])\<rparr>)
          else None))"
| "asys_step a (Sync (ClientRecv i g)) =
     (case (clients (sy a) i, down (sy a) i) of
       (Some c, OnIncomingCall f offer # ms) \<Rightarrow>
         (if route c \<noteq> LobbyPage
          then (case incomingCall_start (ctx c) f offer of (x, k) \<Rightarrow>
                 Some (a\<lparr>sy := (sy a)\<lparr>clients := (clients (sy a))(i := Some (c\<lparr>ctx := x\<rparr>)),
                                       down := (down (sy a))(i := ms)\<rparr>,
                         pend := (pend a)(i := pend a i @ [(mount a i, k)])\<rparr>))
          else sync_step a (ClientRecv i g))
     | _ \<Rightarrow> sync_step a (ClientRecv i g))"
| "asys_step a (Sync e) = sync_step a e"
| "asys_step a (Media i n g) =
     (case clients (sy a) i of
       None \<Rightarrow> None
     | Some c \<Rightarrow>
         (if n < length (pend a i) then
            (case pend a i ! n of (m, k) \<Rightarrow>
              (let r = (if m = mount a i \<and> route c \<noteq> LobbyPage then media_resume (ctx c) k g
                        else media_resume_detached (ctx c) k g);
                   a1 = a\<lparr>pend := (pend a)(i := take n (pend a i) @ drop (Suc n) (pend a i))\<rparr>
               in Some (a1\<lparr>sy := client_done (sy a) i (lift_room c r)\<rparr>)))
          else None))"

fun asys_run :: "asys \<Rightarrow> asys_event list \<Rightarrow> asys option" where
  "asys_run a [] = Some a"
| "asys_run a (e # es) = (case asys_step a e of None \<Rightarrow> None | Some a' \<Rightarrow> asys_run a' es)"

inductive areachable :: "asys \<Rightarrow> bool" where
  init: "areachable (lift_sys sys_init)"
| step: "areachable a \<Longrightarrow> asys_step a e = Some a' \<Longrightarrow> areachable a'"

text \<open>
  The invariant of the suspended system: the part of the atomic invariant that does not
  concern the capture devices, and well-typed suspended handlers.
\<close>

definition asys_inv :: "asys \<Rightarrow> bool" where
  "asys_inv a \<longleftrightarrow> sys_inv_weak (sy a) \<and> (\<forall>i. list_all (\<lambda>(n, k). cont_ok k) (pend a i))"

subsection \<open>The atomic system is the one where every prompt is answered at once\<close>

text \<open>
  Pressing Call and answering the prompt right away, with no other prompt of the tab
  open, gives exactly the atomic step of \<open>System\<close>.
\<close>

lemma asys_refines_call:
  assumes "pend a i = []" and "clients (sy a) i = Some c" and "route c \<noteq> LobbyPage"
    and "truthy_sid (remoteSocketId (rs (ctx c)))"
  shows "asys_run a [Sync (Input i (ClickCall g)), Media i 0 g]
     = map_option (\<lambda>s'. a\<lparr>sy := s'\<rparr>) (sys_step (sy a) (Input i (ClickCall g)))"
proof -
  obtain r where r: "route c = RoomPage r" using assms(3) by (cases "route c") simp_all
  show ?thesis
    using assms r
    by (simp add: client_input_def handleCallUser_split fun_upd_idem)
qed

text \<open>
  Likewise for an incoming call: handling \<open>incoming:call\<close> and answering the prompt
  right away gives exactly the atomic step of \<open>System\<close>.
\<close>

lemma asys_refines_incoming:
  assumes "pend a i = []" and "clients (sy a) i = Some c" and "route c \<noteq> LobbyPage"
    and "down (sy a) i = OnIncomingCall f offer # ms"
  shows "asys_run a [Sync (ClientRecv i g), Media i 0 g]
     = map_option (\<lambda>s'. a\<lparr>sy := s'\<rparr>) (sys_step (sy a) (ClientRecv i g))"
proof -
  obtain r where r: "route c = RoomPage r" using assms(3) by (cases "route c") simp_all
  show ?thesis
    using assms r
    by (simp add: client_receive_def lobby_receive_def room_receive_def handleIncomingCall_split incomingCall_start_def lift_room_def
        client_done_def fun_upd_idem del: lift_room_fields split: prod.split)
qed

subsection \<open>The invariant\<close>

lemma sync_step_inv:
  assumes inv: "asys_inv a" and st: "sync_step a e = Some a'"
  shows "asys_inv a'"
proof -
  obtain s' where s': "sys_step (sy a) e = Some s'" using st by (auto simp: sync_step_def split: option.splits)
  have "sys_inv_weak (sy a)" using inv by (simp add: asys_inv_def)
  then have "sys_inv_weak s'" using s' by (rule sys_step_weak)
  then show ?thesis using inv st s' by (auto simp: asys_inv_def sync_step_def Let_def)
qed

lemma asys_step_Media:
  assumes "clients (sy a) i = Some c" and "n < length (pend a i)" and "pend a i ! n = (m, k)"
  shows "asys_step a (Media i n g) =
    Some (a\<lparr>pend := (pend a)(i := take n (pend a i) @ drop (Suc n) (pend a i)),
            sy := client_done (sy a) i (lift_room c (if m = mount a i \<and> route c \<noteq> LobbyPage
                                                    then media_resume (ctx c) k g
                                                    else media_resume_detached (ctx c) k g))\<rparr>)"
  using assms by (simp only: asys_step.simps option.case if_True prod.case Let_def)

lemma asys_step_Media_Some:
  "asys_step a (Media i n g) = Some a' \<Longrightarrow> \<exists>c. clients (sy a) i = Some c \<and> n < length (pend a i)"
  by (cases "clients (sy a) i") (auto split: if_splits)

lemma asys_inv_media:
  assumes inv: "asys_inv a" and st: "asys_step a (Media i n g) = Some a'"
  shows "asys_inv a'"
proof -
  obtain c where ci: "clients (sy a) i = Some c" and n: "n < length (pend a i)"
    using asys_step_Media_Some [OF st] by blast
  obtain m k where pk: "pend a i ! n = (m, k)" by (cases "pend a i ! n")
  have w: "sys_inv_weak (sy a)" and pl: "list_all (\<lambda>(n, k). cont_ok k) (pend a i)"
    using inv by (simp_all add: asys_inv_def)
  have k: "cont_ok k" using pl n pk by (auto simp: list_all_length)
  have set: "ps_settled (svc (ctx c))" using w ci by (simp add: sys_inv_weak_def)
  define r where "r = (if m = mount a i \<and> route c \<noteq> LobbyPage then media_resume (ctx c) k g
                       else media_resume_detached (ctx c) k g)"
  have ok: "result_ok r" using media_resume_ok [OF set k, of g] by (simp add: r_def)
  have "Some (a\<lparr>pend := (pend a)(i := take n (pend a i) @ drop (Suc n) (pend a i)),
                   sy := client_done (sy a) i (lift_room c r)\<rparr>) = Some a'"
    using st unfolding asys_step_Media [OF ci n pk] r_def .
  then have a': "a' = a\<lparr>pend := (pend a)(i := take n (pend a i) @ drop (Suc n) (pend a i)),
                   sy := client_done (sy a) i (lift_room c r)\<rparr>" by simp
  have w': "sys_inv_weak (client_done (sy a) i (lift_room c r))"
    using sys_inv_weak_client_done [OF w ci] ok by (simp add: result_ok_def outs_ok_def)
  have "list_all (\<lambda>(n, k). cont_ok k) (take n (pend a i) @ drop (Suc n) (pend a i))"
    using pl by (rule list_all_take_drop)
  then have "\<forall>j. list_all (\<lambda>(n, k). cont_ok k) (((pend a)(i := take n (pend a i) @ drop (Suc n) (pend a i))) j)"
    using inv by (simp add: asys_inv_def)
  then show ?thesis using w' unfolding asys_inv_def a' by simp
qed

lemma asys_inv_call:
  assumes inv: "asys_inv a" and st: "asys_step a (Sync (Input i (ClickCall g))) = Some a'"
  shows "asys_inv a'"
  using inv st by (auto simp: asys_inv_def callUser_start_def split: option.splits if_splits)

lemma asys_inv_receive:
  assumes inv: "asys_inv a" and st: "asys_step a (Sync (ClientRecv i g)) = Some a'"
  shows "asys_inv a'"
proof (cases "\<exists>c f offer ms. clients (sy a) i = Some c \<and> down (sy a) i = OnIncomingCall f offer # ms
                              \<and> route c \<noteq> LobbyPage")
  case True
  then obtain c f offer ms where ci: "clients (sy a) i = Some c"
    and d: "down (sy a) i = OnIncomingCall f offer # ms" and rt: "route c \<noteq> LobbyPage" by blast
  have a': "a' = a\<lparr>sy := (sy a)\<lparr>clients := (clients (sy a))(i := Some (c\<lparr>ctx := fst (incomingCall_start (ctx c) f offer)\<rparr>)),
                                  down := (down (sy a))(i := ms)\<rparr>,
                   pend := (pend a)(i := pend a i @ [(mount a i, ResumeIncoming f offer)])\<rparr>"
    using st ci d rt by (simp add: incomingCall_start_def)
  have w: "sys_inv_weak (sy a)" using inv by (simp add: asys_inv_def)
  have dl: "list_all (\<lambda>m. in_ok m \<and> \<not> reneg_in m) (down (sy a) i)" using w by (simp add: sys_inv_weak_def)
  then have io: "desc_is Offer offer" and ms: "list_all (\<lambda>m. in_ok m \<and> \<not> reneg_in m) ms" using d by simp_all
  then show ?thesis using inv a' ci
    by (auto simp: asys_inv_def sys_inv_weak_def incomingCall_start_def)
next
  case False
  have "asys_step a (Sync (ClientRecv i g)) = sync_step a (ClientRecv i g)"
  proof (cases "clients (sy a) i")
    case (Some c)
    show ?thesis
    proof (cases "down (sy a) i")
      case (Cons m ms)
      then show ?thesis using Some False by (cases m) auto
    qed (use Some in simp)
  qed simp
  then have "sync_step a (ClientRecv i g) = Some a'" using st by simp
  then show ?thesis by (rule sync_step_inv [OF inv])
qed

lemma asys_step_sync:
  "(\<And>i g. e \<noteq> Input i (ClickCall g)) \<Longrightarrow> (\<And>i g. e \<noteq> ClientRecv i g) \<Longrightarrow>
   asys_step a (Sync e) = sync_step a e"
proof (cases e)
  case (Input i u)
  then show "(\<And>i g. e \<noteq> Input i (ClickCall g)) \<Longrightarrow> ?thesis" by (cases u) auto
qed auto

lemma asys_step_inv:
  assumes inv: "asys_inv a" and st: "asys_step a e = Some a'"
  shows "asys_inv a'"
proof (cases e)
  case (Media i n g)
  then show ?thesis using asys_inv_media inv st by simp
next
  case (Sync e0)
  have st0: "asys_step a (Sync e0) = Some a'" using st Sync by simp
  show ?thesis
  proof (cases "\<exists>i g. e0 = Input i (ClickCall g)")
    case True
    then obtain i g where "e0 = Input i (ClickCall g)" by blast
    then show ?thesis using asys_inv_call [OF inv] st0 by simp
  next
    case nc: False
    show ?thesis
    proof (cases "\<exists>i g. e0 = ClientRecv i g")
      case True
      then obtain i g where "e0 = ClientRecv i g" by blast
      then show ?thesis using asys_inv_receive [OF inv] st0 by simp
    next
      case False
      have "asys_step a (Sync e0) = sync_step a e0"
        by (rule asys_step_sync) (use nc False in blast)+
      then have "sync_step a e0 = Some a'" using st0 by simp
      then show ?thesis by (rule sync_step_inv [OF inv])
    qed
  qed
qed

lemma areachable_inv: "areachable a \<Longrightarrow> asys_inv a"
proof (induction rule: areachable.induct)
  case init
  show ?case using sys_inv_init by (simp add: asys_inv_def lift_sys_def sys_inv_def)
next
  case (step a e a')
  then show ?case by (blast intro: asys_step_inv)
qed

lemma asys_run_reachable: "areachable a \<Longrightarrow> asys_run a es = Some a' \<Longrightarrow> areachable a'"
proof (induction es arbitrary: a)
  case Nil
  then show ?case by simp
next
  case (Cons e es)
  show ?case
  proof (cases "asys_step a e")
    case None
    then show ?thesis using Cons.prems(2) by simp
  next
    case (Some a1)
    then have r: "asys_run a1 es = Some a'" using Cons.prems(2) by simp
    have "areachable a1" using areachable.step [OF Cons.prems(1) Some] .
    then show ?thesis using r by (rule Cons.IH)
  qed
qed

subsection \<open>Renegotiation never fires, even with suspended handlers\<close>

text \<open>
  C25. C17 survives the suspension at the permission prompt: in every state
  reachable with prompts answered late, in any order, or after the page was left, every
  tab's connection has a queued negotiation-needed check that finds nothing to do, and
  no renegotiation message is in flight. A continuation adds its tracks and creates the
  offer or answer carrying them in one step, detached or not.
\<close>

theorem areachable_negotiation_never_fires:
  "areachable a \<Longrightarrow> clients (sy a) i = Some c \<Longrightarrow>
   (\<exists>p. peer (svc (ctx c)) = Some p \<and> snd (nego_task p) = False)
   \<and> list_all (\<lambda>m. \<not> reneg_out m) (up (sy a) i) \<and> list_all (\<lambda>m. \<not> reneg_in m) (down (sy a) i)"
proof -
  assume re: "areachable a" and ci: "clients (sy a) i = Some c"
  have w: "sys_inv_weak (sy a)" using areachable_inv [OF re] by (simp add: asys_inv_def)
  then have "ps_settled (svc (ctx c))" using ci by (simp add: sys_inv_weak_def)
  then obtain p where "peer (svc (ctx c)) = Some p" "pc_settled p" by (auto simp: ps_settled_def)
  moreover have "outs_ok (up (sy a) i)" "list_all (\<lambda>m. in_ok m \<and> \<not> reneg_in m) (down (sy a) i)"
    using w by (simp_all add: sys_inv_weak_def)
  ultimately show ?thesis using pc_settled_nego_task by (auto simp: outs_ok_def list_all_iff)
qed

subsection \<open>Leaving the room while the prompt is open\<close>

lemma media_resume_detached_granted:
  "rs (fst (media_resume_detached x k Granted)) = rs x
   \<and> devs (fst (media_resume_detached x k Granted))
       = (devs x)\<lparr>live := live (devs x) @ [Suc (next_id (devs x)), Suc (Suc (next_id (devs x)))],
                  next_id := next_id (devs x) + 3\<rparr>"
  by (simp add: media_resume_detached_def getUserMedia_def resume_detached_def Let_def split: prod.split)

lemma asys_step_GoBack:
  assumes "clients (sy a) i = Some c" and "route c = RoomPage r"
  shows "asys_step a (Sync (Input i GoBack)) =
    Some \<lparr>sy = client_done (sy a) i (navigate c LobbyPage, [], None),
          mount = (mount a)(i := Suc (mount a i)), pend = pend a\<rparr>"
  using assms by (simp add: sync_step_def client_input_def client_done_def navigate_def Let_def fun_upd_idem)

text \<open>
  C16. Leaving the room does not release the camera and microphone when the
  permission prompt of a Call or an incoming call is still open: whatever the state,
  if a tab on the Room page goes back to the Lobby and then the prompt is granted, the
  tab shows the Lobby page with the two new capture tracks running, owned by no page
  (the unmounted Room's \<open>mystream\<close> is gone, so no clean-up will ever stop them).
  The handlers do not check after \<open>await getUserMedia\<close> that the page is still
  mounted (\<open>Room.jsx\<close> lines 20-24 and 41-45).
\<close>

theorem leaving_during_prompt_leaks_devices:
  assumes c: "clients (sy a) i = Some c" and rt: "route c \<noteq> LobbyPage" and n: "n < length (pend a i)"
  shows "\<exists>a' c'. asys_run a [Sync (Input i GoBack), Media i n Granted] = Some a'
     \<and> clients (sy a') i = Some c' \<and> route c' = LobbyPage \<and> mystream (rs (ctx c')) = None
     \<and> {Suc (next_id (devs (ctx c))), Suc (Suc (next_id (devs (ctx c))))} \<subseteq> set (live (devs (ctx c')))"
proof -
  obtain r where r: "route c = RoomPage r" using rt by (cases "route c") simp_all
  define c1 where "c1 = navigate c LobbyPage"
  define a1 where "a1 = \<lparr>sy = client_done (sy a) i (c1, [], None), mount = (mount a)(i := Suc (mount a i)), pend = pend a\<rparr>"
  have s1: "asys_step a (Sync (Input i GoBack)) = Some a1"
    using asys_step_GoBack [OF c r] by (simp add: a1_def c1_def)
  have c1i: "clients (sy a1) i = Some c1" and l1: "route c1 = LobbyPage"
    and rs1: "rs (ctx c1) = room_init" and d1: "next_id (devs (ctx c1)) = next_id (devs (ctx c))"
    using r by (simp_all add: a1_def client_done_def c1_def navigate_def room_unmount_def stop_stream_def
      split: option.split)
  obtain m k where pk: "pend a1 i ! n = (m, k)" by (cases "pend a1 i ! n")
  have n1: "n < length (pend a1 i)" using n by (simp add: a1_def)
  define x where "x = fst (media_resume_detached (ctx c1) k Granted)"
  have s2: "asys_step a1 (Media i n Granted) = Some (a1\<lparr>pend := (pend a1)(i := take n (pend a1 i) @ drop (Suc n) (pend a1 i)),
      sy := client_done (sy a1) i (lift_room c1 (media_resume_detached (ctx c1) k Granted))\<rparr>)"
    using asys_step_Media [OF c1i n1 pk] l1 by simp
  have x: "rs x = room_init"
    "devs x = (devs (ctx c1))\<lparr>live := live (devs (ctx c1)) @ [Suc (next_id (devs (ctx c1))), Suc (Suc (next_id (devs (ctx c1))))],
                  next_id := next_id (devs (ctx c1)) + 3\<rparr>"
    using media_resume_detached_granted [of "ctx c1" k] rs1 by (simp_all add: x_def)
  show ?thesis
    using s1 s2 x l1 d1 by (auto simp: client_done_def lift_room_def x_def room_init_def split: prod.split)
qed

end
