(* ===== verification/PeerChain.thy ===== *)
theory PeerChain
  imports PeerService
begin

text \<open>
  The \<open>await\<close>s inside \<open>peer.js\<close>. Every call of \<open>createOffer\<close>, \<open>createAnswer\<close>,
  \<open>setLocalDescription\<close> or \<open>setRemoteDescription\<close> on the \<open>RTCPeerConnection\<close> is an
  operation that the engine appends to the connection's operations chain and runs when
  the operations before it have settled; the rest of the \<open>async\<close> method resumes when
  it settles. A method call is thus its synchronous start (up to the first \<open>await\<close>,
  which may already return or throw) followed by a chain of operations, each followed
  by the piece of the method that runs after it (\<open>svc_k\<close>).
\<close>

datatype pc_op = OpCreateOffer | OpCreateAnswer | OpSetLocal sdesc | OpSetRemote sdesc

text \<open>One operation of the chain, with the description it resolves to, if any.\<close>

definition run_op :: "pc \<Rightarrow> pc_op \<Rightarrow> pc_error + pc \<times> sdesc option" where
  "run_op p op =
     (case op of
       OpCreateOffer \<Rightarrow> (case pc_createOffer p of (p', d) \<Rightarrow> Inr (p', Some d))
     | OpCreateAnswer \<Rightarrow> (case pc_createAnswer p of Inl e \<Rightarrow> Inl e | Inr d \<Rightarrow> Inr (p, Some d))
     | OpSetLocal d \<Rightarrow> (case pc_setLocalDescription p d of Inl e \<Rightarrow> Inl e | Inr p' \<Rightarrow> Inr (p', None))
     | OpSetRemote d \<Rightarrow> (case pc_setRemoteDescription p d of Inl e \<Rightarrow> Inl e | Inr p' \<Rightarrow> Inr (p', None)))"

text \<open>
  Where a method waits: \<open>getOffer\<close> after \<open>createOffer\<close> (line 59) and after
  \<open>setLocalDescription\<close> (line 60); \<open>getAnswer\<close> after \<open>setRemoteDescription\<close>
  (line 35), \<open>createAnswer\<close> (line 36) and \<open>setLocalDescription\<close> (line 37);
  \<open>setRemoteDescription\<close> after the engine's \<open>setRemoteDescription\<close> (line 46).
\<close>

datatype svc_k = KOfferCreated | KOfferSet sdesc | KRemoteSet | KAnswerCreated | KAnswerSet sdesc | KDescSet

text \<open>
  The method resumed with the operation's value: it either issues its next operation
  (\<open>Inl\<close>) or returns (\<open>Inr\<close>). \<open>new RTCSessionDescription(d)\<close> of a description the
  engine produced is that description.
\<close>

fun svc_resume :: "svc_k \<Rightarrow> sdesc option \<Rightarrow> (pc_op \<times> svc_k) + sdesc option" where
  "svc_resume KOfferCreated v = (case v of Some d \<Rightarrow> Inl (OpSetLocal d, KOfferSet d) | None \<Rightarrow> Inr None)"
| "svc_resume (KOfferSet d) v = Inr (Some d)"
| "svc_resume KRemoteSet v = Inl (OpCreateAnswer, KAnswerCreated)"
| "svc_resume KAnswerCreated v = (case v of Some a \<Rightarrow> Inl (OpSetLocal a, KAnswerSet a) | None \<Rightarrow> Inr None)"
| "svc_resume (KAnswerSet a) v = Inr (Some a)"
| "svc_resume KDescSet v = Inr None"

text \<open>How many more operations the method will issue.\<close>

fun k_rank :: "svc_k \<Rightarrow> nat" where
  "k_rank KRemoteSet = 2"
| "k_rank KOfferCreated = 1"
| "k_rank KAnswerCreated = 1"
| "k_rank _ = 0"

text \<open>The synchronous start of a method: it waits on an operation, returns or throws.\<close>

datatype svc_call = Await pc_op svc_k | Return "sdesc option" | Throw pc_error

definition getOffer_start :: "peer_service \<Rightarrow> svc_call" where
  "getOffer_start ps = (case peer ps of None \<Rightarrow> Return None | Some _ \<Rightarrow> Await OpCreateOffer KOfferCreated)"

definition getAnswer_start :: "peer_service \<Rightarrow> sdesc option \<Rightarrow> svc_call" where
  "getAnswer_start ps offer =
     (case peer ps of
       None \<Rightarrow> Return None
     | Some _ \<Rightarrow> (case to_session_description offer of Inl e \<Rightarrow> Throw e | Inr d \<Rightarrow> Await (OpSetRemote d) KRemoteSet))"

definition setRemoteDescription_start :: "peer_service \<Rightarrow> sdesc option \<Rightarrow> svc_call" where
  "setRemoteDescription_start ps desc =
     (case peer ps of
       None \<Rightarrow> Return None
     | Some _ \<Rightarrow> (case to_session_description desc of Inl e \<Rightarrow> Throw e | Inr d \<Rightarrow> Await (OpSetRemote d) KDescSet))"

text \<open>
  A method whose operations run back to back, none of another caller in between
  (termination by the number of operations still to issue).
\<close>

function svc_finish :: "pc \<Rightarrow> pc_op \<Rightarrow> svc_k \<Rightarrow> pc \<times> (pc_error + sdesc option)" where
  "svc_finish p op k =
     (case run_op p op of
       Inl e \<Rightarrow> (p, Inl e)
     | Inr (p', v) \<Rightarrow>
         (case svc_resume k v of
           Inl (op', k') \<Rightarrow> svc_finish p' op' k'
         | Inr r \<Rightarrow> (p', Inr r)))"
  by pat_completeness auto
termination
proof (relation "measure (\<lambda>(p, op, k). k_rank k)")
  fix p op k x p' v y op' k'
  assume "svc_resume k v = Inl y" "(op', k') = y"
  then show "((p', op', k'), p, op, k) \<in> measure (\<lambda>(p, op, k). k_rank k)"
    by (cases k) (auto split: option.splits)
qed simp

declare svc_finish.simps [simp del]

definition svc_complete :: "peer_service \<Rightarrow> svc_call \<Rightarrow> peer_service \<times> (pc_error + sdesc option)" where
  "svc_complete ps c =
     (case c of
       Return v \<Rightarrow> (ps, Inr v)
     | Throw e \<Rightarrow> (ps, Inl e)
     | Await op k \<Rightarrow>
         (case peer ps of
           None \<Rightarrow> (ps, Inr None)
         | Some p \<Rightarrow> (case svc_finish p op k of (p', r) \<Rightarrow> (ps\<lparr>peer := Some p'\<rparr>, r))))"

subsection \<open>The chained methods are the atomic ones when nothing comes in between\<close>

lemma svc_finish_last [simp]:
  "svc_finish p op (KOfferSet d) = (case run_op p op of Inl e \<Rightarrow> (p, Inl e) | Inr (p', v) \<Rightarrow> (p', Inr (Some d)))"
  "svc_finish p op (KAnswerSet d) = (case run_op p op of Inl e \<Rightarrow> (p, Inl e) | Inr (p', v) \<Rightarrow> (p', Inr (Some d)))"
  "svc_finish p op KDescSet = (case run_op p op of Inl e \<Rightarrow> (p, Inl e) | Inr (p', v) \<Rightarrow> (p', Inr None))"
  by (subst svc_finish.simps; simp split: sum.split prod.split)+

lemma svc_finish_next [simp]:
  "svc_finish p op KOfferCreated = (case run_op p op of Inl e \<Rightarrow> (p, Inl e)
     | Inr (p', v) \<Rightarrow> (case v of Some d \<Rightarrow> svc_finish p' (OpSetLocal d) (KOfferSet d) | None \<Rightarrow> (p', Inr None)))"
  "svc_finish p op KAnswerCreated = (case run_op p op of Inl e \<Rightarrow> (p, Inl e)
     | Inr (p', v) \<Rightarrow> (case v of Some a \<Rightarrow> svc_finish p' (OpSetLocal a) (KAnswerSet a) | None \<Rightarrow> (p', Inr None)))"
  "svc_finish p op KRemoteSet = (case run_op p op of Inl e \<Rightarrow> (p, Inl e)
     | Inr (p', v) \<Rightarrow> svc_finish p' OpCreateAnswer KAnswerCreated)"
  by (subst svc_finish.simps; simp split: sum.split prod.split option.split)+

lemma getOffer_chained: "getOffer ps = svc_complete ps (getOffer_start ps)"
  by (cases "peer ps")
     (auto simp: getOffer_def svc_complete_def getOffer_start_def run_op_def pc_createOffer_def
      split: sum.split prod.split)

lemma getAnswer_chained: "getAnswer ps offer = svc_complete ps (getAnswer_start ps offer)"
  by (cases "peer ps")
     (auto simp: getAnswer_def svc_complete_def getAnswer_start_def run_op_def to_session_description_def
      split: option.split sum.split prod.split)

lemma setRemoteDescription_chained:
  "setRemoteDescription ps desc
     = (case svc_complete ps (setRemoteDescription_start ps desc) of (ps', r) \<Rightarrow> (ps', map_sum id (\<lambda>_. ()) r))"
  by (cases "peer ps")
     (auto simp: setRemoteDescription_def svc_complete_def setRemoteDescription_start_def run_op_def
      to_session_description_def split: option.split sum.split prod.split)


end
