(* ===== verification/RoomChain.thy ===== *)
theory RoomChain
  imports RoomAsync PeerChain
begin

text \<open>
  The Room page's handlers with the engine's operations as separate steps. A handler
  runs synchronously up to its first \<open>await\<close> on the service; what the service method
  awaits becomes a \<open>job\<close> of the tab's operations chain, holding the operation, the
  rest of the method (\<open>svc_k\<close>) and what the handler does with the method's result
  (\<open>purpose\<close>): emit it to the socket the closure captured, or, for
  \<open>handleCallAccepted\<close> and \<open>handleNegotiationFinal\<close>, nothing, their \<open>try\<close> catching
  a rejection. The continuations after the engine's operations use only the module's
  connection and the socket, never the page's state setters, so they behave the same
  whether or not the page that started them is still mounted.
\<close>

datatype purpose = ForCall "sid option" | ForNego "sid option" | ForAccept sid | ForNegoDone sid | ForAnswerIn

type_synonym job = "pc_op \<times> svc_k \<times> purpose"

text \<open>The end of a handler, given the result of the service method it awaited.\<close>

fun purpose_out :: "purpose \<Rightarrow> pc_error + sdesc option \<Rightarrow> out_msg list \<times> handler_error option" where
  "purpose_out ForAnswerIn r = ([], None)"
| "purpose_out pu (Inl e) = ([], Some (PcError e))"
| "purpose_out (ForCall to) (Inr v) = ([EmitUserCall to v], None)"
| "purpose_out (ForNego to) (Inr v) = ([EmitNegoNeeded v to], None)"
| "purpose_out (ForAccept f) (Inr v) = ([EmitCallAccepted f v], None)"
| "purpose_out (ForNegoDone f) (Inr v) = ([EmitNegoDone f v], None)"

text \<open>A handler calls a service method: either it waits on an operation or the method settled at once.\<close>

definition svc_begin :: "purpose \<Rightarrow> svc_call \<Rightarrow> job list \<times> out_msg list \<times> handler_error option" where
  "svc_begin pu c =
     (case c of
       Await op k \<Rightarrow> ([(op, k, pu)], [], None)
     | Return v \<Rightarrow> ([], purpose_out pu (Inr v))
     | Throw e \<Rightarrow> ([], purpose_out pu (Inl e)))"

type_synonym chain_result = "room_ctx \<times> job list \<times> out_msg list \<times> handler_error option"

definition with_ctx :: "room_ctx \<Rightarrow> job list \<times> out_msg list \<times> handler_error option \<Rightarrow> chain_result" where
  "with_ctx c r = (case r of (js, out, e) \<Rightarrow> (c, js, out, e))"

text \<open>\<open>handleCallUser\<close> and \<open>handleIncomingCall\<close> after the stream is obtained.\<close>

definition callUser_resume_c :: "room_ctx \<Rightarrow> sid option \<Rightarrow> mstream \<Rightarrow> chain_result" where
  "callUser_resume_c c to st =
     (let c1 = setMystream c st; c2 = c1\<lparr>svc := room_add_tracks (svc c1) st\<rparr>
      in with_ctx c2 (svc_begin (ForCall to) (getOffer_start (svc c2))))"

definition incomingCall_resume_c :: "room_ctx \<Rightarrow> sid \<Rightarrow> sdesc option \<Rightarrow> mstream \<Rightarrow> chain_result" where
  "incomingCall_resume_c c from offer st =
     (let c1 = setMystream c st; c2 = c1\<lparr>svc := room_add_tracks (svc c1) st\<rparr>
      in with_ctx c2 (svc_begin (ForAccept from) (getAnswer_start (svc c2) offer)))"

definition resume_c :: "room_ctx \<Rightarrow> cont \<Rightarrow> mstream \<Rightarrow> chain_result" where
  "resume_c c k st =
     (case k of
       ResumeCall to \<Rightarrow> callUser_resume_c c to st
     | ResumeIncoming f offer \<Rightarrow> incomingCall_resume_c c f offer st)"

definition media_resume_c :: "room_ctx \<Rightarrow> cont \<Rightarrow> gum_outcome \<Rightarrow> chain_result" where
  "media_resume_c c k g =
     (case getUserMedia (devs c) g of
       Inl e \<Rightarrow> (c, [], [], Some e)
     | Inr (md, st) \<Rightarrow> resume_c (c\<lparr>devs := md\<rparr>) k st)"

text \<open>
  The prompt answered after the page was left: the capture devices and the connection
  change, the page state does not.
\<close>

definition resume_detached_c :: "room_ctx \<Rightarrow> cont \<Rightarrow> mstream \<Rightarrow> chain_result" where
  "resume_detached_c c k st = (case resume_c c k st of (c', js, out, e) \<Rightarrow> (c\<lparr>svc := svc c'\<rparr>, js, out, e))"

definition media_resume_detached_c :: "room_ctx \<Rightarrow> cont \<Rightarrow> gum_outcome \<Rightarrow> chain_result" where
  "media_resume_detached_c c k g =
     (case getUserMedia (devs c) g of
       Inl e \<Rightarrow> (c, [], [], Some e)
     | Inr (md, st) \<Rightarrow> resume_detached_c (c\<lparr>devs := md\<rparr>) k st)"

definition handleCallAccepted_c :: "room_ctx \<Rightarrow> sdesc option \<Rightarrow> chain_result" where
  "handleCallAccepted_c c ans = with_ctx c (svc_begin ForAnswerIn (setRemoteDescription_start (svc c) ans))"

definition handleNegotiationNeeded_c :: "room_ctx \<Rightarrow> chain_result" where
  "handleNegotiationNeeded_c c =
     with_ctx c (svc_begin (ForNego (remoteSocketId (rs c))) (getOffer_start (svc c)))"

definition handleNegotiationIncoming_c :: "room_ctx \<Rightarrow> sid \<Rightarrow> sdesc option \<Rightarrow> chain_result" where
  "handleNegotiationIncoming_c c from offer =
     with_ctx c (svc_begin (ForNegoDone from) (getAnswer_start (svc c) offer))"

definition handleNegotiationFinal_c :: "room_ctx \<Rightarrow> sdesc option \<Rightarrow> chain_result" where
  "handleNegotiationFinal_c c ans = with_ctx c (svc_begin ForAnswerIn (setRemoteDescription_start (svc c) ans))"

text \<open>
  The head of the chain settles: the operation runs on the connection and the rest of
  the method runs; it issues its next operation, which joins the end of the chain, or
  returns or rejects, which ends the handler.
\<close>

definition chain_step :: "peer_service \<Rightarrow> job \<Rightarrow> peer_service \<times> job list \<times> out_msg list \<times> handler_error option" where
  "chain_step ps j =
     (case j of (op, k, pu) \<Rightarrow>
       (case peer ps of
         None \<Rightarrow> (ps, [], [], None)
       | Some p \<Rightarrow>
           (case run_op p op of
             Inl e \<Rightarrow> (ps, [], purpose_out pu (Inl e))
           | Inr (p', v) \<Rightarrow>
               (case svc_resume k v of
                 Inl (op', k') \<Rightarrow> (ps\<lparr>peer := Some p'\<rparr>, [(op', k', pu)], [], None)
               | Inr r \<Rightarrow> (ps\<lparr>peer := Some p'\<rparr>, [], purpose_out pu (Inr r))))))"

text \<open>A job run to its end with no other operation in between.\<close>

definition job_finish :: "room_ctx \<Rightarrow> job list \<times> out_msg list \<times> handler_error option \<Rightarrow> handler_result" where
  "job_finish c r =
     (case r of
       ([], out, e) \<Rightarrow> (c, out, e)
     | ((op, k, pu) # _, out, e) \<Rightarrow>
         (case svc_complete (svc c) (Await op k) of (ps, r) \<Rightarrow> (c\<lparr>svc := ps\<rparr>, purpose_out pu r)))"

subsection \<open>The atomic handlers are the chained ones run to the end\<close>

lemma job_finish_svc_begin:
  "job_finish c (svc_begin pu call) = (case svc_complete (svc c) call of (ps, r) \<Rightarrow> (c\<lparr>svc := ps\<rparr>, purpose_out pu r))"
  by (cases call) (simp_all add: job_finish_def svc_begin_def svc_complete_def)

lemmas chained_defs = with_ctx_def job_finish_svc_begin getOffer_chained getAnswer_chained Let_def

lemma handleNegotiationNeeded_chained:
  "handleNegotiationNeeded c = (case handleNegotiationNeeded_c c of (c', js, out, e) \<Rightarrow> job_finish c' (js, out, e))"
  by (simp add: handleNegotiationNeeded_def handleNegotiationNeeded_c_def chained_defs split: prod.split sum.split)

lemma handleNegotiationIncoming_chained:
  "handleNegotiationIncoming c f offer
     = (case handleNegotiationIncoming_c c f offer of (c', js, out, e) \<Rightarrow> job_finish c' (js, out, e))"
  by (simp add: handleNegotiationIncoming_def handleNegotiationIncoming_c_def chained_defs split: prod.split sum.split)

lemma answer_in_chained:
  "handleCallAccepted c ans = (case handleCallAccepted_c c ans of (c', js, out, e) \<Rightarrow> job_finish c' (js, out, e))"
  "handleNegotiationFinal c ans = (case handleNegotiationFinal_c c ans of (c', js, out, e) \<Rightarrow> job_finish c' (js, out, e))"
  by (simp_all add: handleCallAccepted_def handleCallAccepted_c_def handleNegotiationFinal_def
      handleNegotiationFinal_c_def chained_defs setRemoteDescription_chained split: prod.split sum.split)

lemma resume_chained: "resume c k st = (case resume_c c k st of (c', js, out, e) \<Rightarrow> job_finish c' (js, out, e))"
  by (cases k) (simp_all add: resume_def resume_c_def callUser_resume_def callUser_resume_c_def
      incomingCall_resume_def incomingCall_resume_c_def chained_defs split: prod.split sum.split)

lemma media_resume_chained:
  "media_resume c k g = (case media_resume_c c k g of (c', js, out, e) \<Rightarrow> job_finish c' (js, out, e))"
  by (simp add: media_resume_def media_resume_c_def resume_chained job_finish_def split: sum.split prod.split)

lemma media_resume_detached_chained:
  "media_resume_detached c k g
     = (case media_resume_detached_c c k g of (c', js, out, e) \<Rightarrow> job_finish c' (js, out, e))"
proof (cases "getUserMedia (devs c) g")
  case (Inr r)
  obtain md st where "r = (md, st)" by (cases r)
  moreover obtain c' js out e where "resume_c (c\<lparr>devs := md\<rparr>) k st = (c', js, out, e)"
    by (cases "resume_c (c\<lparr>devs := md\<rparr>) k st")
  ultimately show ?thesis using Inr resume_chained [of "c\<lparr>devs := md\<rparr>" k st]
    by (cases js) (auto simp: media_resume_detached_def media_resume_detached_c_def resume_detached_def
        resume_detached_c_def job_finish_def split: prod.split)
qed (simp add: media_resume_detached_def media_resume_detached_c_def job_finish_def)

subsection \<open>A resumed method issues fewer operations\<close>

lemma svc_resume_rank: "svc_resume k v = Inl (op', k') \<Longrightarrow> k_rank k' < k_rank k"
  by (cases k) (auto split: option.splits)

end
