(* ===== verification/ChainSystem.thy ===== *)
theory ChainSystem
  imports AsyncSystem RoomChain
begin

text \<open>
  The system of \<open>AsyncSystem\<close> with the engine's operations as steps of their own. Each
  tab's connection has its operations chain (\<open>chain\<close>); the event \<open>OpDone\<close> settles the
  oldest operation of a tab and runs the rest of the method that awaited it. Between
  any two operations every other event may be handled: messages, user input, engine
  tasks, answers to permission prompts. Following the WebRTC standard, a
  negotiation-needed check that finds operations in the chain does nothing but note that
  the check is to be repeated once the chain is empty (\<open>nego_on_empty\<close>).
\<close>

record csys =
  ca :: asys
  chain :: "sid \<Rightarrow> job list"
  nego_on_empty :: "sid \<Rightarrow> bool"

definition lift_asys :: "asys \<Rightarrow> csys" where
  "lift_asys a = \<lparr>ca = a, chain = (\<lambda>_. []), nego_on_empty = (\<lambda>_. False)\<rparr>"

datatype csys_event = CSync sys_event | CMedia sid nat gum_outcome | OpDone sid

text \<open>A chained handler of tab \<open>i\<close> has run: its state, emits and first operation.\<close>

definition chain_done :: "csys \<Rightarrow> sid \<Rightarrow> client \<Rightarrow> chain_result \<Rightarrow> csys" where
  "chain_done cs i c r =
     (case r of (x, js, out, e) \<Rightarrow>
       cs\<lparr>ca := (ca cs)\<lparr>sy := client_done (sy (ca cs)) i (c\<lparr>ctx := x\<rparr>, out, e)\<rparr>,
          chain := (chain cs)(i := chain cs i @ js)\<rparr>)"

text \<open>The Room's listeners whose handlers await the service (\<open>Room.jsx\<close> lines 118-120).\<close>

fun room_receive_c :: "room_ctx \<Rightarrow> in_msg \<Rightarrow> chain_result option" where
  "room_receive_c c (OnCallAccepted f ans) = Some (handleCallAccepted_c c ans)"
| "room_receive_c c (OnNegoNeeded f offer) = Some (handleNegotiationIncoming_c c f offer)"
| "room_receive_c c (OnNegoFinal f ans) = Some (handleNegotiationFinal_c c ans)"
| "room_receive_c c _ = None"

text \<open>An event that is the same as in \<open>AsyncSystem\<close>; a tab that is closed loses its chain.\<close>

definition async_step :: "csys \<Rightarrow> asys_event \<Rightarrow> csys option" where
  "async_step cs e =
     (case asys_step (ca cs) e of
       None \<Rightarrow> None
     | Some a' \<Rightarrow>
         (let i = (case e of Sync e' \<Rightarrow> ev_sid e' | Media i n g \<Rightarrow> i);
              gone = (clients (sy a') i = None)
          in Some \<lparr>ca = a', chain = (chain cs)(i := if gone then [] else chain cs i),
                   nego_on_empty = (nego_on_empty cs)(i := if gone then False else nego_on_empty cs i)\<rparr>))"

text \<open>
  The engine's negotiation-needed check with a chain that is not empty, and otherwise as
  in \<open>client_pc_task\<close> but with the chained \<open>handleNegotiationNeeded\<close>.
\<close>

definition nego_check_c :: "csys \<Rightarrow> sid \<Rightarrow> client \<Rightarrow> pc \<Rightarrow> csys" where
  "nego_check_c cs i c p1 =
     (if chain cs i \<noteq> []
      then cs\<lparr>ca := (ca cs)\<lparr>sy := client_done (sy (ca cs)) i (c\<lparr>ctx := (ctx c)\<lparr>svc := \<lparr>peer = Some p1\<rparr>\<rparr>\<rparr>, [], None)\<rparr>,
              nego_on_empty := (nego_on_empty cs)(i := True)\<rparr>
      else (let (p2, fire) = nego_task p1; c1 = c\<lparr>ctx := (ctx c)\<lparr>svc := \<lparr>peer = Some p2\<rparr>\<rparr>\<rparr>
            in if fire \<and> route c \<noteq> LobbyPage then chain_done cs i c1 (handleNegotiationNeeded_c (ctx c1))
               else chain_done cs i c1 (ctx c1, [], [], None)))"

text \<open>
  The oldest operation of tab \<open>i\<close> settles. When the chain becomes empty with a check
  outstanding, the engine queues the check again.
\<close>

definition op_done :: "csys \<Rightarrow> sid \<Rightarrow> csys option" where
  "op_done cs i =
     (case (clients (sy (ca cs)) i, chain cs i) of
       (Some c, j # js) \<Rightarrow>
         (case chain_step (svc (ctx c)) j of (ps, js', out, e) \<Rightarrow>
           (if js @ js' = [] \<and> nego_on_empty cs i
            then Some ((chain_done (cs\<lparr>chain := (chain cs)(i := [])\<rparr>) i c
                          ((ctx c)\<lparr>svc := ps\<lparr>peer := map_option pc_update_nego (peer ps)\<rparr>\<rparr>, [], out, e))
                       \<lparr>nego_on_empty := (nego_on_empty cs)(i := False)\<rparr>)
            else Some (chain_done (cs\<lparr>chain := (chain cs)(i := [])\<rparr>) i c ((ctx c)\<lparr>svc := ps\<rparr>, js @ js', out, e))))
     | _ \<Rightarrow> None)"

fun csys_step :: "csys \<Rightarrow> csys_event \<Rightarrow> csys option" where
  "csys_step cs (CSync (ClientRecv i g)) =
     (case (clients (sy (ca cs)) i, down (sy (ca cs)) i) of
       (Some c, m # ms) \<Rightarrow>
         (case (if route c \<noteq> LobbyPage then room_receive_c (ctx c) m else None) of
           Some r \<Rightarrow> Some (chain_done (cs\<lparr>ca := (ca cs)\<lparr>sy := (sy (ca cs))\<lparr>down := (down (sy (ca cs)))(i := ms)\<rparr>\<rparr>\<rparr>) i c r)
         | None \<Rightarrow> async_step cs (Sync (ClientRecv i g)))
     | _ \<Rightarrow> None)"
| "csys_step cs (CSync (PcTask i)) =
     (case clients (sy (ca cs)) i of
       None \<Rightarrow> None
     | Some c \<Rightarrow>
         (case peer (svc (ctx c)) of
           None \<Rightarrow> None
         | Some p \<Rightarrow>
             (case pc_take_event p of
               Some (NegotiationCheck, p1) \<Rightarrow> Some (nego_check_c cs i c p1)
             | _ \<Rightarrow> async_step cs (Sync (PcTask i)))))"
| "csys_step cs (CSync e) = async_step cs (Sync e)"
| "csys_step cs (CMedia i n g) =
     (case clients (sy (ca cs)) i of
       None \<Rightarrow> None
     | Some c \<Rightarrow>
         (if n < length (pend (ca cs) i) then
            (case pend (ca cs) i ! n of (m, k) \<Rightarrow>
              (let r = (if m = mount (ca cs) i \<and> route c \<noteq> LobbyPage then media_resume_c (ctx c) k g
                        else media_resume_detached_c (ctx c) k g);
                   cs1 = cs\<lparr>ca := (ca cs)\<lparr>pend := (pend (ca cs))(i := take n (pend (ca cs) i) @ drop (Suc n) (pend (ca cs) i))\<rparr>\<rparr>
               in Some (chain_done cs1 i c r)))
          else None))"
| "csys_step cs (OpDone i) = op_done cs i"

fun csys_run :: "csys \<Rightarrow> csys_event list \<Rightarrow> csys option" where
  "csys_run cs [] = Some cs"
| "csys_run cs (e # es) = (case csys_step cs e of None \<Rightarrow> None | Some cs' \<Rightarrow> csys_run cs' es)"

inductive creachable :: "csys \<Rightarrow> bool" where
  init: "creachable (lift_asys (lift_sys sys_init))"
| step: "creachable cs \<Longrightarrow> csys_step cs e = Some cs' \<Longrightarrow> creachable cs'"


end
