(* ===== verification/ChainRefine.thy ===== *)
theory ChainRefine
  imports ChainSystem
begin

text \<open>
  The system with the engine's operations as steps of their own (\<open>ChainSystem\<close>) and the
  one where every handler runs its operations at once (\<open>AsyncSystem\<close>) are related by
  a simulation: a step of \<open>AsyncSystem\<close> from a state with empty operations chains is
  the same event of \<open>ChainSystem\<close> followed by settling the operations it queued,
  none of another handler in between. \<open>ChainSystem\<close> thus adds behaviours only by the
  interleavings it allows between the operations; the last section shows one of
  them, an incoming offer that overtakes the Call handler's own offer.
\<close>

definition lift_event :: "asys_event \<Rightarrow> csys_event" where
  "lift_event e = (case e of Sync e' \<Rightarrow> CSync e' | Media i n g \<Rightarrow> CMedia i n g)"

fun asys_sid :: "asys_event \<Rightarrow> sid" where
  "asys_sid (Sync e) = ev_sid e"
| "asys_sid (Media i n g) = i"

text \<open>
  A chained handler that has queued at most one operation, and, if it queued one,
  emitted nothing yet: what every handler of \<open>RoomChain\<close> leaves.
\<close>

definition job_ready :: "chain_result \<Rightarrow> bool" where
  "job_ready r \<longleftrightarrow>
     (case r of (x, js, out, e) \<Rightarrow> js = [] \<or> (length js = 1 \<and> out = [] \<and> e = None \<and> peer (svc x) \<noteq> None))"

definition finish_result :: "chain_result \<Rightarrow> handler_result" where
  "finish_result r = (case r of (x, js, out, e) \<Rightarrow> job_finish x (js, out, e))"

subsection \<open>Settling the operations of one handler\<close>

lemma chain_done_nil:
  "chain cs i = [] \<Longrightarrow>
   chain_done cs i c (x, [], r) = cs\<lparr>ca := (ca cs)\<lparr>sy := client_done (sy (ca cs)) i (lift_room c (x, r))\<rparr>\<rparr>"
  by (cases r) (simp add: chain_done_def lift_room_def fun_upd_idem)

lemma op_done_job:
  assumes ch: "chain cs i = []" and ne: "\<not> nego_on_empty cs i" and p: "peer (svc x) = Some p"
  shows "op_done (chain_done cs i c (x, [(op, k, pu)], [], None)) i =
    Some (case run_op p op of
            Inl e \<Rightarrow> chain_done cs i c (x, [], purpose_out pu (Inl e))
          | Inr (p', v) \<Rightarrow>
              (case svc_resume k v of
                Inl (op', k') \<Rightarrow> chain_done cs i c (x\<lparr>svc := (svc x)\<lparr>peer := Some p'\<rparr>\<rparr>, [(op', k', pu)], [], None)
              | Inr r \<Rightarrow> chain_done cs i c (x\<lparr>svc := (svc x)\<lparr>peer := Some p'\<rparr>\<rparr>, [], purpose_out pu (Inr r))))"
  using ch ne p
  by (auto simp: op_done_def chain_done_def client_done_def chain_step_def
      split: sum.split prod.split)

lemma svc_finish_unfold:
  "svc_finish p op k =
     (case run_op p op of
       Inl e \<Rightarrow> (p, Inl e)
     | Inr (p', v) \<Rightarrow> (case svc_resume k v of Inl (op', k') \<Rightarrow> svc_finish p' op' k' | Inr r \<Rightarrow> (p', Inr r)))"
  by (rule svc_finish.simps)

lemma drain_job:
  assumes ch: "chain cs i = []" and ne: "\<not> nego_on_empty cs i" and p: "peer (svc x) = Some p"
  shows "\<exists>n. csys_run (chain_done cs i c (x, [(op, k, pu)], [], None)) (replicate n (OpDone i))
           = Some (case svc_finish p op k of (p', r) \<Rightarrow> chain_done cs i c (x\<lparr>svc := (svc x)\<lparr>peer := Some p'\<rparr>\<rparr>, [], purpose_out pu r))"
  using p
proof (induction "k_rank k" arbitrary: x p op k rule: less_induct)
  case less
  have x: "x\<lparr>svc := (svc x)\<lparr>peer := Some p\<rparr>\<rparr> = x" using less.prems by simp
  show ?case
  proof (cases "run_op p op")
    case (Inl e)
    then show ?thesis using op_done_job [OF ch ne less.prems, of c op k pu] x
      by (intro exI [of _ 1]) (simp add: svc_finish_unfold)
  next
    case (Inr pv)
    obtain p' v where pv: "pv = (p', v)" by (cases pv)
    show ?thesis
    proof (cases "svc_resume k v")
      case (Inl ok)
      obtain op' k' where ok: "ok = (op', k')" by (cases ok)
      have r: "k_rank k' < k_rank k" using svc_resume_rank Inl ok by blast
      obtain n where n: "csys_run (chain_done cs i c (x\<lparr>svc := (svc x)\<lparr>peer := Some p'\<rparr>\<rparr>, [(op', k', pu)], [], None))
                           (replicate n (OpDone i))
          = Some (case svc_finish p' op' k' of (p'', r) \<Rightarrow>
                    chain_done cs i c (x\<lparr>svc := (svc x)\<lparr>peer := Some p''\<rparr>\<rparr>, [], purpose_out pu r))"
        using less.hyps [OF r, of "x\<lparr>svc := (svc x)\<lparr>peer := Some p'\<rparr>\<rparr>" p' op'] by auto
      show ?thesis using op_done_job [OF ch ne less.prems, of c op k pu] Inr pv Inl ok n
        by (intro exI [of _ "Suc n"]) (simp add: svc_finish_unfold [of p op k])
    next
      case (Inr r)
      then show ?thesis using op_done_job [OF ch ne less.prems, of c op k pu] \<open>run_op p op = Inr pv\<close> pv
        by (intro exI [of _ 1]) (simp add: svc_finish_unfold [of p op k])
    qed
  qed
qed

lemma drain_ready:
  assumes ch: "chain cs i = []" and ne: "\<not> nego_on_empty cs i" and rd: "job_ready r"
  shows "\<exists>n. csys_run (chain_done cs i c r) (replicate n (OpDone i))
           = Some (cs\<lparr>ca := (ca cs)\<lparr>sy := client_done (sy (ca cs)) i (lift_room c (finish_result r))\<rparr>\<rparr>)"
proof -
  obtain x js out e where r: "r = (x, js, out, e)" by (cases r)
  show ?thesis
  proof (cases js)
    case Nil
    then show ?thesis using r ch by (intro exI [of _ 0]) (simp add: chain_done_nil finish_result_def job_finish_def)
  next
    case (Cons j js')
    obtain op k pu where j: "j = (op, k, pu)" by (cases j)
    have js: "js' = []" "out = []" "e = None" and "peer (svc x) \<noteq> None" using rd r Cons by (auto simp: job_ready_def)
    then obtain p where p: "peer (svc x) = Some p" by blast
    obtain p' res where f: "svc_finish p op k = (p', res)" by (cases "svc_finish p op k")
    show ?thesis using drain_job [OF ch ne p, of c op k pu] r Cons j js p f ch
      by (simp add: chain_done_nil finish_result_def job_finish_def svc_complete_def)
  qed
qed

subsection \<open>Every chained handler leaves one operation at most\<close>

lemma job_ready_begin:
  "(\<And>op k. call = Await op k \<Longrightarrow> peer (svc x) \<noteq> None) \<Longrightarrow> job_ready (with_ctx x (svc_begin pu call))"
  by (cases call) (auto simp: job_ready_def with_ctx_def svc_begin_def)

lemma starts_await:
  "getOffer_start ps = Await op k \<Longrightarrow> peer ps \<noteq> None"
  "getAnswer_start ps d = Await op k \<Longrightarrow> peer ps \<noteq> None"
  "setRemoteDescription_start ps d = Await op k \<Longrightarrow> peer ps \<noteq> None"
  by (auto simp: getOffer_start_def getAnswer_start_def setRemoteDescription_start_def split: option.splits)

lemma chained_ready:
  "job_ready (handleCallAccepted_c c ans)"
  "job_ready (handleNegotiationNeeded_c c)"
  "job_ready (handleNegotiationIncoming_c c f offer)"
  "job_ready (handleNegotiationFinal_c c ans)"
  "job_ready (resume_c c k st)"
  by (auto simp: handleCallAccepted_c_def handleNegotiationNeeded_c_def handleNegotiationIncoming_c_def
      handleNegotiationFinal_c_def resume_c_def callUser_resume_c_def incomingCall_resume_c_def Let_def
      intro!: job_ready_begin dest: starts_await split: cont.split)

lemma media_ready:
  "job_ready (media_resume_c c k g) \<and> job_ready (media_resume_detached_c c k g)"
proof (cases "getUserMedia (devs c) g")
  case (Inr ms)
  obtain md st where ms: "ms = (md, st)" by (cases ms)
  obtain x js out e where r: "resume_c (c\<lparr>devs := md\<rparr>) k st = (x, js, out, e)"
    by (cases "resume_c (c\<lparr>devs := md\<rparr>) k st")
  have "job_ready (x, js, out, e)" using chained_ready(5) [of "c\<lparr>devs := md\<rparr>" k st] r by simp
  then show ?thesis
    using Inr ms r by (simp add: media_resume_c_def media_resume_detached_c_def resume_detached_c_def job_ready_def)
qed (simp add: media_resume_c_def media_resume_detached_c_def job_ready_def)

subsection \<open>The simulation\<close>

lemma async_step_lift: "async_step (lift_asys a) e = map_option lift_asys (asys_step a e)"
  by (cases "asys_step a e") (simp_all add: async_step_def lift_asys_def fun_upd_idem)

lemma drain_lift:
  assumes "job_ready r"
  shows "\<exists>n. csys_run (chain_done (lift_asys a) i c r) (replicate n (OpDone i))
           = Some (lift_asys (a\<lparr>sy := client_done (sy a) i (lift_room c (finish_result r))\<rparr>))"
  using drain_ready [of "lift_asys a" i r c] assms by (simp add: lift_asys_def)

lemma csys_run_step_drain:
  "csys_step cs e = Some cs1 \<Longrightarrow> \<exists>n. csys_run cs1 (replicate n (OpDone i)) = Some cs2 \<Longrightarrow>
   \<exists>n. csys_run cs (e # replicate n (OpDone i)) = Some cs2"
  by simp

lemma refine_media:
  assumes st: "asys_step a (Media i n g) = Some a'"
  shows "\<exists>m. csys_run (lift_asys a) (CMedia i n g # replicate m (OpDone i)) = Some (lift_asys a')"
proof -
  obtain c where c: "clients (sy a) i = Some c" and n: "n < length (pend a i)"
    using asys_step_Media_Some [OF st] by blast
  obtain mt k where pk: "pend a i ! n = (mt, k)" by (cases "pend a i ! n")
  define a1 where "a1 = a\<lparr>pend := (pend a)(i := take n (pend a i) @ drop (Suc n) (pend a i))\<rparr>"
  define r where "r = (if mt = mount a i \<and> route c \<noteq> LobbyPage then media_resume_c (ctx c) k g
                       else media_resume_detached_c (ctx c) k g)"
  have fin: "finish_result r = (if mt = mount a i \<and> route c \<noteq> LobbyPage then media_resume (ctx c) k g
                       else media_resume_detached (ctx c) k g)"
    by (simp add: r_def finish_result_def media_resume_chained media_resume_detached_chained split: prod.split)
  have a': "a' = a1\<lparr>sy := client_done (sy a1) i (lift_room c (finish_result r))\<rparr>"
    using st unfolding asys_step_Media [OF c n pk] fin a1_def by simp
  have cs: "csys_step (lift_asys a) (CMedia i n g) = Some (chain_done (lift_asys a1) i c r)"
    using c n pk by (simp add: lift_asys_def a1_def r_def)
  have "job_ready r" using media_ready by (simp add: r_def)
  then show ?thesis using csys_run_step_drain [OF cs drain_lift] a' by blast
qed

lemma sync_step_local:
  assumes "sys_step (sy a) e = Some (client_done s0 (ev_sid e) (lift_room c r))"
    and "clients (sy a) (ev_sid e) = Some c0" and "route c = route c0"
  shows "sync_step a e = Some (a\<lparr>sy := client_done s0 (ev_sid e) (lift_room c r)\<rparr>)"
  using assms by (cases r; cases a) (simp add: sync_step_def lift_room_def client_done_def Let_def)

lemma room_receive_chained:
  "room_receive_c (ctx c) m = Some r \<Longrightarrow> room_receive c m g = lift_room c (finish_result r)"
  by (cases m) (auto simp: room_receive_def finish_result_def answer_in_chained
      handleNegotiationIncoming_chained split: prod.split)

lemma refine_receive:
  assumes st: "asys_step a (Sync (ClientRecv i g)) = Some a'"
  shows "\<exists>n. csys_run (lift_asys a) (CSync (ClientRecv i g) # replicate n (OpDone i)) = Some (lift_asys a')"
proof -
  obtain c m ms where c: "clients (sy a) i = Some c" and d: "down (sy a) i = m # ms"
    using st by (cases "clients (sy a) i"; cases "down (sy a) i") (simp_all add: sync_step_def)
  show ?thesis
  proof (cases "if route c \<noteq> LobbyPage then room_receive_c (ctx c) m else None")
    case None
    then have "csys_step (lift_asys a) (CSync (ClientRecv i g)) = async_step (lift_asys a) (Sync (ClientRecv i g))"
      using c d by (simp add: lift_asys_def)
    then show ?thesis using st async_step_lift by (intro exI [of _ 0]) simp
  next
    case (Some r)
    then have rt: "route c \<noteq> LobbyPage" and rr: "room_receive_c (ctx c) m = Some r" by (auto split: if_splits)
    define a0 where "a0 = a\<lparr>sy := (sy a)\<lparr>down := (down (sy a))(i := ms)\<rparr>\<rparr>"
    have cs: "csys_step (lift_asys a) (CSync (ClientRecv i g)) = Some (chain_done (lift_asys a0) i c r)"
      using c d Some by (simp add: lift_asys_def a0_def)
    have "sys_step (sy a) (ClientRecv i g) = Some (client_done (sy a0) i (lift_room c (finish_result r)))"
      using c d rt room_receive_chained [OF rr, of g]
      by (cases "route c") (simp_all add: a0_def client_receive_def)
    then have "sync_step a (ClientRecv i g) = Some (a0\<lparr>sy := client_done (sy a0) i (lift_room c (finish_result r))\<rparr>)"
      using sync_step_local [of a "ClientRecv i g"] c by (simp add: a0_def)
    moreover have "asys_step a (Sync (ClientRecv i g)) = sync_step a (ClientRecv i g)"
      using c d rr by (cases m) simp_all
    ultimately have a': "a' = a0\<lparr>sy := client_done (sy a0) i (lift_room c (finish_result r))\<rparr>" using st by simp
    have "job_ready r" using rr chained_ready by (cases m) auto
    then show ?thesis using csys_run_step_drain [OF cs drain_lift] a' by blast
  qed
qed

lemma refine_pc_task:
  assumes st: "asys_step a (Sync (PcTask i)) = Some a'"
  shows "\<exists>n. csys_run (lift_asys a) (CSync (PcTask i) # replicate n (OpDone i)) = Some (lift_asys a')"
proof -
  obtain c p ev p1 where c: "clients (sy a) i = Some c" and p: "peer (svc (ctx c)) = Some p"
    and t: "pc_take_event p = Some (ev, p1)"
    using st by (auto simp: sync_step_def client_pc_task_def split: option.splits)
  show ?thesis
  proof (cases ev)
    case NegotiationCheck
    obtain p2 fire where nt: "nego_task p1 = (p2, fire)" by (cases "nego_task p1")
    define c1 where "c1 = c\<lparr>ctx := (ctx c)\<lparr>svc := \<lparr>peer = Some p2\<rparr>\<rparr>\<rparr>"
    define r where "r = (if fire \<and> route c \<noteq> LobbyPage then handleNegotiationNeeded_c (ctx c1) else (ctx c1, [], [], None))"
    have cs: "csys_step (lift_asys a) (CSync (PcTask i)) = Some (chain_done (lift_asys a) i c1 r)"
      using c p t NegotiationCheck nt by (simp add: lift_asys_def nego_check_c_def c1_def r_def Let_def)
    have fin: "lift_room c1 (finish_result r) = lift_room c (finish_result r)"
      by (simp add: c1_def lift_room_def split: prod.split)
    have "client_pc_task c = Some (lift_room c (finish_result r))"
      using p t NegotiationCheck nt fin
      by (simp add: client_pc_task_def r_def c1_def finish_result_def handleNegotiationNeeded_chained
          lift_room_def job_finish_def Let_def split: prod.split)
    then have "sys_step (sy a) (PcTask i) = Some (client_done (sy a) i (lift_room c (finish_result r)))"
      using c by simp
    then have a': "a' = a\<lparr>sy := client_done (sy a) i (lift_room c (finish_result r))\<rparr>"
      using st sync_step_local [of a "PcTask i"] c by simp
    have "job_ready r" using chained_ready(2) by (simp add: r_def job_ready_def)
    then show ?thesis using csys_run_step_drain [OF cs drain_lift] a' fin by (simp add: c1_def)
  next
    case (TrackEvent te)
    then have "csys_step (lift_asys a) (CSync (PcTask i)) = async_step (lift_asys a) (Sync (PcTask i))"
      using c p t by (simp add: lift_asys_def)
    then show ?thesis using st async_step_lift by (intro exI [of _ 0]) simp
  qed
qed

lemma csys_step_sync_other:
  "(\<And>i g. e \<noteq> ClientRecv i g) \<Longrightarrow> (\<And>i. e \<noteq> PcTask i) \<Longrightarrow> csys_step cs (CSync e) = async_step cs (Sync e)"
  by (cases e) auto

lemma asys_step_simulated:
  "asys_step a e = Some a' \<Longrightarrow>
   \<exists>n. csys_run (lift_asys a) (lift_event e # replicate n (OpDone (asys_sid e))) = Some (lift_asys a')"
proof (cases e)
  case (Media i n g)
  then show "asys_step a e = Some a' \<Longrightarrow> ?thesis" using refine_media by (simp add: lift_event_def)
next
  case (Sync e0)
  assume st: "asys_step a e = Some a'"
  show ?thesis
  proof (cases "\<exists>i g. e0 = ClientRecv i g")
    case True
    then obtain i g where e0: "e0 = ClientRecv i g" by blast
    then have "asys_step a (Sync (ClientRecv i g)) = Some a'" using st Sync by simp
    from refine_receive [OF this] show ?thesis using Sync e0 by (simp add: lift_event_def)
  next
    case nr: False
    show ?thesis
    proof (cases "\<exists>i. e0 = PcTask i")
      case True
      then obtain i where e0: "e0 = PcTask i" by blast
      then have "asys_step a (Sync (PcTask i)) = Some a'" using st Sync by simp
      from refine_pc_task [OF this] show ?thesis using Sync e0 by (simp add: lift_event_def)
    next
      case False
      then have "csys_step (lift_asys a) (CSync e0) = async_step (lift_asys a) (Sync e0)"
        using nr by (intro csys_step_sync_other) auto
      then show ?thesis using st Sync async_step_lift by (intro exI [of _ 0]) (simp add: lift_event_def)
    qed
  qed
qed

lemma creachable_run: "creachable cs \<Longrightarrow> csys_run cs es = Some cs' \<Longrightarrow> creachable cs'"
proof (induction es arbitrary: cs)
  case (Cons e es)
  then obtain cs1 where s1: "csys_step cs e = Some cs1" and r: "csys_run cs1 es = Some cs'"
    by (cases "csys_step cs e") auto
  show ?case using Cons.IH [OF creachable.step [OF Cons.prems(1) s1] r] .
qed simp

lemma areachable_creachable: "areachable a \<Longrightarrow> creachable (lift_asys a)"
proof (induction rule: areachable.induct)
  case init
  show ?case by (rule creachable.init)
next
  case (step a e a')
  then obtain n where "csys_run (lift_asys a) (lift_event e # replicate n (OpDone (asys_sid e))) = Some (lift_asys a')"
    using asys_step_simulated by blast
  then show ?case using creachable_run [OF step.IH] by blast
qed

subsection \<open>An offer that crosses the own Call\<close>

text \<open>
  C22. When both participants press Call, an incoming offer can be applied between
  the two operations of the Call handler's \<open>getOffer\<close> (\<open>peer.js\<close> lines 59 and
  60): whatever the state, if a tab's chain holds the \<open>createOffer\<close> of
  \<open>handleCallUser\<close> followed by the \<open>setRemoteDescription\<close> of an incoming call's
  offer, settling them leaves the connection in \<open>have-remote-offer\<close> when the
  \<open>setLocalDescription\<close> of the own offer comes up, so it rejects and
  \<open>handleCallUser\<close>, which does not catch, never emits its \<open>user:call\<close>. The own offer
  was created (\<open>offer_count\<close> grows) but is never sent; the incoming offer is answered
  and the connection ends stable on it. Of the five settled operations only the
  \<open>call:accepted\<close> is emitted.
\<close>

theorem crossing_offer_rejects_own_offer:
  assumes c: "clients (sy (ca cs)) i = Some c" and p: "peer (svc (ctx c)) = Some p"
    and d: "sd_type d = Offer"
    and ch: "chain cs i = [(OpCreateOffer, KOfferCreated, ForCall to), (OpSetRemote d, KRemoteSet, ForAccept f)]"
  shows "\<exists>cs' c' p' a. csys_run cs (replicate 5 (OpDone i)) = Some cs'
     \<and> clients (sy (ca cs')) i = Some c' \<and> peer (svc (ctx c')) = Some p'
     \<and> up (sy (ca cs')) i = up (sy (ca cs)) i @ [EmitCallAccepted f (Some a)]
     \<and> signaling p' = Stable \<and> remote_desc p' = Some d \<and> local_desc p' = Some a
     \<and> sd_type a = Answer \<and> sd_serial a = sd_serial d
     \<and> offer_count p' = Suc (offer_count p) \<and> chain cs' i = []"
  using c p d ch
  by (simp add: numeral_eq_Suc op_done_def chain_done_def client_done_def chain_step_def run_op_def
      pc_createOffer_def pc_setRemoteDescription_def pc_setLocalDescription_def pc_createAnswer_def
      pc_rollback_def Let_def)

end
