(* ===== verification/Spec2Isabelle.thy ===== *)
theory Spec2Isabelle
  imports System CallSpec AsyncSystem ChainRefine
begin

text \<open>
  \<^bold>\<open>A verification development of the socketIo video-call client.\<close>

  \<^bold>\<open>The program.\<close> A React single-page client (\<open>src/client/src\<close>) lets two people
  meet in a named room and start a WebRTC call. The Lobby page
  (\<open>pages/Lobby.jsx\<close>) asks for an e-mail and a room and emits \<open>room:join\<close>; on
  the relay's \<open>room:join\<close> acknowledgement it navigates to \<open>/room/:id\<close>. The Room page
  (\<open>pages/Room.jsx\<close>) learns the other participant from \<open>user:joined\<close>; pressing
  Call captures camera and microphone, adds the tracks to the connection and emits an
  offer (\<open>user:call\<close>); the callee answers (\<open>call:accepted\<close>); renegotiation uses
  \<open>peer:nego:needed\<close>/\<open>peer:nego:done\<close>; remote tracks arrive as \<open>track\<close> events.
  Both pages share one module instance of \<open>service/peer.js\<close>, a wrapper around
  one \<open>RTCPeerConnection\<close>. The signalling server is not in the repository.

  \<^bold>\<open>Theories and what they model.\<close>
  \<^item> \<open>Prelude\<close>: identifier types and \<open>try_each\<close>, the source's loops whose body
    may throw, each exception caught and ignored.
  \<^item> \<open>PeerConnection\<close> (from the specification and the WebRTC standard, the
    browser's code not being in the repository): the engine's state as the record
    \<open>pc\<close> (signalling state, pending, current and remote descriptions, senders,
    receivers, the engine's task queue), and \<open>addTrack\<close>, \<open>createOffer\<close>,
    \<open>createAnswer\<close>, \<open>setLocalDescription\<close>, \<open>setRemoteDescription\<close> (with the
    implicit rollback of an offer in have-local-offer), the queued negotiation-needed
    check \<open>nego_task\<close> and the delivery of \<open>track\<close> events. Errors are \<open>Inl\<close> values
    of \<open>pc_error\<close>. The invariant \<open>pc_wf\<close> (no track sent twice, no receiver
    twice, a remote offer present in have-remote-offer) is preserved by every operation.
  \<^item> \<open>PeerService\<close>: \<open>peer.js\<close> line by line: the constructor (\<open>PeerService_ctor\<close>,
    \<open>peer_module\<close>), \<open>addLocalTracks\<close>, \<open>getAnswer\<close>, \<open>setRemoteDescription\<close>,
    \<open>setLocalDescription\<close>, \<open>getOffer\<close>; each returns the new service state with
    \<open>Inl\<close> for a rejected promise (the state then as far as the method got). The
    lemmas give each method's result on every branch (C1, C2, C4 to C6) and show that the
    methods keep the connection \<open>settled\<close>: every sender's track is in the description
    that will be current, and no remote offer is pending.
  \<^item> \<open>Socket\<close>: the socket.io events, emitted (\<open>out_msg\<close>) and received (\<open>in_msg\<close>).
  \<^item> \<open>Room\<close>: the Room page's state (\<open>room_state\<close>), its context with the service
    and the capture devices (\<open>room_ctx\<close>), \<open>getUserMedia\<close> (granted or
    \<open>NotAllowedError\<close>, fresh track ids from a counter), and one definition per handler
    (\<open>handleUserJoined\<close>, \<open>handleCallUser\<close>, \<open>handleIncomingCall\<close>,
    \<open>handleCallAccepted\<close>, \<open>handleNegotiationNeeded\<close>, \<open>handleNegotiationIncoming\<close>,
    \<open>handleNegotiationFinal\<close>, \<open>handleTrack\<close>), plus \<open>setMystream\<close> with the effect
    that stops the previous stream and the mount/unmount effects. A handler returns
    the new context, the messages it emitted and the error that escaped it. C7 to
    C14. \<open>new MediaStream(tracks)\<close> (line 100) is modelled after the Media Capture
    standard: a track already in the stream's track set is not added again
    (\<open>new_MediaStream_tracks\<close>).
  \<^item> \<open>Lobby\<close>: the form state, \<open>handleSubmitForm\<close>, \<open>handleJoinRoom\<close>.
  \<^item> \<open>View\<close>: what the pages render (\<open>room_view\<close>, Room.jsx lines 166-214;
    \<open>lobby_view\<close>, Lobby.jsx lines 32-47) as an \<open>element\<close> tree whose conditional
    parts follow JavaScript truthiness (\<open>truthy_sid\<close>: an empty id shows no Call
    button); the two effects of lines 138-158 that bind the streams to the video
    elements (\<open>bind_video\<close>, \<open>room_commit\<close>, the \<open>srcObject\<close> of each element as
    \<open>video_dom\<close>), with C26 showing that each element always shows its stream; and
    the browser's validation of the \<open>type='email'\<close> input (\<open>valid_email\<close> after the
    HTML standard), which decides whether submitting the form reaches the handler.
  \<^item> \<open>Client\<close>: one browser tab: the route, both pages' state and the shared service;
    \<open>client_receive\<close> dispatches an incoming event to the listener the mounted page
    registered (events with no listener are dropped), \<open>client_pc_task\<close> runs the
    engine's oldest queued task, \<open>client_input\<close> the user's typing and clicks on the
    controls the view shows.
  \<^item> \<open>Relay\<close> (from the specification): the room directory and relay, with its
    invariant \<open>rooms_ok\<close> (one or two distinct connected occupants per room, nobody
    in two rooms).
  \<^item> \<open>System\<close>: the server, the tabs and the two FIFO queues of every socket;
    \<open>sys_step\<close> performs one step chosen by the environment (connect, disconnect,
    user input, server or client handling its oldest message, an engine task) and
    \<open>reachable\<close> is its reachability relation. \<open>sys_inv\<close> holds in every reachable
    state (\<open>reachable_sys_inv\<close>, by rule induction). Its part on the capture
    devices (\<open>client_ok\<close>) holds only because this model runs each handler to its end
    in one step; with the permission prompt as a real wait it fails (C16).
  \<^item> \<open>CallSpec\<close>: the call state machine of the specification (section 4.4) as the
    inductive relation \<open>call_step\<close>, the abstraction \<open>call_abs\<close> of a Room page to it
    (read off the connection's signalling state and remote description), the
    refinement lemmas for the handlers (C18, C19), one offer/answer round trip between
    two services (C3), and the places where the code departs from the table (C20,
    C21).
  \<^item> \<open>RoomAsync\<close>: the two call handlers cut at their \<open>await getUserMedia\<close> into a
    start (\<open>callUser_start\<close>, \<open>incomingCall_start\<close>) and a continuation
    (\<open>callUser_resume\<close>, \<open>incomingCall_resume\<close>, run detached when the page that
    started it is gone); the atomic handlers are the two halves back to back.
  \<^item> \<open>AsyncSystem\<close>: the system with the permission prompt as a real suspension:
    outstanding continuations per tab, tagged with the mount of the page, answered by
    the event \<open>Media\<close> in any order and interleaved with every other event. C25 shows
    that the negotiation invariant still holds with the prompts interleaved, and C16
    that leaving the Room page while a prompt is open leaks the capture devices.
  \<^item> \<open>PeerChain\<close>: the \<open>await\<close>s inside \<open>peer.js\<close>. Each engine call is an
    operation (\<open>pc_op\<close>, run by \<open>run_op\<close>) of the connection's operations chain;
    a method is its synchronous start (\<open>getOffer_start\<close>, \<open>getAnswer_start\<close>,
    \<open>setRemoteDescription_start\<close>) and, after each settled operation, the piece of
    code up to its next \<open>await\<close> (\<open>svc_resume\<close> on the resumption point
    \<open>svc_k\<close>). \<open>svc_finish\<close> runs the operations back to back (a \<open>function\<close>
    terminating by \<open>k_rank\<close>, the number of operations left) is, by
    \<open>getOffer_chained\<close> and its siblings, the atomic method of \<open>PeerService\<close>.
  \<^item> \<open>RoomChain\<close>: the Room handlers that await the service, cut at that
    \<open>await\<close> (\<open>callUser_resume_c\<close>, \<open>incomingCall_resume_c\<close>,
    \<open>handleCallAccepted_c\<close>, \<open>handleNegotiationNeeded_c\<close>,
    \<open>handleNegotiationIncoming_c\<close>, \<open>handleNegotiationFinal_c\<close>): each leaves a
    \<open>job\<close> (operation, resumption point, and \<open>purpose\<close>, what the handler does with
    the result); \<open>chain_step\<close> settles a job. Each atomic handler is its chained
    version run to the end.
  \<^item> \<open>ChainSystem\<close>: the system of \<open>AsyncSystem\<close> with an operations chain per tab
    (\<open>csys\<close>); the event \<open>OpDone\<close> settles the oldest operation of a tab
    (\<open>op_done\<close>), a new operation joins the end of the chain, and the
    negotiation-needed check is deferred while the chain is not empty
    (\<open>nego_check_c\<close>).
  \<^item> \<open>ChainRefine\<close>: the link between the two systems (every step of
    \<open>AsyncSystem\<close> is the same event of \<open>ChainSystem\<close> followed by settling the
    operations the handler queued, \<open>asys_step_simulated\<close>, so every state reachable
    there is reachable here), and the race that only the chained system shows: an
    incoming offer applied between the two operations of the Call handler's
    \<open>getOffer\<close> makes its \<open>setLocalDescription\<close> reject, and the own offer is never
    sent (C22).
  \<^item> This theory: the runs used as scenarios and the properties of the whole system
    (C15, C17, C23, C24): the bound on the occupancy of rooms, the renegotiation path
    never firing with no renegotiation message in transit, well-typed messages in
    transit and validated e-mails in transit; and the witnesses of the properties
    with hypotheses, which apply them at states reached by concrete runs evaluated by
    \<open>code_simp\<close> in the kernel.

  \<^bold>\<open>Modelling choices.\<close> In \<open>System\<close> each handler runs to completion as one step.
  \<open>AsyncSystem\<close> refines this at the suspension that takes the user's time, the
  permission prompt of \<open>getUserMedia\<close>, and \<open>ChainSystem\<close> at the engine's own
  \<open>await\<close>s (creating and applying descriptions), which is where the race of C22
  appears. No loop of the program is unbounded: every function is total (\<open>fun\<close>
  with structural recursion, \<open>svc_finish\<close> with its measure), no fuel is needed,
  and a run is \<open>None\<close> only when one of its steps is impossible (a message to a
  socket with an empty queue, a prompt that is not open, an operation with an empty
  chain). The engine is modelled from the specification and the signalling-state
  table of JSEP with three simplifications: \<open>createOffer\<close> does not reject in
  \<open>have-remote-offer\<close>, an answer is applied without matching its media sections to
  the offer, and \<open>setLocalDescription\<close> does not check that it is given the
  description last created. No property relies on these beyond C6, which shows that
  the service itself never checks an answer against the latest offer.

  \<^bold>\<open>Not modelled.\<close> The socket context (\<open>context/SocketProvider\<close>) and the router
  set-up that the pages import are not among the repository's sources; the model takes
  one socket per tab and the two routes \<open>/\<close> and \<open>/room/:id\<close>. Of the rendering,
  layout and CSS and the media playback itself are left out (\<open>play()\<close> is called and
  its rejection ignored, which changes no state). The relay is modelled from the
  specification, its code not being in the repository. The \<open>console.log\<close> calls
  are not modelled. Of the browser's \<open>RTCPeerConnection\<close> only what the code can
  observe is modelled: the code registers no \<open>icecandidate\<close>,
  \<open>iceconnectionstatechange\<close> or \<open>connectionstatechange\<close> listener and only
  passes the STUN server list to the constructor (\<open>ice_servers\<close>), so ICE gathering
  and connectivity checks, DTLS and codec negotiation change nothing the program reads
  and are left out.
\<close>

section \<open>Scenarios\<close>

text \<open>
  Runs of the whole system at which the properties below are applied (their
  witnesses): participants \<open>A\<close> and \<open>B\<close> open the page, type an address and room
  \<open>42\<close> and join, and the relay introduces \<open>B\<close> to \<open>A\<close>. Capture is granted
  throughout.
\<close>

definition scen_join :: "sys_event list" where
  "scen_join =
     [Connect ''A'', Connect ''B'',
      Input ''A'' (TypeEmail ''a@x''), Input ''A'' (TypeRoom ''42''), Input ''A'' Submit,
      ServerRecv ''A'', ClientRecv ''A'' Granted,
      Input ''B'' (TypeEmail ''b@x''), Input ''B'' (TypeRoom ''42''), Input ''B'' Submit,
      ServerRecv ''B'', ClientRecv ''A'' Granted, ClientRecv ''B'' Granted]"

text \<open>A third participant \<open>C\<close> tries to join room \<open>42\<close> once \<open>A\<close> and \<open>B\<close> are in it.\<close>

definition scen_full :: "sys_event list" where
  "scen_full = scen_join @
     [Connect ''C'', Input ''C'' (TypeEmail ''c@x''), Input ''C'' (TypeRoom ''42''), Input ''C'' Submit,
      ServerRecv ''C'', ClientRecv ''C'' Granted]"

text \<open>\<open>A\<close> presses Call and its \<open>user:call\<close> is still on the wire.\<close>

definition scen_ring :: "sys_event list" where
  "scen_ring = scen_join @ [Input ''A'' (ClickCall Granted)]"

text \<open>\<open>A\<close>'s offer of \<open>scen_ring\<close> has reached \<open>B\<close>'s queue.\<close>

definition scen_offered :: "sys_event list" where
  "scen_offered = scen_ring @ [ServerRecv ''A'']"

text \<open>\<open>A\<close> submits the form with a malformed address, \<open>a@\<close>.\<close>

definition scen_bad_email :: "sys_event list" where
  "scen_bad_email = [Connect ''A'', Input ''A'' (TypeEmail ''a@''), Input ''A'' (TypeRoom ''42''), Input ''A'' Submit]"

text \<open>
  With the permission prompt as a real suspension (theory \<open>AsyncSystem\<close>): after
  \<open>scen_join\<close>, \<open>A\<close> presses Call and the prompt is open; in
  \<open>ascen_leave_during_prompt\<close> \<open>A\<close> then goes back to the lobby and grants the prompt.
\<close>

definition ascen_calling :: "asys_event list" where
  "ascen_calling = [Sync (Input ''A'' (ClickCall Granted))]"

definition ascen_leave_during_prompt :: "asys_event list" where
  "ascen_leave_during_prompt = ascen_calling @ [Sync (Input ''A'' GoBack), Media ''A'' 0 Granted]"

text \<open>
  With the engine's operations as steps of their own (theory \<open>ChainSystem\<close>):
  \<open>cscen_call\<close> is a call from \<open>A\<close> to \<open>B\<close>, every handler that awaits the service
  followed by the settling of its operations. In \<open>cscen_crossing\<close> both then press
  Call; \<open>A\<close>'s \<open>createOffer\<close> is still in its chain when \<open>B\<close>'s offer arrives, and
  \<open>A\<close>, granting capture at once, queues \<open>setRemoteDescription\<close> of it behind.
\<close>

definition cscen_call :: "csys_event list" where
  "cscen_call = map CSync scen_join @
     [CSync (Input ''A'' (ClickCall Granted)), CMedia ''A'' 0 Granted, OpDone ''A'', OpDone ''A'',
      CSync (ServerRecv ''A''), CSync (ClientRecv ''B'' Granted), CMedia ''B'' 0 Granted,
      OpDone ''B'', OpDone ''B'', OpDone ''B'',
      CSync (ServerRecv ''B''), CSync (ClientRecv ''A'' Granted), OpDone ''A'']"

definition cscen_crossing :: "csys_event list" where
  "cscen_crossing = cscen_call @
     [CSync (Input ''A'' (ClickCall Granted)), CMedia ''A'' 0 Granted,
      CSync (Input ''B'' (ClickCall Granted)), CMedia ''B'' 0 Granted, OpDone ''B'', OpDone ''B'',
      CSync (ServerRecv ''B''), CSync (ClientRecv ''A'' Granted), CMedia ''A'' 0 Granted]"

text \<open>The state a scenario ends in, and a participant's tab in it.\<close>

definition scen_state :: "sys_event list \<Rightarrow> sys" where
  "scen_state es = the (run sys_init es)"

definition tab :: "sys_event list \<Rightarrow> sid \<Rightarrow> client" where
  "tab es i = the (clients (scen_state es) i)"

definition ascen_state :: "asys_event list \<Rightarrow> asys" where
  "ascen_state es = the (asys_run (lift_sys sys_init) (map Sync scen_join @ es))"

definition cstate :: "csys_event list \<Rightarrow> csys" where
  "cstate es = the (csys_run (lift_asys (lift_sys sys_init)) es)"

section \<open>Properties of the whole system\<close>

lemma scen_reachable: "run sys_init es \<noteq> None \<Longrightarrow> reachable (scen_state es)"
  by (auto simp: scen_state_def intro: run_reachable [OF reachable.init])

lemma scen_tab: "clients (scen_state es) i \<noteq> None \<Longrightarrow> clients (scen_state es) i = Some (tab es i)"
  by (auto simp: tab_def)

lemma reachable_client_ok: "reachable s \<Longrightarrow> clients s i = Some c \<Longrightarrow> client_ok c"
  by (drule reachable_sys_inv) (simp add: sys_inv_def)

lemma reachable_rooms_ok: "reachable s \<Longrightarrow> rooms_ok (srv s)"
  by (drule reachable_sys_inv) (simp add: sys_inv_def sys_inv_weak_def)

lemmas cscen_defs = cstate_def cscen_call_def cscen_crossing_def scen_join_def

lemmas scen_defs = scen_state_def tab_def ascen_state_def ascen_calling_def ascen_leave_during_prompt_def
  scen_ring_def scen_offered_def scen_full_def scen_bad_email_def scen_join_def

text \<open>
  C15. In every reachable state every room that exists holds one or two distinct
  participants: a join beyond two is refused and evicts no one.
\<close>

theorem reachable_room_occupancy:
  "reachable s \<Longrightarrow> rooms (srv s) r = Some os \<Longrightarrow> os \<noteq> [] \<and> length os \<le> 2 \<and> distinct os"
  using reachable_rooms_ok [of s] unfolding rooms_ok_def by blast

theorem reachable_room_occupancy_witness:
  "reachable (scen_state scen_full) \<and> rooms (srv (scen_state scen_full)) ''42'' = Some [''A'', ''B'']
   \<and> length [''A'', ''B''] \<le> 2 \<and> distinct [''A'', ''B'']"
proof -
  have r: "rooms (srv (scen_state scen_full)) ''42'' = Some [''A'', ''B'']"
    unfolding scen_defs by code_simp
  have re: "reachable (scen_state scen_full)"
    by (rule scen_reachable) (unfold scen_defs, code_simp)
  show ?thesis using re r reachable_room_occupancy [OF re r] by simp
qed

lemma reachable_no_renegotiation_messages:
  "reachable s \<Longrightarrow> list_all (\<lambda>m. \<not> reneg_out m) (up s i) \<and> list_all (\<lambda>m. \<not> reneg_in m) (down s i)"
proof -
  assume "reachable s"
  then have "sys_inv s" by (rule reachable_sys_inv)
  then have "outs_ok (up s i)" and "list_all (\<lambda>m. in_ok m \<and> \<not> reneg_in m) (down s i)"
    by (simp_all add: sys_inv_def sys_inv_weak_def)
  then show ?thesis by (simp add: outs_ok_def list_all_iff)
qed

text \<open>
  C17. The \<open>negotiationneeded\<close> path never fires: in every reachable state every tab
  has a connection whose senders are distinct and whose queued negotiation-needed check
  would find nothing to negotiate, because each \<open>addTrack\<close> of the code is followed by
  an offer or answer that carries the track; and no \<open>peer:nego:needed\<close> or
  \<open>peer:nego:done\<close> message is ever in flight or reaches a client.
\<close>

theorem reachable_negotiation_never_fires:
  "reachable s \<Longrightarrow> clients s i = Some c \<Longrightarrow>
   (\<exists>p. peer (svc (ctx c)) = Some p \<and> distinct (sender_tracks p) \<and> snd (nego_task p) = False)
   \<and> list_all (\<lambda>m. \<not> reneg_out m) (up s i) \<and> list_all (\<lambda>m. \<not> reneg_in m) (down s i)"
proof -
  assume re: "reachable s" and "clients s i = Some c"
  then have "ps_settled (svc (ctx c))" using reachable_client_ok by (simp add: client_ok_def)
  then obtain p where "peer (svc (ctx c)) = Some p" "pc_wf p" "pc_settled p"
    by (auto simp: ps_settled_def)
  then show ?thesis using pc_wf_sender_tracks_distinct pc_settled_nego_task reachable_no_renegotiation_messages [OF re]
    by blast
qed

theorem reachable_negotiation_never_fires_witness:
  "reachable (scen_state scen_ring)
   \<and> map_option (\<lambda>p. events p) (peer (svc (ctx (tab scen_ring ''A'')))) = Some [NegotiationCheck, NegotiationCheck]
   \<and> length (up (scen_state scen_ring) ''A'') = 1
   \<and> (\<exists>p. peer (svc (ctx (tab scen_ring ''A''))) = Some p \<and> distinct (sender_tracks p) \<and> snd (nego_task p) = False)
   \<and> list_all (\<lambda>m. \<not> reneg_out m) (up (scen_state scen_ring) ''A'')"
proof -
  have re: "reachable (scen_state scen_ring)"
    by (rule scen_reachable) (unfold scen_defs, code_simp)
  have c: "clients (scen_state scen_ring) ''A'' \<noteq> None"
    and e: "map_option (\<lambda>p. events p) (peer (svc (ctx (tab scen_ring ''A'')))) = Some [NegotiationCheck, NegotiationCheck]"
    and l: "length (up (scen_state scen_ring) ''A'') = 1"
    unfolding scen_defs by code_simp+
  show ?thesis using re e l reachable_negotiation_never_fires [OF re scen_tab [OF c]] by blast
qed

text \<open>
  C23. The signalling messages in transit are well typed: in every reachable state every
  \<open>user:call\<close>, \<open>incoming:call\<close> and \<open>peer:nego:needed\<close> queued at the relay or at a
  socket carries an offer, and every \<open>call:accepted\<close>, \<open>peer:nego:done\<close> and
  \<open>peer:nego:final\<close> an answer (never \<open>undefined\<close>).
\<close>

theorem reachable_messages_well_typed:
  "reachable s \<Longrightarrow> list_all out_ok (up s i) \<and> list_all in_ok (down s i)"
proof -
  assume "reachable s"
  then have "outs_ok (up s i)" and "list_all (\<lambda>m. in_ok m \<and> \<not> reneg_in m) (down s i)"
    by (auto dest!: reachable_sys_inv simp: sys_inv_def sys_inv_weak_def)
  then show ?thesis by (simp add: outs_ok_def list_all_iff)
qed

theorem reachable_messages_well_typed_witness:
  "reachable (scen_state scen_offered) \<and> down (scen_state scen_offered) ''B'' \<noteq> []
   \<and> list_all out_ok (up (scen_state scen_offered) ''A'') \<and> list_all in_ok (down (scen_state scen_offered) ''B'')"
proof -
  have re: "reachable (scen_state scen_offered)"
    by (rule scen_reachable) (unfold scen_defs, code_simp)
  have ne: "down (scen_state scen_offered) ''B'' \<noteq> []"
    unfolding scen_defs by code_simp
  from re ne reachable_messages_well_typed [OF re, where i = "''A''"] reachable_messages_well_typed [OF re, where i = "''B''"]
  show ?thesis by simp
qed

text \<open>
  Between events no tab is ever in the transient \<open>Answering\<close> state, nor in
  \<open>Terminated\<close>: in every reachable state every tab is \<open>Idle\<close>, \<open>Offering\<close>,
  \<open>Connected\<close> or \<open>Negotiating\<close>.
\<close>

lemma reachable_call_states:
  "reachable s \<Longrightarrow> clients s i = Some c \<Longrightarrow> call_abs (ctx c) \<in> {Idle, Offering, Connected, Negotiating}"
proof -
  assume "reachable s" and "clients s i = Some c"
  then have "ps_settled (svc (ctx c))" using reachable_client_ok by (simp add: client_ok_def)
  then obtain p where "signaling p \<noteq> HaveRemoteOffer" "call_abs (ctx c) = call_of p"
    using settled_pc by blast
  then show ?thesis by (simp add: call_of_def split: signaling_state.split)
qed

text \<open>
  C24. Every e-mail address the peers exchange passed the Lobby form's validation: in
  every reachable state each \<open>room:join\<close> queued for the relay, and each \<open>room:join\<close>
  or \<open>user:joined\<close> queued for a tab, carries an address that is empty or valid in the
  sense of the HTML standard, since the browser does not submit the form otherwise.
\<close>

theorem reachable_emails_validated:
  "reachable s \<Longrightarrow> list_all join_out_ok (up s i) \<and> list_all join_in_ok (down s i)"
  using reachable_joins_ok by (simp add: joins_ok_def)

theorem reachable_emails_validated_witness:
  "reachable (scen_state scen_bad_email) \<and> \<not> email_input_valid ''a@''
   \<and> up (scen_state scen_bad_email) ''A'' = []
   \<and> list_all join_out_ok (up (scen_state scen_bad_email) ''A'')
   \<and> list_all join_in_ok (down (scen_state scen_bad_email) ''A'')"
proof -
  have re: "reachable (scen_state scen_bad_email)"
    by (rule scen_reachable) (unfold scen_defs, code_simp)
  have bad: "\<not> email_input_valid ''a@''" by code_simp
  have u: "up (scen_state scen_bad_email) ''A'' = []" unfolding scen_defs by code_simp
  from re bad u reachable_emails_validated [OF re, where i = "''A''"] show ?thesis by simp
qed

theorem areachable_negotiation_never_fires_witness:
  "areachable (ascen_state ascen_leave_during_prompt)
   \<and> clients (sy (ascen_state ascen_leave_during_prompt)) ''A''
       = Some (the (clients (sy (ascen_state ascen_leave_during_prompt)) ''A''))
   \<and> (\<exists>p. peer (svc (ctx (the (clients (sy (ascen_state ascen_leave_during_prompt)) ''A'')))) = Some p
          \<and> snd (nego_task p) = False)"
proof -
  have r: "asys_run (lift_sys sys_init) (map Sync scen_join @ ascen_leave_during_prompt) \<noteq> None"
    and c: "clients (sy (ascen_state ascen_leave_during_prompt)) ''A'' \<noteq> None"
    unfolding scen_defs by code_simp+
  have re: "areachable (ascen_state ascen_leave_during_prompt)"
    using asys_run_reachable [OF areachable.init] r by (auto simp: ascen_state_def)
  have ci: "clients (sy (ascen_state ascen_leave_during_prompt)) ''A''
       = Some (the (clients (sy (ascen_state ascen_leave_during_prompt)) ''A''))" using c by auto
  from re ci areachable_negotiation_never_fires [OF re ci] show ?thesis by blast
qed

theorem leaving_during_prompt_leaks_devices_witness:
  "areachable (ascen_state ascen_calling)
   \<and> clients (sy (ascen_state ascen_calling)) ''A'' = Some (the (clients (sy (ascen_state ascen_calling)) ''A''))
   \<and> route (the (clients (sy (ascen_state ascen_calling)) ''A'')) \<noteq> LobbyPage
   \<and> 0 < length (pend (ascen_state ascen_calling) ''A'')
   \<and> (\<exists>a' c'. asys_run (ascen_state ascen_calling) [Sync (Input ''A'' GoBack), Media ''A'' 0 Granted] = Some a'
        \<and> clients (sy a') ''A'' = Some c' \<and> route c' = LobbyPage \<and> mystream (rs (ctx c')) = None
        \<and> {Suc (next_id (devs (ctx (the (clients (sy (ascen_state ascen_calling)) ''A''))))),
            Suc (Suc (next_id (devs (ctx (the (clients (sy (ascen_state ascen_calling)) ''A''))))))}
          \<subseteq> set (live (devs (ctx c'))))"
proof -
  have r: "asys_run (lift_sys sys_init) (map Sync scen_join @ ascen_calling) \<noteq> None"
    and c: "clients (sy (ascen_state ascen_calling)) ''A'' \<noteq> None"
    and rt: "route (the (clients (sy (ascen_state ascen_calling)) ''A'')) \<noteq> LobbyPage"
    and n: "0 < length (pend (ascen_state ascen_calling) ''A'')"
    unfolding scen_defs by code_simp+
  have re: "areachable (ascen_state ascen_calling)"
    using asys_run_reachable [OF areachable.init] r by (auto simp: ascen_state_def)
  have ci: "clients (sy (ascen_state ascen_calling)) ''A'' = Some (the (clients (sy (ascen_state ascen_calling)) ''A''))"
    using c by auto
  show ?thesis using re ci rt n leaving_during_prompt_leaks_devices [OF ci rt n] by blast
qed

theorem crossing_offer_rejects_own_offer_witness:
  "clients (sy (ca (cstate cscen_crossing))) ''A'' = Some (the (clients (sy (ca (cstate cscen_crossing))) ''A''))
   \<and> peer (svc (ctx (the (clients (sy (ca (cstate cscen_crossing))) ''A''))))
       = Some (the (peer (svc (ctx (the (clients (sy (ca (cstate cscen_crossing))) ''A''))))))
   \<and> sd_type \<lparr>sd_type = Offer, sd_serial = 1, sd_tracks = [(1, Some 0), (2, Some 0), (4, Some 3), (5, Some 3)]\<rparr> = Offer
   \<and> chain (cstate cscen_crossing) ''A''
       = [(OpCreateOffer, KOfferCreated, ForCall (Some ''B'')),
          (OpSetRemote \<lparr>sd_type = Offer, sd_serial = 1, sd_tracks = [(1, Some 0), (2, Some 0), (4, Some 3), (5, Some 3)]\<rparr>,
           KRemoteSet, ForAccept ''B'')]
   \<and> (\<exists>cs' c' p' a. csys_run (cstate cscen_crossing) (replicate 5 (OpDone ''A'')) = Some cs'
        \<and> clients (sy (ca cs')) ''A'' = Some c' \<and> peer (svc (ctx c')) = Some p'
        \<and> up (sy (ca cs')) ''A'' = up (sy (ca (cstate cscen_crossing))) ''A'' @ [EmitCallAccepted ''B'' (Some a)]
        \<and> signaling p' = Stable
        \<and> remote_desc p' = Some \<lparr>sd_type = Offer, sd_serial = 1, sd_tracks = [(1, Some 0), (2, Some 0), (4, Some 3), (5, Some 3)]\<rparr>
        \<and> local_desc p' = Some a \<and> sd_type a = Answer \<and> sd_serial a = 1
        \<and> offer_count p' = Suc (offer_count (the (peer (svc (ctx (the (clients (sy (ca (cstate cscen_crossing))) ''A'')))))))
        \<and> chain cs' ''A'' = [])"
proof -
  have c: "clients (sy (ca (cstate cscen_crossing))) ''A'' \<noteq> None"
    and p: "peer (svc (ctx (the (clients (sy (ca (cstate cscen_crossing))) ''A'')))) \<noteq> None"
    and ch: "chain (cstate cscen_crossing) ''A''
       = [(OpCreateOffer, KOfferCreated, ForCall (Some ''B'')),
          (OpSetRemote \<lparr>sd_type = Offer, sd_serial = 1, sd_tracks = [(1, Some 0), (2, Some 0), (4, Some 3), (5, Some 3)]\<rparr>,
           KRemoteSet, ForAccept ''B'')]"
    unfolding cscen_defs by code_simp+
  have ci: "clients (sy (ca (cstate cscen_crossing))) ''A'' = Some (the (clients (sy (ca (cstate cscen_crossing))) ''A''))"
    using c by auto
  have pi: "peer (svc (ctx (the (clients (sy (ca (cstate cscen_crossing))) ''A''))))
       = Some (the (peer (svc (ctx (the (clients (sy (ca (cstate cscen_crossing))) ''A''))))))"
    using p by auto
  have d: "sd_type \<lparr>sd_type = Offer, sd_serial = 1, sd_tracks = [(1::nat, Some (0::nat)), (2, Some 0), (4, Some 3), (5, Some 3)]\<rparr> = Offer"
    by simp
  show ?thesis using ci pi d ch crossing_offer_rejects_own_offer [OF ci pi d ch] by simp
qed

end
